(* ===== verification/Prelude.thy ===== *)
theory Prelude
  imports Complex_Main "HOL-Library.Word" "HOL-Library.Multiset"
begin

text \<open>
  Types, effects and generic lemmas shared by the component theories.

  C++ exceptions are values: a throwing computation returns \<open>exc + 'a\<close>, with
  \<open>Inl\<close> carrying the text of \<open>what()\<close>. A computation that mutates a state and may throw
  has type \<open>('s, 'a) eff\<close>: it returns the state it leaves behind also when it throws,
  because the C++ code does not roll member variables back.
\<close>

named_theorems eff_simps \<open>evaluation rules of the effect combinators\<close>
named_theorems path_simps \<open>the field and element paths used in error texts\<close>

type_synonym exc = string
type_synonym int32 = "32 word"
type_synonym int64 = "64 word"
type_synonym uint32 = "32 word"
type_synonym ('s, 'a) eff = "'s \<Rightarrow> (exc + 'a) \<times> 's"

section \<open>Results\<close>

fun rbind :: "exc + 'a \<Rightarrow> ('a \<Rightarrow> exc + 'b) \<Rightarrow> exc + 'b" where
  "rbind (Inl e) f = Inl e"
| "rbind (Inr a) f = f a"

text \<open>A \<open>try\<close> block whose handler throws another exception made from the caught text.\<close>

fun rethrow :: "(exc \<Rightarrow> exc) \<Rightarrow> exc + 'a \<Rightarrow> exc + 'a" where
  "rethrow f (Inl e) = Inl (f e)"
| "rethrow f (Inr a) = Inr a"

lemma rbind_Inr_iff: "rbind r f = Inr b \<longleftrightarrow> (\<exists>a. r = Inr a \<and> f a = Inr b)"
  by (cases r) auto

lemma rbind_Inl_iff:
  "rbind r f = Inl e \<longleftrightarrow> r = Inl e \<or> (\<exists>a. r = Inr a \<and> f a = Inl e)"
  by (cases r) auto

lemma rethrow_Inr_iff [simp]: "rethrow f r = Inr a \<longleftrightarrow> r = Inr a"
  by (cases r) auto

lemma rbind_assoc: "rbind (rbind r f) g = rbind r (\<lambda>a. rbind (f a) g)"
  by (cases r) auto

section \<open>State and exceptions\<close>

definition eret :: "'a \<Rightarrow> ('s, 'a) eff" where
  "eret a = (\<lambda>s. (Inr a, s))"

definition ethrow :: "exc \<Rightarrow> ('s, 'a) eff" where
  "ethrow e = (\<lambda>s. (Inl e, s))"

definition ebind :: "('s, 'a) eff \<Rightarrow> ('a \<Rightarrow> ('s, 'b) eff) \<Rightarrow> ('s, 'b) eff" where
  "ebind m f = (\<lambda>s. case m s of (Inl e, t) \<Rightarrow> (Inl e, t) | (Inr a, t) \<Rightarrow> f a t)"

definition eseq :: "('s, 'a) eff \<Rightarrow> ('s, 'b) eff \<Rightarrow> ('s, 'b) eff" where
  "eseq m n = ebind m (\<lambda>_. n)"

definition eget :: "('s \<Rightarrow> 'a) \<Rightarrow> ('s, 'a) eff" where
  "eget f = (\<lambda>s. (Inr (f s), s))"

definition emod :: "('s \<Rightarrow> 's) \<Rightarrow> ('s, unit) eff" where
  "emod f = (\<lambda>s. (Inr (), f s))"

text \<open>A pure computation that may throw, run in a state it does not touch.\<close>

definition elift :: "exc + 'a \<Rightarrow> ('s, 'a) eff" where
  "elift r = (\<lambda>s. (r, s))"

definition erethrow :: "(exc \<Rightarrow> exc) \<Rightarrow> ('s, 'a) eff \<Rightarrow> ('s, 'a) eff" where
  "erethrow f m = (\<lambda>s. case m s of (Inl e, t) \<Rightarrow> (Inl (f e), t) | (Inr a, t) \<Rightarrow> (Inr a, t))"

definition ecatch :: "('s, 'a) eff \<Rightarrow> (exc \<Rightarrow> ('s, 'a) eff) \<Rightarrow> ('s, 'a) eff" where
  "ecatch m h = (\<lambda>s. case m s of (Inl e, t) \<Rightarrow> h e t | (Inr a, t) \<Rightarrow> (Inr a, t))"

text \<open>A range-\<open>for\<close> loop over a vector: it stops where the body throws.\<close>

fun eforeach :: "('a \<Rightarrow> ('s, unit) eff) \<Rightarrow> 'a list \<Rightarrow> ('s, unit) eff" where
  "eforeach body [] = eret ()"
| "eforeach body (x # xs) = eseq (body x) (eforeach body xs)"

declare eforeach.simps [simp del]

lemma eret_apply [eff_simps]: "eret a s = (Inr a, s)"
  by (simp add: eret_def)

lemma ethrow_apply [eff_simps]: "ethrow e s = (Inl e, s)"
  by (simp add: ethrow_def)

lemma eget_apply [eff_simps]: "eget f s = (Inr (f s), s)"
  by (simp add: eget_def)

lemma emod_apply [eff_simps]: "emod f s = (Inr (), f s)"
  by (simp add: emod_def)

lemma elift_apply [eff_simps]: "elift r s = (r, s)"
  by (simp add: elift_def)

lemma ebind_apply [eff_simps]:
  "ebind m f s = (case m s of (Inl e, t) \<Rightarrow> (Inl e, t) | (Inr a, t) \<Rightarrow> f a t)"
  by (simp add: ebind_def)

lemma eseq_apply [eff_simps]:
  "eseq m n s = (case m s of (Inl e, t) \<Rightarrow> (Inl e, t) | (Inr a, t) \<Rightarrow> n t)"
  by (simp add: eseq_def ebind_def)

lemma erethrow_apply [eff_simps]:
  "erethrow f m s = (case m s of (Inl e, t) \<Rightarrow> (Inl (f e), t) | (Inr a, t) \<Rightarrow> (Inr a, t))"
  by (simp add: erethrow_def)

lemma erethrow_iff: "erethrow f m s = (r, t) \<longleftrightarrow> (\<exists>q. m s = (q, t) \<and> r = rethrow f q)"
  by (cases "m s"; cases "fst (m s)") (auto simp: erethrow_def)

lemma ecatch_apply [eff_simps]:
  "ecatch m h s = (case m s of (Inl e, t) \<Rightarrow> h e t | (Inr a, t) \<Rightarrow> (Inr a, t))"
  by (simp add: ecatch_def)

lemma eforeach_Nil [eff_simps]: "eforeach body [] s = (Inr (), s)"
  by (simp add: eforeach.simps eret_def)

lemma eforeach_Cons [eff_simps]:
  "eforeach body (x # xs) s =
     (case body x s of (Inl e, t) \<Rightarrow> (Inl e, t) | (Inr a, t) \<Rightarrow> eforeach body xs t)"
  by (simp add: eforeach.simps eseq_apply)

text \<open>The two rules used for loops: an invariant, and a loop whose body never throws.\<close>

lemma eforeach_invariant:
  assumes "\<And>x t. x \<in> set xs \<Longrightarrow> I t \<Longrightarrow> I (snd (body x t))"
    and "I s"
  shows "I (snd (eforeach body xs s))"
  using assms
proof (induction xs arbitrary: s)
  case Nil
  then show ?case by (simp add: eff_simps)
next
  case (Cons x xs)
  obtain r t where step: "body x s = (r, t)" by (cases "body x s")
  with Cons.prems have "I t" by (metis list.set_intros(1) snd_conv)
  then have "I (snd (eforeach body xs t))"
    using Cons.prems(1) by (intro Cons.IH) (auto intro: list.set_intros)
  with step \<open>I t\<close> show ?case by (cases r) (auto simp: eff_simps)
qed

lemma eforeach_pure:
  assumes "\<And>x t. x \<in> set xs \<Longrightarrow> body x t = (Inr (), f x t)"
  shows "eforeach body xs s = (Inr (), fold f xs s)"
  using assms by (induction xs arbitrary: s) (simp_all add: eff_simps)

section \<open>Small library functions\<close>

text \<open>\<open>std::to_string\<close> of an unsigned number.\<close>

fun nat_to_string :: "nat \<Rightarrow> string" where
  "nat_to_string n =
     (if n < 10 then [char_of (48 + n)] else nat_to_string (n div 10) @ [char_of (48 + n mod 10)])"

declare nat_to_string.simps [simp del]

text \<open>\<open>std::to_string\<close> of a signed number.\<close>

definition int_to_string :: "int \<Rightarrow> string" where
  "int_to_string i = (if i < 0 then ''-'' @ nat_to_string (nat (- i)) else nat_to_string (nat i))"

text \<open>\<open>std::unordered_map::emplace\<close>: an entry is only added when its key is new.\<close>

definition emplace :: "'k \<Rightarrow> 'v \<Rightarrow> ('k \<rightharpoonup> 'v) \<Rightarrow> ('k \<rightharpoonup> 'v)" where
  "emplace k v m = (if m k = None then m(k \<mapsto> v) else m)"

text \<open>
  \<open>boost::range::find\<close> followed by \<open>erase\<close> removes the first occurrence, if any, which is
  \<open>remove1\<close>; \<open>std::find_if\<close> is \<open>List.find\<close>.
\<close>

lemma map_of_append_None:
  "map_of (xs @ ys) k = (case map_of xs k of None \<Rightarrow> map_of ys k | Some v \<Rightarrow> Some v)"
  by (induction xs) auto

lemma find_Some_in: "List.find P xs = Some x \<Longrightarrow> x \<in> set xs \<and> P x"
  by (induction xs) (auto split: if_splits)

text \<open>
  Which searches return an element: an element is found under a wanted key when no earlier
  element has that key. \<open>first_keys\<close> checks this on the lists of all and of wanted keys.
\<close>

fun first_keys :: "'k list list \<Rightarrow> ('k list \<times> 'k list) list \<Rightarrow> bool" where
  "first_keys seen [] = True"
| "first_keys seen ((ks, ws) # rest) =
     (list_all (\<lambda>ps. list_all (\<lambda>w. w \<notin> set ps) ws) seen \<and> first_keys (seen @ [ks]) rest)"

lemma find_append_None:
  "(\<forall>y \<in> set ys. \<not> P y) \<Longrightarrow> List.find P (ys @ xs) = List.find P xs"
  by (induction ys) auto

lemma find_first_keys:
  assumes "first_keys (map K seen) (map (\<lambda>d. (K d, W d)) xs)"
    and "d \<in> set xs" "w \<in> set (W d)" "set (W d) \<subseteq> set (K d)"
  shows "List.find (\<lambda>y. w \<in> set (K y)) (seen @ xs) = Some d"
  using assms
proof (induction xs arbitrary: seen)
  case Nil
  then show ?case by simp
next
  case (Cons x xs)
  show ?case
  proof (cases "x = d")
    case True
    with Cons.prems have "\<forall>y \<in> set seen. w \<notin> set (K y)"
      by (auto simp: list_all_iff)
    with True Cons.prems show ?thesis by (auto simp: find_append_None)
  next
    case False
    with Cons.prems Cons.IH [of "seen @ [x]"] show ?thesis by simp
  qed
qed

lemma find_None_all: "List.find P xs = None \<longleftrightarrow> (\<forall>x \<in> set xs. \<not> P x)"
  by (induction xs) auto

lemma find_distinct_key:
  "distinct (map k xs) \<Longrightarrow> x \<in> set xs \<Longrightarrow> List.find (\<lambda>y. k y = k x) xs = Some x"
  by (induction xs) auto

text \<open>
  A range-\<open>for\<close> loop that counts its iterations, accumulates into a local variable and may
  throw (the accumulator is lost then).
\<close>

fun rfold_index :: "(nat \<Rightarrow> 'a \<Rightarrow> 'b \<Rightarrow> exc + 'b) \<Rightarrow> nat \<Rightarrow> 'a list \<Rightarrow> 'b \<Rightarrow> exc + 'b" where
  "rfold_index body index [] acc = Inr acc"
| "rfold_index body index (x # xs) acc = rbind (body index x acc) (rfold_index body (Suc index) xs)"

lemma rfold_index_collect:
  assumes "\<And>i x acc. x \<in> set xs \<Longrightarrow> body i x acc = Inr (acc @ [f x])"
  shows "rfold_index body i xs acc = Inr (acc @ map f xs)"
  using assms by (induction xs arbitrary: i acc) simp_all

lemma rfold_index_invariant:
  assumes "rfold_index body i xs acc = Inr res" and "I i acc"
    and "\<And>k x a b. k < length xs \<Longrightarrow> x = xs ! k \<Longrightarrow> I (i + k) a \<Longrightarrow> body (i + k) x a = Inr b \<Longrightarrow> I (Suc (i + k)) b"
  shows "I (i + length xs) res"
  using assms
proof (induction xs arbitrary: i acc)
  case Nil
  then show ?case by simp
next
  case (Cons x xs)
  from Cons.prems(1) obtain b where b: "body i x acc = Inr b" "rfold_index body (Suc i) xs b = Inr res"
    by (auto simp: rbind_Inr_iff)
  have "I (Suc i) b" using Cons.prems(3) [of 0 x acc b] Cons.prems(2) b by simp
  moreover have "I (Suc (Suc i + k)) b'"
    if "k < length xs" "y = xs ! k" "I (Suc i + k) a" "body (Suc i + k) y a = Inr b'" for k y a b'
    using Cons.prems(3) [of "Suc k" y a b'] that by simp
  ultimately have "I (Suc i + length xs) res" by (rule Cons.IH [OF b(2)])
  then show ?case by simp
qed

text \<open>What one list inside the accumulator has received at the end of such a loop.\<close>

lemma rfold_index_project:
  assumes "\<And>i x a b. body i x a = Inr b \<Longrightarrow> \<exists>ys. sel b = sel a @ ys \<and> map Inr ys = g (i, x)"
    and "rfold_index body i xs acc = Inr res"
  shows "\<exists>ys. sel res = sel acc @ ys \<and> map Inr ys = concat (map g (enumerate i xs))"
  using assms(2)
proof (induction xs arbitrary: i acc)
  case Nil
  then show ?case by simp
next
  case (Cons x xs)
  then obtain b where b: "body i x acc = Inr b" "rfold_index body (Suc i) xs b = Inr res"
    by (auto simp: rbind_Inr_iff)
  from assms(1) [OF b(1)] obtain ys where ys: "sel b = sel acc @ ys" "map Inr ys = g (i, x)" by blast
  from Cons.IH [OF b(2)] obtain zs
    where "sel res = sel b @ zs" "map Inr zs = concat (map g (enumerate (Suc i) xs))" by blast
  with ys show ?case by (intro exI [of _ "ys @ zs"]) simp
qed

lemma rfold_index_frame:
  assumes "\<And>i x a b. body i x a = Inr b \<Longrightarrow> sel b = sel a"
    and "rfold_index body i xs acc = Inr res"
  shows "sel res = sel acc"
  using assms(2) by (induction xs arbitrary: i acc) (auto simp: rbind_Inr_iff dest: assms(1))

lemma rfold_index_all:
  assumes "\<And>i x a b. body i x a = Inr b \<Longrightarrow> P x"
    and "rfold_index body i xs acc = Inr res"
  shows "list_all P xs"
  using assms(2) by (induction xs arbitrary: i acc) (auto simp: rbind_Inr_iff dest: assms(1))

end
