(* ===== verification/Video_Format.thy ===== *)
theory Video_Format
  imports Prelude
begin

text \<open>
  The table of video formats, \<open>daemon/video_format.{h,cpp}\<close>: the enumeration, the
  description record, its constructors, the table itself and the three look-ups over the
  lazily built hash maps. \<open>boost::rational\<close> and \<open>double\<close> are exact rationals
  (\<open>quotient_of\<close> gives the normalised numerator and denominator); the rounding of \<open>fps\<close>
  is not modelled. \<open>emplace\<close> keeps the first entry of a key, so the look-ups are decided
  by table order.
\<close>

section \<open>Descriptions\<close>

datatype video_fmt =
    pal | ntsc | x576p2500
  | x720p2500 | x720p5000 | x720p2398 | x720p2400 | x720p2997 | x720p5994 | x720p3000 | x720p6000
  | x1080p2398 | x1080p2400 | x1080i5000 | x1080i5994 | x1080i6000
  | x1080p2500 | x1080p2997 | x1080p3000 | x1080p5000 | x1080p5994 | x1080p6000
  | x1556p2398 | x1556p2400 | x1556p2500
  | x2160p2398 | x2160p2400 | x2160p2500 | x2160p2997 | x2160p3000 | x2160p5000 | x2160p5994
  | x2160p6000
  | fmt_invalid | fmt_count

text \<open>The value of an enumerator, \<open>static_cast<int>(f)\<close>, is its position in the declaration.\<close>

definition video_fmt_order :: "video_fmt list" where
  "video_fmt_order =
     [pal, ntsc, x576p2500,
      x720p2500, x720p5000, x720p2398, x720p2400, x720p2997, x720p5994, x720p3000, x720p6000,
      x1080p2398, x1080p2400, x1080i5000, x1080i5994, x1080i6000,
      x1080p2500, x1080p2997, x1080p3000, x1080p5000, x1080p5994, x1080p6000,
      x1556p2398, x1556p2400, x1556p2500,
      x2160p2398, x2160p2400, x2160p2500, x2160p2997, x2160p3000, x2160p5000, x2160p5994,
      x2160p6000,
      fmt_invalid, fmt_count]"

definition video_fmt_value :: "video_fmt \<Rightarrow> nat" where
  "video_fmt_value f = length (takeWhile (\<lambda>g. g \<noteq> f) video_fmt_order)"

record video_format_desc =
  vd_format :: video_fmt
  vd_width :: int
  vd_height :: int
  vd_square_width :: int
  vd_square_height :: int
  vd_field_count :: int
  vd_fps :: rat
  vd_framerate :: rat
  vd_time_scale :: int
  vd_duration :: int
  vd_size :: nat
  vd_name :: string
  vd_display_name :: string
  vd_monitor_mode_name :: string
  vd_audio_channels :: int
  vd_audio_sample_rate :: int
  vd_audio_samples :: int
  vd_audio_cadence :: "int list"
  vd_st30_frame_size :: int
  vd_st30_fps :: int
  vd_sample_num :: int

definition video_format_desc_new ::
    "video_fmt \<Rightarrow> int \<Rightarrow> int \<Rightarrow> int \<Rightarrow> int \<Rightarrow> int \<Rightarrow> int \<Rightarrow> int \<Rightarrow> string \<Rightarrow> string \<Rightarrow> string \<Rightarrow> int list
       \<Rightarrow> video_format_desc" where
  "video_format_desc_new fmt field_count width height square_width square_height time_scale duration
       name display_name monitor_mode_name audio_cadence =
     \<lparr> vd_format = fmt, vd_width = width, vd_height = height,
       vd_square_width = square_width, vd_square_height = square_height,
       vd_field_count = field_count,
       vd_fps = of_int time_scale / of_int duration,
       vd_framerate = Fract time_scale duration,
       vd_time_scale = time_scale, vd_duration = duration,
       vd_size = nat (width * height * 4),
       vd_name = name, vd_display_name = display_name, vd_monitor_mode_name = monitor_mode_name,
       vd_audio_channels = 2, vd_audio_sample_rate = 48000, vd_audio_samples = 0,
       vd_audio_cadence = audio_cadence,
       vd_st30_frame_size = 0, vd_st30_fps = 0, vd_sample_num = 0 \<rparr>"

definition is_invalid :: "video_format_desc \<Rightarrow> bool" where
  "is_invalid d \<longleftrightarrow> vd_format d = fmt_invalid"

section \<open>The table\<close>

definition format_descs_sd :: "video_format_desc list" where
  "format_descs_sd =
     [video_format_desc_new pal 2 720 576 1024 576 50000 1000 ''PAL'' ''PAL'' ''PAL'' [1920 div 2],
      video_format_desc_new ntsc 2 720 486 720 540 60000 1001 ''NTSC'' ''NTSC'' ''NTSC'' [801, 801, 801, 800, 801, 801, 801, 800, 801, 801],
      video_format_desc_new x576p2500 1 720 576 1024 576 25000 1000 ''576p2500'' ''576p25'' ''1024x576 25'' [1920]]"

definition format_descs_720 :: "video_format_desc list" where
  "format_descs_720 =
     [video_format_desc_new x720p2398 1 1280 720 1280 720 24000 1001 ''720p2398'' ''720p2398'' ''1280x720 23.98'' [2002],
      video_format_desc_new x720p2400 1 1280 720 1280 720 24000 1000 ''720p2400'' ''720p24'' ''1280x720 24'' [2000],
      video_format_desc_new x720p2500 1 1280 720 1280 720 25000 1000 ''720p2500'' ''720p25'' ''1280x720 25'' [1920],
      video_format_desc_new x720p5000 1 1280 720 1280 720 50000 1000 ''720p5000'' ''720p50'' ''1280x720 50'' [960],
      video_format_desc_new x720p2997 1 1280 720 1280 720 30000 1001 ''720p2997'' ''720p2997'' ''1280x720 29.97'' [1602, 1601, 1602, 1601, 1602],
      video_format_desc_new x720p5994 1 1280 720 1280 720 60000 1001 ''720p5994'' ''720p5994'' ''1280x720 59.94'' [801, 800, 801, 801, 801],
      video_format_desc_new x720p3000 1 1280 720 1280 720 30000 1000 ''720p3000'' ''720p30'' ''1280x720 30'' [1600],
      video_format_desc_new x720p6000 1 1280 720 1280 720 60000 1000 ''720p6000'' ''720p60'' ''1280x720 60'' [800]]"

definition format_descs_1080 :: "video_format_desc list" where
  "format_descs_1080 =
     [video_format_desc_new x1080p2398 1 1920 1080 1920 1080 24000 1001 ''1080p2398'' ''1080p2398'' ''1920x1080 23.98'' [2002],
      video_format_desc_new x1080p2400 1 1920 1080 1920 1080 24000 1000 ''1080p2400'' ''1080p24'' ''1920x1080 24'' [2000],
      video_format_desc_new x1080i5000 2 1920 1080 1920 1080 50000 1000 ''1080i5000'' ''1080i50'' ''1920x1080 50i'' [1920 div 2],
      video_format_desc_new x1080i5994 2 1920 1080 1920 1080 60000 1001 ''1080i5994'' ''1080i5994'' ''1920x1080 59.94i'' [801, 801, 801, 800, 801, 801, 801, 800, 801, 801],
      video_format_desc_new x1080i6000 2 1920 1080 1920 1080 60000 1000 ''1080i6000'' ''1080i60'' ''1920x1080 60'' [1600 div 2],
      video_format_desc_new x1080p2500 1 1920 1080 1920 1080 25000 1000 ''1080p2500'' ''1080p25'' ''1920x1080 25'' [1920],
      video_format_desc_new x1080p2997 1 1920 1080 1920 1080 30000 1001 ''1080p2997'' ''1080p2997'' ''1920x1080 29.97'' [1602, 1601, 1602, 1601, 1602],
      video_format_desc_new x1080p3000 1 1920 1080 1920 1080 30000 1000 ''1080p3000'' ''1080p30'' ''1920x1080 30'' [1600],
      video_format_desc_new x1080p5000 1 1920 1080 1920 1080 50000 1000 ''1080p5000'' ''1080p50'' ''1920x1080 50'' [960],
      video_format_desc_new x1080p5994 1 1920 1080 1920 1080 60000 1001 ''1080p5994'' ''1080p5994'' ''1920x1080 59.94'' [801, 800, 801, 801, 801],
      video_format_desc_new x1080p6000 1 1920 1080 1920 1080 60000 1000 ''1080p6000'' ''1080p60'' ''1920x1080 60'' [800]]"

definition format_descs_1556 :: "video_format_desc list" where
  "format_descs_1556 =
     [video_format_desc_new x1556p2398 1 2048 1556 2048 1556 24000 1001 ''1556p2398'' ''1556p2398'' ''2048x1556 23.98'' [2002],
      video_format_desc_new x1556p2400 1 2048 1556 2048 1556 24000 1000 ''1556p2400'' ''1556p24'' ''2048x1556 24'' [2000],
      video_format_desc_new x1556p2500 1 2048 1556 2048 1556 25000 1000 ''1556p2500'' ''1556p25'' ''2048x1556 25'' [1920]]"

definition format_descs_2160 :: "video_format_desc list" where
  "format_descs_2160 =
     [video_format_desc_new x2160p2398 1 3840 2160 3840 2160 24000 1001 ''2160p2398'' ''2160p2398'' ''3840x2160 23.98'' [2002],
      video_format_desc_new x2160p2400 1 3840 2160 3840 2160 24000 1000 ''2160p2400'' ''2160p24'' ''3840x2160 24'' [2000],
      video_format_desc_new x2160p2500 1 3840 2160 3840 2160 25000 1000 ''2160p2500'' ''2160p25'' ''3840x2160 25'' [1920],
      video_format_desc_new x2160p2997 1 3840 2160 3840 2160 30000 1001 ''2160p2997'' ''2160p2997'' ''3840x2160 29.97'' [1602, 1601, 1602, 1601, 1602],
      video_format_desc_new x2160p3000 1 3840 2160 3840 2160 30000 1000 ''2160p3000'' ''2160p30'' ''3840x2160 30'' [1600],
      video_format_desc_new x2160p5000 1 3840 2160 3840 2160 50000 1000 ''2160p5000'' ''2160p50'' ''3840x2160 50'' [960],
      video_format_desc_new x2160p5994 1 3840 2160 3840 2160 60000 1001 ''2160p5994'' ''2160p5994'' ''3840x2160 59.94'' [801, 800, 801, 801, 801],
      video_format_desc_new x2160p6000 1 3840 2160 3840 2160 60000 1000 ''2160p6000'' ''2160p60'' ''3840x2160 60'' [800]]"

definition format_desc_invalid :: video_format_desc where
  "format_desc_invalid = video_format_desc_new fmt_invalid 1 0 0 0 0 1 1 ''invalid'' ''invalid'' ''invalid'' [1]"

definition format_descs :: "video_format_desc list" where
  "format_descs = format_descs_sd @ format_descs_720 @ format_descs_1080 @ format_descs_1556
     @ format_descs_2160 @ [format_desc_invalid]"

section \<open>Look-ups\<close>

text \<open>\<open>format_descs.at(i)\<close> throws \<open>std::out_of_range\<close>.\<close>

definition format_descs_at :: "nat \<Rightarrow> exc + video_format_desc" where
  "format_descs_at i = (if i < length format_descs then Inr (format_descs ! i)
                        else Inl ''vector::_M_range_check'')"

definition video_format_desc_default :: "exc + video_format_desc" where
  "video_format_desc_default = format_descs_at (video_fmt_value fmt_invalid)"

definition init_format_map :: "video_fmt \<rightharpoonup> video_format_desc" where
  "init_format_map = fold (\<lambda>f m. emplace (vd_format f) f m) format_descs Map.empty"

definition init_format_name_map :: "string \<rightharpoonup> video_format_desc" where
  "init_format_name_map =
     fold (\<lambda>f m. emplace (vd_monitor_mode_name f) f
                  (emplace (vd_display_name f) f (emplace (vd_name f) f m)))
       format_descs Map.empty"

definition init_format_monitor_mode_name_map :: "string \<rightharpoonup> video_format_desc" where
  "init_format_monitor_mode_name_map =
     fold (\<lambda>f m. emplace (vd_monitor_mode_name f) f m) format_descs Map.empty"

text \<open>
  The three static members \<open>get\<close>. The function-local static \<open>invalid_instance\<close> is
  constructed on the first call, whatever the look-up finds.
\<close>

definition get_by_format :: "video_fmt \<Rightarrow> exc + video_format_desc" where
  "get_by_format f =
     rbind video_format_desc_default (\<lambda>invalid_instance.
       case init_format_map f of Some d \<Rightarrow> Inr d | None \<Rightarrow> Inr invalid_instance)"

definition get_by_name :: "string \<Rightarrow> exc + video_format_desc" where
  "get_by_name name =
     rbind video_format_desc_default (\<lambda>invalid_instance.
       case init_format_name_map name of Some d \<Rightarrow> Inr d | None \<Rightarrow> Inr invalid_instance)"

definition get_by_monitor_mode_name :: "string \<Rightarrow> exc + video_format_desc" where
  "get_by_monitor_mode_name name =
     rbind video_format_desc_default (\<lambda>invalid_instance.
       case init_format_monitor_mode_name_map name of Some d \<Rightarrow> Inr d | None \<Rightarrow> Inr invalid_instance)"

definition get_max_audio_sample_num :: "video_format_desc \<Rightarrow> int" where
  "get_max_audio_sample_num d =
     (case vd_audio_cadence d of [] \<Rightarrow> 0 | c # cs \<Rightarrow> fold max cs c)"

section \<open>What the look-ups find\<close>

lemma emplace_fold:
  "fold (\<lambda>f m. emplace (k f) f m) fs m x =
     (case m x of Some d \<Rightarrow> Some d | None \<Rightarrow> List.find (\<lambda>f. k f = x) fs)"
  by (induction fs arbitrary: m) (auto simp: emplace_def split: option.splits)

lemma emplace3_fold:
  "fold (\<lambda>f m. emplace (k3 f) f (emplace (k2 f) f (emplace (k1 f) f m))) fs m x =
     (case m x of Some d \<Rightarrow> Some d
      | None \<Rightarrow> List.find (\<lambda>f. k1 f = x \<or> k2 f = x \<or> k3 f = x) fs)"
  by (induction fs arbitrary: m) (auto simp: emplace_def split: option.splits)

lemma video_format_desc_new_sel [simp]:
  "vd_format (video_format_desc_new fmt fc w h sw sh ts du n dn mn cad) = fmt"
  "vd_width (video_format_desc_new fmt fc w h sw sh ts du n dn mn cad) = w"
  "vd_height (video_format_desc_new fmt fc w h sw sh ts du n dn mn cad) = h"
  "vd_field_count (video_format_desc_new fmt fc w h sw sh ts du n dn mn cad) = fc"
  "vd_fps (video_format_desc_new fmt fc w h sw sh ts du n dn mn cad) = of_int ts / of_int du"
  "vd_framerate (video_format_desc_new fmt fc w h sw sh ts du n dn mn cad) = Fract ts du"
  "vd_time_scale (video_format_desc_new fmt fc w h sw sh ts du n dn mn cad) = ts"
  "vd_duration (video_format_desc_new fmt fc w h sw sh ts du n dn mn cad) = du"
  "vd_size (video_format_desc_new fmt fc w h sw sh ts du n dn mn cad) = nat (w * h * 4)"
  "vd_name (video_format_desc_new fmt fc w h sw sh ts du n dn mn cad) = n"
  "vd_display_name (video_format_desc_new fmt fc w h sw sh ts du n dn mn cad) = dn"
  "vd_monitor_mode_name (video_format_desc_new fmt fc w h sw sh ts du n dn mn cad) = mn"
  "vd_audio_sample_rate (video_format_desc_new fmt fc w h sw sh ts du n dn mn cad) = 48000"
  "vd_audio_cadence (video_format_desc_new fmt fc w h sw sh ts du n dn mn cad) = cad"
  by (simp_all add: video_format_desc_new_def)

lemmas format_desc_tables = format_descs_sd_def format_descs_720_def format_descs_1080_def
  format_descs_1556_def format_descs_2160_def

lemma format_descs_length: "length format_descs = 34"
  by (simp add: format_descs_def format_desc_tables)

lemma video_fmt_value_invalid: "video_fmt_value fmt_invalid = 33"
  by (simp add: video_fmt_value_def video_fmt_order_def)

lemma format_descs_invalid: "format_descs ! 33 = format_desc_invalid"
proof -
  let ?xs = "format_descs_sd @ format_descs_720 @ format_descs_1080 @ format_descs_1556
     @ format_descs_2160"
  have "length ?xs = 33" by (simp add: format_desc_tables)
  then have "(?xs @ [format_desc_invalid]) ! 33 = format_desc_invalid"
    by (metis nth_append_length)
  then show ?thesis by (simp add: format_descs_def)
qed

lemma default_desc: "video_format_desc_default = Inr format_desc_invalid"
  by (simp add: video_format_desc_default_def format_descs_at_def format_descs_length
      video_fmt_value_invalid format_descs_invalid)

lemma get_by_format_find:
  "get_by_format f = Inr (case List.find (\<lambda>d. vd_format d = f) format_descs of
                            Some d \<Rightarrow> d | None \<Rightarrow> format_desc_invalid)"
  by (simp add: get_by_format_def default_desc init_format_map_def emplace_fold split: option.split)

lemma get_by_name_find:
  "get_by_name s = Inr (case List.find (\<lambda>d. vd_name d = s \<or> vd_display_name d = s
                                 \<or> vd_monitor_mode_name d = s) format_descs of
                          Some d \<Rightarrow> d | None \<Rightarrow> format_desc_invalid)"
  by (simp add: get_by_name_def default_desc init_format_name_map_def emplace3_fold
      split: option.split)

lemma get_by_monitor_mode_name_find:
  "get_by_monitor_mode_name s = Inr (case List.find (\<lambda>d. vd_monitor_mode_name d = s) format_descs of
                                       Some d \<Rightarrow> d | None \<Rightarrow> format_desc_invalid)"
  by (simp add: get_by_monitor_mode_name_def default_desc init_format_monitor_mode_name_map_def
      emplace_fold split: option.split)

lemmas get_finds = get_by_format_find get_by_name_find get_by_monitor_mode_name_find

section \<open>The keys of the table\<close>

text \<open>All names an entry is entered under, and the names that reach it.\<close>

lemma names_first:
  "first_keys [] (map (\<lambda>d. ([vd_name d, vd_display_name d, vd_monitor_mode_name d],
                            [vd_name d, vd_display_name d])) format_descs)"
  by (simp add: format_descs_def format_desc_tables format_desc_invalid_def)

lemma monitor_modes_first:
  "first_keys [] (map (\<lambda>d. ([vd_monitor_mode_name d],
                  if vd_format d = x1080p6000 then [] else [vd_monitor_mode_name d])) format_descs)"
  by (simp add: format_descs_def format_desc_tables format_desc_invalid_def)

lemma formats_distinct: "distinct (map vd_format format_descs)"
  by (simp add: format_descs_def format_desc_tables format_desc_invalid_def)

lemma get_by_name_self:
  assumes "d \<in> set format_descs" "s = vd_name d \<or> s = vd_display_name d"
  shows "get_by_name s = Inr d"
proof -
  let ?K = "\<lambda>d. [vd_name d, vd_display_name d, vd_monitor_mode_name d]"
  have "List.find (\<lambda>y. s \<in> set (?K y)) ([] @ format_descs) = Some d"
    using assms names_first
    by (intro find_first_keys [where W = "\<lambda>d. [vd_name d, vd_display_name d]"]) auto
  then have "List.find (\<lambda>d. vd_name d = s \<or> vd_display_name d = s \<or> vd_monitor_mode_name d = s)
      format_descs = Some d"
    by (simp add: eq_commute [of s] disj_commute)
  then show ?thesis by (simp add: get_by_name_find)
qed

lemma get_by_monitor_mode_name_self:
  assumes "d \<in> set format_descs" "vd_format d \<noteq> x1080p6000"
  shows "get_by_monitor_mode_name (vd_monitor_mode_name d) = Inr d"
proof -
  let ?W = "\<lambda>d. if vd_format d = x1080p6000 then [] else [vd_monitor_mode_name d]"
  have "List.find (\<lambda>y. vd_monitor_mode_name d \<in> set [vd_monitor_mode_name y]) ([] @ format_descs)
      = Some d"
    using assms monitor_modes_first by (intro find_first_keys [where W = ?W]) auto
  then have "List.find (\<lambda>y. vd_monitor_mode_name y = vd_monitor_mode_name d) format_descs = Some d"
    by (simp add: eq_commute [of "vd_monitor_mode_name d"])
  then show ?thesis by (simp add: get_by_monitor_mode_name_find)
qed

lemma get_by_format_self:
  assumes "d \<in> set format_descs"
  shows "get_by_format (vd_format d) = Inr d"
  using find_distinct_key [OF formats_distinct assms] by (simp add: get_by_format_find)

lemma find_in_table:
  "(case List.find P format_descs of Some d \<Rightarrow> d | None \<Rightarrow> format_desc_invalid) \<in> set format_descs"
  by (auto simp: format_descs_def dest: find_Some_in split: option.splits)

section \<open>Properties\<close>

text \<open>
  C1. Every entry of the table is found under its enumerator, its name and its display
  name: no earlier entry shadows it in the hash maps.
\<close>
theorem video_format_lookup_roundtrip:
  "list_all (\<lambda>d. get_by_format (vd_format d) = Inr d \<and> get_by_name (vd_name d) = Inr d \<and>
                 get_by_name (vd_display_name d) = Inr d) format_descs"
  by (simp add: list_all_iff get_by_format_self get_by_name_self)

text \<open>
  The look-up by monitor mode reaches every entry but one: the mode \<open>1920x1080 60\<close> is
  shared by the interlaced and the progressive entry, and the look-up gives the interlaced one
  for both.
\<close>
theorem monitor_mode_lookup:
  "list_all (\<lambda>d. get_by_monitor_mode_name (vd_monitor_mode_name d) = Inr d)
     (filter (\<lambda>d. vd_format d \<noteq> x1080p6000) format_descs) \<and>
   rbind (get_by_format x1080p6000) (\<lambda>d. get_by_monitor_mode_name (vd_monitor_mode_name d))
     = get_by_format x1080i6000"
proof -
  let ?find = "\<lambda>f. List.find (\<lambda>d. vd_format d = f) format_descs"
  have modes: "map_option vd_monitor_mode_name (?find x1080p6000) = Some ''1920x1080 60''"
      "map_option vd_monitor_mode_name (?find x1080i6000) = Some ''1920x1080 60''"
    by (simp_all add: format_descs_def format_desc_tables format_desc_invalid_def)
  then obtain p i where p: "?find x1080p6000 = Some p" and i: "?find x1080i6000 = Some i"
    by auto
  with modes have "vd_monitor_mode_name p = vd_monitor_mode_name i" by simp
  moreover from i have "i \<in> set format_descs" "vd_format i = x1080i6000"
    by (auto dest: find_Some_in)
  ultimately show ?thesis
    using get_by_monitor_mode_name_self [of i] p i
    by (simp add: list_all_iff get_by_monitor_mode_name_self get_by_format_find)
qed

text \<open>
  For every real format the audio cadence accounts for all samples: over one cycle of the
  cadence, the samples add up to exactly the duration of the cycle's frames.
\<close>
theorem audio_cadence_exact:
  "list_all (\<lambda>d. sum_list (vd_audio_cadence d) * vd_time_scale d
              = vd_audio_sample_rate d * vd_duration d * int (length (vd_audio_cadence d)))
     (filter (\<lambda>d. \<not> is_invalid d) format_descs)"
  by (simp add: is_invalid_def format_descs_def format_desc_tables format_desc_invalid_def)

text \<open>
  The look-ups never throw and always give an entry of the table, and a name that no entry
  has gives the invalid entry.
\<close>
theorem video_format_lookup_total:
  "(\<exists>d \<in> set format_descs. get_by_format f = Inr d) \<and>
   (\<exists>d \<in> set format_descs. get_by_name s = Inr d) \<and>
   (\<exists>d \<in> set format_descs. get_by_monitor_mode_name s = Inr d) \<and>
   (case get_by_name s of Inr d \<Rightarrow> is_invalid d \<or> s \<in> {vd_name d, vd_display_name d, vd_monitor_mode_name d}
                        | Inl e \<Rightarrow> False)"
proof -
  let ?P = "\<lambda>d. vd_name d = s \<or> vd_display_name d = s \<or> vd_monitor_mode_name d = s"
  have "is_invalid format_desc_invalid" by (simp add: is_invalid_def format_desc_invalid_def)
  then have "case get_by_name s of
      Inr d \<Rightarrow> is_invalid d \<or> s \<in> {vd_name d, vd_display_name d, vd_monitor_mode_name d}
    | Inl e \<Rightarrow> False"
    by (auto simp: get_by_name_find dest: find_Some_in split: option.split)
  then show ?thesis by (simp add: get_finds find_in_table)
qed

end
