(* ===== verification/Dto_Types.thy ===== *)
theory Dto_Types
  imports Prelude
begin

text \<open>
  The stream structures of \<open>node.h\<close>, the PTP and snapshot structures of \<open>daemon/dto.h\<close>, and the
  functions of \<open>daemon/dto.cpp\<close> that only read them: the effective PTP values and the
  \<open>equivalent\<close> overloads the reconciler compares streams with. A C++ \<open>int\<close> is a 32-bit word
  read by \<open>sint\<close>; a \<open>double\<close> is a rational (NaN, which differs from itself, cannot come out of
  the JSON parser).
\<close>

section \<open>Streams\<close>

record redudancy =
  rd_present :: bool
  rd_enable :: bool
  rd_source_ip :: string
  rd_ip :: string
  rd_port :: int32

text \<open>
  A default-constructed \<open>Redudancy\<close> leaves \<open>port\<close> indeterminate: its value is the argument.
\<close>

definition redudancy_default :: "int32 \<Rightarrow> redudancy" where
  "redudancy_default port =
     \<lparr> rd_present = False, rd_enable = False, rd_source_ip = [], rd_ip = [], rd_port = port \<rparr>"

record video_sender =
  vs_id :: string
  vs_sender_id :: string
  vs_name :: string
  vs_enable :: bool
  vs_video_format :: string
  vs_colorspace :: string
  vs_transfer_characteristics :: string
  vs_source_ip :: string
  vs_ip :: string
  vs_port :: int32
  vs_redudancy :: redudancy
  vs_pg_format :: int32

record audio_sender =
  as_id :: string
  as_sender_id :: string
  as_name :: string
  as_source_ip :: string
  as_enable :: bool
  as_channel_count :: int32
  as_bit_depth :: int32
  as_sample_rate :: int32
  as_ip :: string
  as_port :: int32
  as_redudancy :: redudancy

record video_receiver_caps =
  vc_formats :: "string list"
  vc_colorspaces :: "string list"
  vc_transfer_characteristics :: "string list"

record video_receiver =
  vr_id :: string
  vr_name :: string
  vr_source_ip :: string
  vr_ip :: string
  vr_port :: int32
  vr_enable :: bool
  vr_redudancy :: redudancy
  vr_caps :: video_receiver_caps
  vr_format :: string
  vr_colorspace :: string
  vr_transfer_characteristics :: string

record audio_receiver =
  ar_id :: string
  ar_name :: string
  ar_enable :: bool
  ar_channel_count :: int32
  ar_bit_depth :: int32
  ar_sample_rate :: int32
  ar_packet_time :: rat
  ar_ip :: string
  ar_source_ip :: string
  ar_port :: int32
  ar_redudancy :: redudancy

record ancillary_sender =
  ns_id :: string
  ns_sender_id :: string
  ns_name :: string
  ns_format :: string
  ns_source_ip :: string
  ns_enable :: bool
  ns_ip :: string
  ns_port :: int32
  ns_redudancy :: redudancy

record ancillary_receiver =
  nr_id :: string
  nr_name :: string
  nr_format :: string
  nr_enable :: bool
  nr_ip :: string
  nr_source_ip :: string
  nr_port :: int32
  nr_redudancy :: redudancy

section \<open>PTP clock and snapshot\<close>

record ptp_entry =
  pe_clock_accuracy :: int32
  pe_clock_class :: int32
  pe_grandmaster_identity :: string
  pe_grandmaster_priority1 :: int32
  pe_grandmaster_priority2 :: int32
  pe_is_active :: bool
  pe_is_connected :: bool
  pe_is_locked :: bool
  pe_master_initialized :: bool
  pe_master_port_id :: string
  pe_master_utc_offset :: int32
  pe_offset :: rat
  pe_offset_scaled_log_variance :: int32
  pe_t1_domain_number :: int32

definition ptp_entry_default :: ptp_entry where
  "ptp_entry_default =
     \<lparr> pe_clock_accuracy = 0, pe_clock_class = 0, pe_grandmaster_identity = [],
       pe_grandmaster_priority1 = 0, pe_grandmaster_priority2 = 0,
       pe_is_active = False, pe_is_connected = False, pe_is_locked = False,
       pe_master_initialized = False, pe_master_port_id = [], pe_master_utc_offset = 0,
       pe_offset = 0, pe_offset_scaled_log_variance = 0, pe_t1_domain_number = 127 \<rparr>"

record ptp_clock_dto =
  pc_entries :: "ptp_entry list"

record device_dto =
  dv_device :: string
  dv_display_name :: string
  dv_enable :: bool
  dv_id :: int32
  dv_sip :: string

record snapshot_dto =
  sn_ptp_clock :: ptp_clock_dto
  sn_devices :: "device_dto list"
  sn_video_senders :: "video_sender list"
  sn_audio_senders :: "audio_sender list"
  sn_ancillary_senders :: "ancillary_sender list"
  sn_video_receivers :: "video_receiver list"
  sn_audio_receivers :: "audio_receiver list"
  sn_ancillary_receivers :: "ancillary_receiver list"

definition snapshot_default :: snapshot_dto where
  "snapshot_default =
     \<lparr> sn_ptp_clock = \<lparr> pc_entries = [] \<rparr>, sn_devices = [],
       sn_video_senders = [], sn_audio_senders = [], sn_ancillary_senders = [],
       sn_video_receivers = [], sn_audio_receivers = [], sn_ancillary_receivers = [] \<rparr>"

text \<open>The loops return from the first entry that passes their test.\<close>

fun effective_gmid_loop :: "ptp_entry list \<Rightarrow> string" where
  "effective_gmid_loop [] = []"
| "effective_gmid_loop (entry # rest) =
     (if pe_is_active entry \<and> pe_is_connected entry \<and> pe_master_initialized entry
         \<and> pe_grandmaster_identity entry \<noteq> []
      then pe_grandmaster_identity entry else effective_gmid_loop rest)"

definition effective_gmid :: "ptp_clock_dto \<Rightarrow> string" where
  "effective_gmid clock = effective_gmid_loop (pc_entries clock)"

fun effective_locked_loop :: "ptp_entry list \<Rightarrow> bool" where
  "effective_locked_loop [] = False"
| "effective_locked_loop (entry # rest) =
     (if pe_is_active entry \<and> pe_is_connected entry \<and> pe_master_initialized entry
      then pe_is_locked entry else effective_locked_loop rest)"

definition effective_locked :: "ptp_clock_dto \<Rightarrow> bool" where
  "effective_locked clock = effective_locked_loop (pc_entries clock)"

fun effective_ptp_domain_loop :: "ptp_entry list \<Rightarrow> int32" where
  "effective_ptp_domain_loop [] = 127"
| "effective_ptp_domain_loop (entry # rest) =
     (if pe_is_active entry \<and> pe_is_connected entry \<and> pe_master_initialized entry
      then (if 0 \<le> sint (pe_t1_domain_number entry) \<and> sint (pe_t1_domain_number entry) \<le> 127
            then pe_t1_domain_number entry else 127)
      else effective_ptp_domain_loop rest)"

definition effective_ptp_domain :: "ptp_clock_dto \<Rightarrow> int32" where
  "effective_ptp_domain clock = effective_ptp_domain_loop (pc_entries clock)"

definition ptp_clock_empty :: "ptp_clock_dto \<Rightarrow> bool" where
  "ptp_clock_empty clock \<longleftrightarrow> pc_entries clock = []"

definition has_any_streams :: "snapshot_dto \<Rightarrow> bool" where
  "has_any_streams s \<longleftrightarrow>
     sn_video_senders s \<noteq> [] \<or> sn_audio_senders s \<noteq> [] \<or> sn_ancillary_senders s \<noteq> [] \<or>
     sn_video_receivers s \<noteq> [] \<or> sn_audio_receivers s \<noteq> [] \<or> sn_ancillary_receivers s \<noteq> []"

section \<open>Equivalence of streams\<close>

definition rd_equivalent :: "redudancy \<Rightarrow> redudancy \<Rightarrow> bool" where
  "rd_equivalent l r \<longleftrightarrow>
     rd_present l = rd_present r \<and> rd_enable l = rd_enable r \<and>
     rd_source_ip l = rd_source_ip r \<and> rd_ip l = rd_ip r \<and> rd_port l = rd_port r"

definition vs_equivalent :: "video_sender \<Rightarrow> video_sender \<Rightarrow> bool" where
  "vs_equivalent l r \<longleftrightarrow>
     vs_id l = vs_id r \<and> vs_name l = vs_name r \<and>
     vs_enable l = vs_enable r \<and> vs_video_format l = vs_video_format r \<and>
     vs_colorspace l = vs_colorspace r \<and>
     vs_transfer_characteristics l = vs_transfer_characteristics r \<and>
     vs_source_ip l = vs_source_ip r \<and>
     vs_ip l = vs_ip r \<and> vs_port l = vs_port r \<and>
     rd_equivalent (vs_redudancy l) (vs_redudancy r) \<and>
     vs_pg_format l = vs_pg_format r"

definition as_equivalent :: "audio_sender \<Rightarrow> audio_sender \<Rightarrow> bool" where
  "as_equivalent l r \<longleftrightarrow>
     as_id l = as_id r \<and>
     as_name l = as_name r \<and> as_source_ip l = as_source_ip r \<and>
     as_enable l = as_enable r \<and> as_channel_count l = as_channel_count r \<and>
     as_bit_depth l = as_bit_depth r \<and> as_sample_rate l = as_sample_rate r \<and>
     as_ip l = as_ip r \<and> as_port l = as_port r \<and>
     rd_equivalent (as_redudancy l) (as_redudancy r)"

definition ns_equivalent :: "ancillary_sender \<Rightarrow> ancillary_sender \<Rightarrow> bool" where
  "ns_equivalent l r \<longleftrightarrow>
     ns_id l = ns_id r \<and>
     ns_name l = ns_name r \<and> ns_source_ip l = ns_source_ip r \<and>
     ns_format l = ns_format r \<and> ns_enable l = ns_enable r \<and>
     ns_ip l = ns_ip r \<and> ns_port l = ns_port r \<and>
     rd_equivalent (ns_redudancy l) (ns_redudancy r)"

definition vr_equivalent :: "video_receiver \<Rightarrow> video_receiver \<Rightarrow> bool" where
  "vr_equivalent l r \<longleftrightarrow>
     vr_id l = vr_id r \<and> vr_name l = vr_name r \<and>
     vr_enable l = vr_enable r \<and>
     vr_source_ip l = vr_source_ip r \<and> vr_ip l = vr_ip r \<and>
     vr_port l = vr_port r \<and>
     rd_equivalent (vr_redudancy l) (vr_redudancy r) \<and>
     vr_format l = vr_format r \<and>
     vr_colorspace l = vr_colorspace r \<and>
     vr_transfer_characteristics l = vr_transfer_characteristics r \<and>
     vc_formats (vr_caps l) = vc_formats (vr_caps r) \<and>
     vc_colorspaces (vr_caps l) = vc_colorspaces (vr_caps r) \<and>
     vc_transfer_characteristics (vr_caps l) = vc_transfer_characteristics (vr_caps r)"

definition ar_equivalent :: "audio_receiver \<Rightarrow> audio_receiver \<Rightarrow> bool" where
  "ar_equivalent l r \<longleftrightarrow>
     ar_id l = ar_id r \<and>
     ar_name l = ar_name r \<and> ar_enable l = ar_enable r \<and>
     ar_channel_count l = ar_channel_count r \<and>
     ar_bit_depth l = ar_bit_depth r \<and> ar_sample_rate l = ar_sample_rate r \<and>
     ar_packet_time l = ar_packet_time r \<and> ar_ip l = ar_ip r \<and>
     ar_source_ip l = ar_source_ip r \<and> ar_port l = ar_port r \<and>
     rd_equivalent (ar_redudancy l) (ar_redudancy r)"

definition nr_equivalent :: "ancillary_receiver \<Rightarrow> ancillary_receiver \<Rightarrow> bool" where
  "nr_equivalent l r \<longleftrightarrow>
     nr_id l = nr_id r \<and>
     nr_name l = nr_name r \<and> nr_format l = nr_format r \<and>
     nr_enable l = nr_enable r \<and> nr_ip l = nr_ip r \<and>
     nr_source_ip l = nr_source_ip r \<and> nr_port l = nr_port r \<and>
     rd_equivalent (nr_redudancy l) (nr_redudancy r)"

definition pe_equivalent :: "ptp_entry \<Rightarrow> ptp_entry \<Rightarrow> bool" where
  "pe_equivalent l r \<longleftrightarrow>
     pe_clock_accuracy l = pe_clock_accuracy r \<and>
     pe_clock_class l = pe_clock_class r \<and>
     pe_grandmaster_identity l = pe_grandmaster_identity r \<and>
     pe_grandmaster_priority1 l = pe_grandmaster_priority1 r \<and>
     pe_grandmaster_priority2 l = pe_grandmaster_priority2 r \<and>
     pe_is_active l = pe_is_active r \<and>
     pe_is_connected l = pe_is_connected r \<and>
     pe_is_locked l = pe_is_locked r \<and>
     pe_master_initialized l = pe_master_initialized r \<and>
     pe_master_port_id l = pe_master_port_id r \<and>
     pe_master_utc_offset l = pe_master_utc_offset r \<and>
     pe_offset l = pe_offset r \<and>
     pe_offset_scaled_log_variance l = pe_offset_scaled_log_variance r \<and>
     pe_t1_domain_number l = pe_t1_domain_number r"

text \<open>\<open>std::vector\<close> equality: same size, then element by element with \<open>operator==\<close>.\<close>

definition ptp_equivalent :: "ptp_clock_dto \<Rightarrow> ptp_clock_dto \<Rightarrow> bool" where
  "ptp_equivalent l r \<longleftrightarrow> list_all2 pe_equivalent (pc_entries l) (pc_entries r)"

definition dv_equivalent :: "device_dto \<Rightarrow> device_dto \<Rightarrow> bool" where
  "dv_equivalent l r \<longleftrightarrow>
     dv_device l = dv_device r \<and>
     dv_display_name l = dv_display_name r \<and>
     dv_enable l = dv_enable r \<and> dv_id l = dv_id r \<and>
     dv_sip l = dv_sip r"

section \<open>Facts\<close>

lemma rd_equivalent_iff [simp]: "rd_equivalent l r \<longleftrightarrow> l = r"
  by (cases l; cases r) (simp add: rd_equivalent_def)

lemma vs_equivalent_iff: "vs_equivalent l r \<longleftrightarrow> l\<lparr>vs_sender_id := []\<rparr> = r\<lparr>vs_sender_id := []\<rparr>"
  by (cases l; cases r) (auto simp: vs_equivalent_def)

lemma as_equivalent_iff: "as_equivalent l r \<longleftrightarrow> l\<lparr>as_sender_id := []\<rparr> = r\<lparr>as_sender_id := []\<rparr>"
  by (cases l; cases r) (auto simp: as_equivalent_def)

lemma ns_equivalent_iff: "ns_equivalent l r \<longleftrightarrow> l\<lparr>ns_sender_id := []\<rparr> = r\<lparr>ns_sender_id := []\<rparr>"
  by (cases l; cases r) (auto simp: ns_equivalent_def)

lemma vr_equivalent_iff: "vr_equivalent l r \<longleftrightarrow> l = r"
  by (cases l; cases r; cases "vr_caps l"; cases "vr_caps r") (auto simp: vr_equivalent_def)

lemma ar_equivalent_iff: "ar_equivalent l r \<longleftrightarrow> l = r"
  by (cases l; cases r) (auto simp: ar_equivalent_def)

lemma nr_equivalent_iff: "nr_equivalent l r \<longleftrightarrow> l = r"
  by (cases l; cases r) (auto simp: nr_equivalent_def)

lemma pe_equivalent_iff: "pe_equivalent l r \<longleftrightarrow> l = r"
  by (cases l; cases r) (auto simp: pe_equivalent_def)

lemma ptp_equivalent_iff: "ptp_equivalent l r \<longleftrightarrow> l = r"
proof -
  have "pe_equivalent = (=)" by (intro ext) (rule pe_equivalent_iff)
  then show ?thesis by (cases l; cases r) (simp add: ptp_equivalent_def list.rel_eq)
qed

lemma dv_equivalent_iff: "dv_equivalent l r \<longleftrightarrow> l = r"
  by (cases l; cases r) (auto simp: dv_equivalent_def)

lemmas equivalent_iffs = vs_equivalent_iff as_equivalent_iff ns_equivalent_iff
  vr_equivalent_iff ar_equivalent_iff nr_equivalent_iff ptp_equivalent_iff dv_equivalent_iff

text \<open>The entries a clock may take its values from.\<close>

definition ptp_usable :: "ptp_entry \<Rightarrow> bool" where
  "ptp_usable e \<longleftrightarrow> pe_is_active e \<and> pe_is_connected e \<and> pe_master_initialized e"

lemma effective_gmid_find:
  "effective_gmid clock =
     (case List.find (\<lambda>e. ptp_usable e \<and> pe_grandmaster_identity e \<noteq> []) (pc_entries clock) of
        Some e \<Rightarrow> pe_grandmaster_identity e | None \<Rightarrow> [])"
proof -
  have "effective_gmid_loop es =
      (case List.find (\<lambda>e. ptp_usable e \<and> pe_grandmaster_identity e \<noteq> []) es of
         Some e \<Rightarrow> pe_grandmaster_identity e | None \<Rightarrow> [])" for es
    by (induction es) (auto simp: ptp_usable_def)
  then show ?thesis by (simp add: effective_gmid_def)
qed

lemma effective_locked_find:
  "effective_locked clock =
     (case List.find ptp_usable (pc_entries clock) of Some e \<Rightarrow> pe_is_locked e | None \<Rightarrow> False)"
proof -
  have "effective_locked_loop es =
      (case List.find ptp_usable es of Some e \<Rightarrow> pe_is_locked e | None \<Rightarrow> False)" for es
    by (induction es) (auto simp: ptp_usable_def)
  then show ?thesis by (simp add: effective_locked_def)
qed

lemma effective_ptp_domain_find:
  "effective_ptp_domain clock =
     (case List.find ptp_usable (pc_entries clock) of
        Some e \<Rightarrow> (if sint (pe_t1_domain_number e) \<in> {0..127} then pe_t1_domain_number e else 127)
      | None \<Rightarrow> 127)"
proof -
  have "effective_ptp_domain_loop es =
      (case List.find ptp_usable es of
         Some e \<Rightarrow> (if sint (pe_t1_domain_number e) \<in> {0..127} then pe_t1_domain_number e else 127)
       | None \<Rightarrow> 127)" for es
    by (induction es) (auto simp: ptp_usable_def)
  then show ?thesis by (simp add: effective_ptp_domain_def)
qed

section \<open>Properties\<close>

text \<open>
  The reconciler's comparison of streams sees every field: two senders are equivalent iff
  they differ at most in \<open>sender_id\<close> (which the node fills in), two receivers, clocks or
  devices iff they are equal.
\<close>
theorem equivalent_sees_every_field:
  "(vs_equivalent a b \<longleftrightarrow> a\<lparr>vs_sender_id := []\<rparr> = b\<lparr>vs_sender_id := []\<rparr>) \<and>
   (as_equivalent c d \<longleftrightarrow> c\<lparr>as_sender_id := []\<rparr> = d\<lparr>as_sender_id := []\<rparr>) \<and>
   (ns_equivalent e f \<longleftrightarrow> e\<lparr>ns_sender_id := []\<rparr> = f\<lparr>ns_sender_id := []\<rparr>) \<and>
   (vr_equivalent g h \<longleftrightarrow> g = h) \<and> (ar_equivalent i j \<longleftrightarrow> i = j) \<and> (nr_equivalent k l \<longleftrightarrow> k = l) \<and>
   (ptp_equivalent m n \<longleftrightarrow> m = n) \<and> (dv_equivalent p q \<longleftrightarrow> p = q)"
  by (simp add: equivalent_iffs)

text \<open>
  C2. The PTP values a clock reports: the domain is always in \<open>[0, 127]\<close>, and lock state and
  domain come from the same entry, the first usable one (127 and unlocked when there is none).
\<close>
theorem effective_ptp_values:
  "0 \<le> sint (effective_ptp_domain clock) \<and> sint (effective_ptp_domain clock) \<le> 127 \<and>
   (case List.find ptp_usable (pc_entries clock) of
      None \<Rightarrow> effective_gmid clock = [] \<and> \<not> effective_locked clock \<and> effective_ptp_domain clock = 127
    | Some e \<Rightarrow> effective_locked clock = pe_is_locked e \<and>
        effective_ptp_domain clock =
          (if sint (pe_t1_domain_number e) \<in> {0..127} then pe_t1_domain_number e else 127))"
proof -
  have "List.find (\<lambda>e. ptp_usable e \<and> pe_grandmaster_identity e \<noteq> []) es = None"
    if "List.find ptp_usable es = None" for es
    using that by (auto simp: find_None_all)
  then show ?thesis
    by (auto simp: effective_gmid_find effective_locked_find effective_ptp_domain_find
        split: option.split)
qed

text \<open>
  The grandmaster identity is searched for separately: when the first usable entry has an
  empty identity, the identity comes from a later entry, while lock state and domain come from
  the first one.
\<close>
theorem effective_gmid_of_other_entry:
  assumes "ptp_usable e1" "pe_grandmaster_identity e1 = []"
    and "ptp_usable e2" "pe_grandmaster_identity e2 \<noteq> []"
  shows "effective_gmid \<lparr> pc_entries = e1 # e2 # es \<rparr> = pe_grandmaster_identity e2 \<and>
         effective_locked \<lparr> pc_entries = e1 # e2 # es \<rparr> = pe_is_locked e1"
  using assms by (simp add: effective_gmid_find effective_locked_find)

definition ptp_entry_unnamed :: ptp_entry where
  "ptp_entry_unnamed = ptp_entry_default
     \<lparr> pe_is_active := True, pe_is_connected := True, pe_master_initialized := True \<rparr>"

theorem effective_gmid_of_other_entry_witness:
  "effective_gmid \<lparr> pc_entries = [ptp_entry_unnamed,
       ptp_entry_unnamed\<lparr> pe_grandmaster_identity := ''AA'', pe_is_locked := True \<rparr>] \<rparr> = ''AA'' \<and>
   \<not> effective_locked \<lparr> pc_entries = [ptp_entry_unnamed,
       ptp_entry_unnamed\<lparr> pe_grandmaster_identity := ''AA'', pe_is_locked := True \<rparr>] \<rparr>"
  using effective_gmid_of_other_entry
    [of ptp_entry_unnamed "ptp_entry_unnamed\<lparr> pe_grandmaster_identity := ''AA'', pe_is_locked := True \<rparr>" "[]"]
  by (simp add: ptp_entry_unnamed_def ptp_entry_default_def ptp_usable_def)

end
