(* ===== verification/Json_Lib.thy ===== *)
theory Json_Lib
  imports Prelude
begin

text \<open>
  The JSON library (\<open>web::json\<close> of cpprest) is not part of the repository, so it is a
  parameter: a record of the operations the daemon calls. What the daemon relies on is
  stated as the locale \<open>json_api\<close>; the locale predicate is the hypothesis of every
  theorem that needs it. A document type with association lists, \<open>doc_lib\<close>, satisfies
  it. \<open>utility::string_t\<close> is \<open>std::string\<close> on the platform the daemon is built for,
  so \<open>to_t\<close>, \<open>to_utf8\<close>, \<open>s2us\<close> and \<open>us2s\<close> are identities and leave no trace.

  Doubles are rationals here: the daemon only stores, copies and compares them in this
  component, and every finite double is a rational.
\<close>

section \<open>The interface\<close>

datatype json_type = JNumber | JBoolean | JString | JObject | JArray | JNull

record 'v json_lib =
  jtype :: "'v \<Rightarrow> json_type"
  jhas_field :: "'v \<Rightarrow> string \<Rightarrow> bool"
  jat :: "'v \<Rightarrow> string \<Rightarrow> exc + 'v"
  jfields :: "'v \<Rightarrow> exc + (string \<times> 'v) list"
  jelems :: "'v \<Rightarrow> exc + 'v list"
  jis_integer :: "'v \<Rightarrow> bool"
  jas_string :: "'v \<Rightarrow> exc + string"
  jas_bool :: "'v \<Rightarrow> exc + bool"
  jas_integer :: "'v \<Rightarrow> exc + int32"
  jto_int64 :: "'v \<Rightarrow> exc + int64"
  jas_double :: "'v \<Rightarrow> exc + rat"
  jnull :: 'v
  jobject :: 'v
  jarray :: 'v
  jstring :: "string \<Rightarrow> 'v"
  jbool :: "bool \<Rightarrow> 'v"
  jint :: "int32 \<Rightarrow> 'v"
  jint64 :: "int64 \<Rightarrow> 'v"
  jdouble :: "rat \<Rightarrow> 'v"
  jset :: "'v \<Rightarrow> string \<Rightarrow> 'v \<Rightarrow> 'v"
  jset_index :: "'v \<Rightarrow> nat \<Rightarrow> 'v \<Rightarrow> 'v"
  jerase :: "'v \<Rightarrow> string \<Rightarrow> exc + 'v"

abbreviation jis_object :: "('v, 'x) json_lib_scheme \<Rightarrow> 'v \<Rightarrow> bool" where
  "jis_object J v \<equiv> jtype J v = JObject"

abbreviation jis_array :: "('v, 'x) json_lib_scheme \<Rightarrow> 'v \<Rightarrow> bool" where
  "jis_array J v \<equiv> jtype J v = JArray"

abbreviation jis_null :: "('v, 'x) json_lib_scheme \<Rightarrow> 'v \<Rightarrow> bool" where
  "jis_null J v \<equiv> jtype J v = JNull"

abbreviation jis_string :: "('v, 'x) json_lib_scheme \<Rightarrow> 'v \<Rightarrow> bool" where
  "jis_string J v \<equiv> jtype J v = JString"

abbreviation jis_boolean :: "('v, 'x) json_lib_scheme \<Rightarrow> 'v \<Rightarrow> bool" where
  "jis_boolean J v \<equiv> jtype J v = JBoolean"

text \<open>
  The documented behaviour: constructors have their type, accessors of another type throw,
  member access finds what member assignment stored, \<open>operator[]\<close> with the size of an
  array appends, \<open>erase\<close> throws on a missing key. Assignment is only specified on
  objects and arrays, the only values the daemon assigns into.
\<close>

locale json_api =
  fixes J :: "('v, 'x) json_lib_scheme"
  assumes type_null: "jtype J (jnull J) = JNull"
    and type_object: "jtype J (jobject J) = JObject"
    and type_array: "jtype J (jarray J) = JArray"
    and type_string: "jtype J (jstring J s) = JString"
    and type_bool: "jtype J (jbool J b) = JBoolean"
    and type_int: "jtype J (jint J i) = JNumber"
    and type_int64: "jtype J (jint64 J l) = JNumber"
    and type_double: "jtype J (jdouble J d) = JNumber"
    and as_string: "jas_string J (jstring J s) = Inr s"
    and as_string_other: "jtype J v \<noteq> JString \<Longrightarrow> \<exists>e. jas_string J v = Inl e"
    and as_string_string: "jtype J v = JString \<Longrightarrow> \<exists>s. jas_string J v = Inr s"
    and as_bool: "jas_bool J (jbool J b) = Inr b"
    and as_bool_other: "jtype J v \<noteq> JBoolean \<Longrightarrow> \<exists>e. jas_bool J v = Inl e"
    and as_bool_bool: "jtype J v = JBoolean \<Longrightarrow> \<exists>b. jas_bool J v = Inr b"
    and is_integer_int: "jis_integer J (jint J i)"
    and is_integer_number: "jis_integer J v \<Longrightarrow> jtype J v = JNumber"
    and as_integer: "jas_integer J (jint J i) = Inr i"
    and as_integer_other: "jtype J v \<noteq> JNumber \<Longrightarrow> \<exists>e. jas_integer J v = Inl e"
    and as_integer_number: "jtype J v = JNumber \<Longrightarrow> \<exists>i. jas_integer J v = Inr i"
    and to_int64: "jto_int64 J (jint64 J l) = Inr l"
    and to_int64_other: "jtype J v \<noteq> JNumber \<Longrightarrow> \<exists>e. jto_int64 J v = Inl e"
    and as_double: "jas_double J (jdouble J d) = Inr d"
    and as_double_other: "jtype J v \<noteq> JNumber \<Longrightarrow> \<exists>e. jas_double J v = Inl e"
    and has_field_object: "jhas_field J v n \<Longrightarrow> jtype J v = JObject"
    and has_field_iff: "jhas_field J v n \<longleftrightarrow> (\<exists>x. jat J v n = Inr x)"
    and object_empty: "\<not> jhas_field J (jobject J) n"
    and type_set: "jtype J v = JObject \<Longrightarrow> jtype J (jset J v n x) = JObject"
    and at_set: "jtype J v = JObject \<Longrightarrow> jat J (jset J v n x) m = (if m = n then Inr x else jat J v m)"
    and fields_object: "jtype J v = JObject \<Longrightarrow> \<exists>fs. jfields J v = Inr fs \<and>
          distinct (map fst fs) \<and> (\<forall>m x. (m, x) \<in> set fs \<longleftrightarrow> jat J v m = Inr x)"
    and erase_present: "jhas_field J v n \<Longrightarrow> \<exists>w. jerase J v n = Inr w \<and> jtype J w = JObject \<and>
          \<not> jhas_field J w n \<and> (\<forall>m. m \<noteq> n \<longrightarrow> jat J w m = jat J v m)"
    and erase_missing: "\<not> jhas_field J v n \<Longrightarrow> \<exists>e. jerase J v n = Inl e"
    and elems_array: "jelems J (jarray J) = Inr []"
    and elems_iff: "jtype J v = JArray \<longleftrightarrow> (\<exists>xs. jelems J v = Inr xs)"
    and elems_append: "jelems J v = Inr xs \<Longrightarrow> jelems J (jset_index J v (length xs) x) = Inr (xs @ [x])"
    and elems_update: "jelems J v = Inr xs \<Longrightarrow> k < length xs \<Longrightarrow>
          jelems J (jset_index J v k x) = Inr (xs[k := x])"
begin

lemmas types [simp] = type_null type_object type_array type_string type_bool type_int
  type_int64 type_double

lemmas reads [simp] = as_string as_bool as_integer to_int64 as_double is_integer_int elems_array

lemma has_field_set [simp]:
  "jtype J v = JObject \<Longrightarrow> jhas_field J (jset J v n x) m \<longleftrightarrow> m = n \<or> jhas_field J v m"
  by (auto simp: has_field_iff at_set)

lemma not_object_no_field: "jtype J v \<noteq> JObject \<Longrightarrow> \<not> jhas_field J v n"
  using has_field_object by blast

lemma is_integer_as_integer: "jis_integer J v \<Longrightarrow> \<exists>i. jas_integer J v = Inr i"
  using is_integer_number as_integer_number by blast

end

section \<open>Objects built by a sequence of member assignments\<close>

text \<open>
  The serialisers all have the shape \<open>value o = value::object(); o[k] = v; ...; return o;\<close>.
  \<open>jassign\<close> performs such a sequence on an object, \<open>jbuild\<close> starts it from the empty one.
  \<open>jarray_of\<close> is the index loop \<open>array[index] = mapper(items[index])\<close>.
\<close>

definition jassign :: "('v, 'x) json_lib_scheme \<Rightarrow> 'v \<Rightarrow> (string \<times> 'v) list \<Rightarrow> 'v" where
  "jassign J v kvs = fold (\<lambda>(k, x) o'. jset J o' k x) kvs v"

definition jbuild :: "('v, 'x) json_lib_scheme \<Rightarrow> (string \<times> 'v) list \<Rightarrow> 'v" where
  "jbuild J kvs = jassign J (jobject J) kvs"

fun jarray_from :: "('v, 'x) json_lib_scheme \<Rightarrow> nat \<Rightarrow> 'v \<Rightarrow> 'v list \<Rightarrow> 'v" where
  "jarray_from J i arr [] = arr"
| "jarray_from J i arr (x # xs) = jarray_from J (Suc i) (jset_index J arr i x) xs"

definition jarray_of :: "('v, 'x) json_lib_scheme \<Rightarrow> 'v list \<Rightarrow> 'v" where
  "jarray_of J xs = jarray_from J 0 (jarray J) xs"

context json_api
begin

lemma type_assign: "jtype J v = JObject \<Longrightarrow> jtype J (jassign J v kvs) = JObject"
  unfolding jassign_def by (induction kvs arbitrary: v) (auto simp: type_set)

lemma at_assign:
  "jtype J v = JObject \<Longrightarrow>
   jat J (jassign J v kvs) n = (case map_of (rev kvs) n of Some x \<Rightarrow> Inr x | None \<Rightarrow> jat J v n)"
proof (induction kvs arbitrary: v)
  case Nil
  then show ?case by (simp add: jassign_def)
next
  case (Cons kx kvs)
  obtain k x where kx: "kx = (k, x)" by (cases kx)
  have "jat J (jassign J v (kx # kvs)) n = jat J (jassign J (jset J v k x) kvs) n"
    by (simp add: jassign_def kx)
  also have "\<dots> = (case map_of (rev kvs) n of Some y \<Rightarrow> Inr y | None \<Rightarrow> jat J (jset J v k x) n)"
    using Cons by (simp add: type_set)
  finally show ?case
    using Cons.prems by (auto simp: kx at_set map_of_append_None split: option.splits)
qed

lemma type_build [simp]: "jtype J (jbuild J kvs) = JObject"
  by (simp add: jbuild_def type_assign)

lemma at_build:
  "map_of (rev kvs) n = Some x \<Longrightarrow> jat J (jbuild J kvs) n = Inr x"
  by (simp add: jbuild_def at_assign)

lemma has_field_build [simp]: "jhas_field J (jbuild J kvs) n \<longleftrightarrow> n \<in> fst ` set kvs"
proof -
  have "map_of (rev kvs) n = None \<longleftrightarrow> n \<notin> fst ` set kvs"
    by (simp add: map_of_eq_None_iff)
  then show ?thesis
    using object_empty [of n]
    by (cases "map_of (rev kvs) n")
       (simp_all add: has_field_iff jbuild_def at_assign)
qed

lemma elems_from: "jelems J arr = Inr ys \<Longrightarrow> jelems J (jarray_from J (length ys) arr xs) = Inr (ys @ xs)"
proof (induction xs arbitrary: arr ys)
  case Nil
  then show ?case by simp
next
  case (Cons x xs)
  from Cons.IH [OF elems_append [OF Cons.prems, of x]] show ?case by simp
qed

lemma elems_array_of [simp]: "jelems J (jarray_of J xs) = Inr xs"
  using elems_from [of "jarray J" "[]" xs] by (simp add: jarray_of_def)

lemma type_array_of [simp]: "jtype J (jarray_of J xs) = JArray"
  using elems_array_of [of xs] elems_iff by blast

end

section \<open>A concrete document type\<close>

text \<open>
  Documents with association lists. It shows that the interface can be met, and the
  witnesses evaluate the model on it.
\<close>

datatype doc =
    DNull
  | DBool bool
  | DInt int
  | DReal rat
  | DStr string
  | DArr "doc list"
  | DObj "(string \<times> doc) list"

fun doc_type :: "doc \<Rightarrow> json_type" where
  "doc_type DNull = JNull"
| "doc_type (DBool _) = JBoolean"
| "doc_type (DInt _) = JNumber"
| "doc_type (DReal _) = JNumber"
| "doc_type (DStr _) = JString"
| "doc_type (DArr _) = JArray"
| "doc_type (DObj _) = JObject"

fun doc_map :: "doc \<Rightarrow> (string \<times> doc) list" where
  "doc_map (DObj kvs) = kvs"
| "doc_map _ = []"

fun doc_upd :: "string \<Rightarrow> 'a \<Rightarrow> (string \<times> 'a) list \<Rightarrow> (string \<times> 'a) list" where
  "doc_upd k x [] = [(k, x)]"
| "doc_upd k x ((j, y) # kvs) = (if j = k then (k, x) # kvs else (j, y) # doc_upd k x kvs)"

fun doc_dedup :: "string list \<Rightarrow> (string \<times> 'a) list \<Rightarrow> (string \<times> 'a) list" where
  "doc_dedup seen [] = []"
| "doc_dedup seen ((k, x) # kvs) =
     (if k \<in> set seen then doc_dedup seen kvs else (k, x) # doc_dedup (k # seen) kvs)"

definition doc_mismatch :: exc where
  "doc_mismatch = ''not the requested type''"

definition doc_lib :: "doc json_lib" where
  "doc_lib =
    \<lparr> jtype = doc_type,
      jhas_field = (\<lambda>v n. map_of (doc_map v) n \<noteq> None),
      jat = (\<lambda>v n. case map_of (doc_map v) n of Some x \<Rightarrow> Inr x | None \<Rightarrow> Inl ''Key not found''),
      jfields = (\<lambda>v. if doc_type v = JObject then Inr (doc_dedup [] (doc_map v)) else Inl doc_mismatch),
      jelems = (\<lambda>v. case v of DArr xs \<Rightarrow> Inr xs | _ \<Rightarrow> Inl doc_mismatch),
      jis_integer = (\<lambda>v. case v of DInt _ \<Rightarrow> True | _ \<Rightarrow> False),
      jas_string = (\<lambda>v. case v of DStr s \<Rightarrow> Inr s | _ \<Rightarrow> Inl doc_mismatch),
      jas_bool = (\<lambda>v. case v of DBool b \<Rightarrow> Inr b | _ \<Rightarrow> Inl doc_mismatch),
      jas_integer = (\<lambda>v. case v of DInt i \<Rightarrow> Inr (word_of_int i)
                         | DReal r \<Rightarrow> Inr (word_of_int \<lfloor>r\<rfloor>) | _ \<Rightarrow> Inl doc_mismatch),
      jto_int64 = (\<lambda>v. case v of DInt i \<Rightarrow> Inr (word_of_int i)
                       | DReal r \<Rightarrow> Inr (word_of_int \<lfloor>r\<rfloor>) | _ \<Rightarrow> Inl doc_mismatch),
      jas_double = (\<lambda>v. case v of DInt i \<Rightarrow> Inr (of_int i) | DReal r \<Rightarrow> Inr r | _ \<Rightarrow> Inl doc_mismatch),
      jnull = DNull,
      jobject = DObj [],
      jarray = DArr [],
      jstring = DStr,
      jbool = DBool,
      jint = (\<lambda>i. DInt (sint i)),
      jint64 = (\<lambda>l. DInt (sint l)),
      jdouble = DReal,
      jset = (\<lambda>v n x. DObj (doc_upd n x (doc_map v))),
      jset_index = (\<lambda>v i x. case v of DArr xs \<Rightarrow>
                       DArr (if i < length xs then xs[i := x]
                             else xs @ replicate (i - length xs) DNull @ [x]) | _ \<Rightarrow> v),
      jerase = (\<lambda>v n. if map_of (doc_map v) n = None then Inl ''Key not found''
                      else Inr (DObj (filter (\<lambda>kx. fst kx \<noteq> n) (doc_map v)))) \<rparr>"

lemma map_of_doc_upd: "map_of (doc_upd k x kvs) j = (if j = k then Some x else map_of kvs j)"
  by (induction k x kvs rule: doc_upd.induct) auto

lemma doc_map_type: "map_of (doc_map v) n = Some x \<Longrightarrow> doc_type v = JObject"
  by (cases v) auto

lemma doc_dedup_spec:
  "distinct (map fst (doc_dedup seen kvs)) \<and> fst ` set (doc_dedup seen kvs) \<inter> set seen = {} \<and>
   (\<forall>k x. (k, x) \<in> set (doc_dedup seen kvs) \<longleftrightarrow> k \<notin> set seen \<and> map_of kvs k = Some x)"
proof (induction seen kvs rule: doc_dedup.induct)
  case (1 seen)
  then show ?case by simp
next
  case (2 seen k x kvs)
  then show ?case by (auto simp: image_iff)
qed

lemma map_of_filter_ne: "map_of (filter (\<lambda>kx. fst kx \<noteq> n) kvs) m = (if m = n then None else map_of kvs m)"
  by (induction kvs) auto

interpretation doc: json_api doc_lib
proof
  fix v :: doc and n
  assume "jtype doc_lib v = JObject"
  then show "\<exists>fs. jfields doc_lib v = Inr fs \<and> distinct (map fst fs) \<and>
       (\<forall>k x. (k, x) \<in> set fs \<longleftrightarrow> jat doc_lib v k = Inr x)"
    using doc_dedup_spec [of "[]" "doc_map v"] by (auto simp: doc_lib_def split: option.splits)
next
  fix v :: doc and n
  show "jtype doc_lib v = JArray \<longleftrightarrow> (\<exists>xs. jelems doc_lib v = Inr xs)"
    by (cases v) (simp_all add: doc_lib_def)
next
  fix v :: doc and xs and x
  assume "jelems doc_lib v = Inr xs"
  then show "jelems doc_lib (jset_index doc_lib v (length xs) x) = Inr (xs @ [x])"
    by (cases v) (simp_all add: doc_lib_def)
next
  fix v :: doc and xs and i and x
  assume "jelems doc_lib v = Inr xs" "i < length xs"
  then show "jelems doc_lib (jset_index doc_lib v i x) = Inr (xs[i := x])"
    by (cases v) (simp_all add: doc_lib_def)
qed (auto simp: doc_lib_def map_of_doc_upd map_of_filter_ne doc_mismatch_def
       split: doc.splits option.splits dest: doc_map_type)

end
