(* ===== verification/Dto_Json.thy ===== *)
theory Dto_Json
  imports Dto_Types Json_Lib
begin

text \<open>
  The JSON readers and writers of \<open>daemon/dto.cpp\<close>, over the JSON library parameter \<open>J\<close>. A reader
  gives the value or the text of the exception it throws. Members are read in the order of the
  source, so that of two bad members the first one is reported. The argument \<open>u\<close> of a stream
  reader is the indeterminate \<open>int\<close> a stream without a \<open>redudancy\<close> member keeps in
  \<open>Redudancy::port\<close>, by the path of the stream.
\<close>

section \<open>Members\<close>

definition field_path :: "string \<Rightarrow> string \<Rightarrow> string" where
  "field_path base name = (if base = [] then name else base @ ''.'' @ name)"

definition index_path :: "string \<Rightarrow> nat \<Rightarrow> string" where
  "index_path base index = base @ ''['' @ nat_to_string index @ '']''"

definition invalid_field_error :: "string \<Rightarrow> string \<Rightarrow> string \<Rightarrow> exc" where
  "invalid_field_error path expected detail =
     ''invalid JSON field '' @ [CHR 0x27] @ path @ [CHR 0x27] @ '': expected '' @ expected @ '': '' @ detail"

definition require_field :: "('v, 'x) json_lib_scheme \<Rightarrow> 'v \<Rightarrow> string \<Rightarrow> exc + unit" where
  "require_field J ob name =
     (if \<not> jis_object J ob \<or> \<not> jhas_field J ob name
      then Inl (''missing required field: '' @ name) else Inr ())"

definition require_object_value :: "('v, 'x) json_lib_scheme \<Rightarrow> 'v \<Rightarrow> string \<Rightarrow> exc + 'v" where
  "require_object_value J ob path =
     (if \<not> jis_object J ob then Inl (invalid_field_error path ''object'' ''not an object'') else Inr ob)"

definition require_array_field :: "('v, 'x) json_lib_scheme \<Rightarrow> 'v \<Rightarrow> string \<Rightarrow> string \<Rightarrow> exc + 'v" where
  "require_array_field J ob name path_base =
     rbind (require_field J ob name) (\<lambda>_.
     rbind (jat J ob name) (\<lambda>v.
     if \<not> jis_array J v
     then Inl (invalid_field_error (field_path path_base name) ''array'' ''not an array'')
     else Inr v))"

text \<open>The common shape of the \<open>get_..._or\<close> functions: absent and null members give the fallback.\<close>

definition get_or ::
    "('v, 'x) json_lib_scheme \<Rightarrow> (string \<Rightarrow> 'v \<Rightarrow> exc + 'a) \<Rightarrow> 'v \<Rightarrow> string \<Rightarrow> 'a \<Rightarrow> string \<Rightarrow> exc + 'a" where
  "get_or J read ob name fallback path_base =
     (if \<not> jis_object J ob \<or> \<not> jhas_field J ob name then Inr fallback
      else rbind (jat J ob name) (\<lambda>v.
        if jis_null J v then Inr fallback else read (field_path path_base name) v))"

definition get_string_or :: "('v, 'x) json_lib_scheme \<Rightarrow> 'v \<Rightarrow> string \<Rightarrow> string \<Rightarrow> string \<Rightarrow> exc + string" where
  "get_string_or J = get_or J (\<lambda>path v. rethrow (invalid_field_error path ''string'') (jas_string J v))"

definition get_bool_or :: "('v, 'x) json_lib_scheme \<Rightarrow> 'v \<Rightarrow> string \<Rightarrow> bool \<Rightarrow> string \<Rightarrow> exc + bool" where
  "get_bool_or J = get_or J (\<lambda>path raw. rethrow (invalid_field_error path ''boolean'')
     (if jis_boolean J raw then jas_bool J raw
      else if jis_integer J raw then rbind (jas_integer J raw) (\<lambda>i. Inr (0 \<noteq> i))
      else jas_bool J raw))"

definition get_int_or :: "('v, 'x) json_lib_scheme \<Rightarrow> 'v \<Rightarrow> string \<Rightarrow> int32 \<Rightarrow> string \<Rightarrow> exc + int32" where
  "get_int_or J = get_or J (\<lambda>path v. rethrow (invalid_field_error path ''integer'') (jas_integer J v))"

definition get_int64_or :: "('v, 'x) json_lib_scheme \<Rightarrow> 'v \<Rightarrow> string \<Rightarrow> int64 \<Rightarrow> string \<Rightarrow> exc + int64" where
  "get_int64_or J = get_or J (\<lambda>path v. rethrow (invalid_field_error path ''integer'') (jto_int64 J v))"

definition get_double_or :: "('v, 'x) json_lib_scheme \<Rightarrow> 'v \<Rightarrow> string \<Rightarrow> rat \<Rightarrow> string \<Rightarrow> exc + rat" where
  "get_double_or J = get_or J (\<lambda>path v. rethrow (invalid_field_error path ''number'') (jas_double J v))"

definition string_vector_from_json ::
    "('v, 'x) json_lib_scheme \<Rightarrow> 'v \<Rightarrow> string \<Rightarrow> string \<Rightarrow> exc + string list" where
  "string_vector_from_json J ob name path_base =
     get_or J (\<lambda>path v.
       if \<not> jis_array J v then Inl (invalid_field_error path ''array'' ''not an array'')
       else rbind (jelems J v) (\<lambda>items.
         rfold_index (\<lambda>index item acc.
           if jis_null J item then Inr acc
           else rbind (rethrow (invalid_field_error (index_path path index) ''string'') (jas_string J item))
                  (\<lambda>s. Inr (acc @ [s]))) 0 items []))
       ob name [] path_base"

definition string_vector_to_json :: "('v, 'x) json_lib_scheme \<Rightarrow> string list \<Rightarrow> 'v" where
  "string_vector_to_json J items = jarray_of J (map (jstring J) items)"

section \<open>The PTP clock and the devices\<close>

definition ptp_entry_from_json ::
    "('v, 'x) json_lib_scheme \<Rightarrow> 'v \<Rightarrow> string \<Rightarrow> exc + ptp_entry" where
  "ptp_entry_from_json J ob path =
     rbind (get_int_or J ob ''clock_accuracy'' 0 path) (\<lambda>clock_accuracy'.
     rbind (get_int_or J ob ''clock_class'' 0 path) (\<lambda>clock_class'.
     rbind (get_string_or J ob ''grandmaster_identity'' [] path) (\<lambda>grandmaster_identity'.
     rbind (get_int_or J ob ''grandmaster_priority1'' 0 path) (\<lambda>grandmaster_priority1'.
     rbind (get_int_or J ob ''grandmaster_priority2'' 0 path) (\<lambda>grandmaster_priority2'.
     rbind (get_bool_or J ob ''is_active'' False path) (\<lambda>is_active'.
     rbind (get_bool_or J ob ''is_connected'' False path) (\<lambda>is_connected'.
     rbind (get_bool_or J ob ''is_locked'' False path) (\<lambda>is_locked'.
     rbind (get_bool_or J ob ''master_initialized'' False path) (\<lambda>master_initialized'.
     rbind (get_string_or J ob ''master_port_id'' [] path) (\<lambda>master_port_id'.
     rbind (get_int_or J ob ''master_utc_offset'' 0 path) (\<lambda>master_utc_offset'.
     rbind (get_double_or J ob ''offset'' 0 path) (\<lambda>offset'.
     rbind (get_int_or J ob ''offset_scaled_log_variance'' 0 path) (\<lambda>offset_scaled_log_variance'.
     rbind (get_int_or J ob ''t1_domain_number'' 127 path) (\<lambda>t1_domain_number'.
     Inr \<lparr> pe_clock_accuracy = clock_accuracy',
           pe_clock_class = clock_class',
           pe_grandmaster_identity = grandmaster_identity',
           pe_grandmaster_priority1 = grandmaster_priority1',
           pe_grandmaster_priority2 = grandmaster_priority2',
           pe_is_active = is_active',
           pe_is_connected = is_connected',
           pe_is_locked = is_locked',
           pe_master_initialized = master_initialized',
           pe_master_port_id = master_port_id',
           pe_master_utc_offset = master_utc_offset',
           pe_offset = offset',
           pe_offset_scaled_log_variance = offset_scaled_log_variance',
           pe_t1_domain_number = t1_domain_number' \<rparr>))))))))))))))"

definition ptp_entry_to_json :: "('v, 'x) json_lib_scheme \<Rightarrow> ptp_entry \<Rightarrow> 'v" where
  "ptp_entry_to_json J e =
     jbuild J
      ([(''clock_accuracy'', jint J (pe_clock_accuracy e)),
        (''clock_class'', jint J (pe_clock_class e)),
        (''grandmaster_identity'', jstring J (pe_grandmaster_identity e)),
        (''grandmaster_priority1'', jint J (pe_grandmaster_priority1 e)),
        (''grandmaster_priority2'', jint J (pe_grandmaster_priority2 e)),
        (''is_active'', jbool J (pe_is_active e)),
        (''is_connected'', jbool J (pe_is_connected e)),
        (''is_locked'', jbool J (pe_is_locked e)),
        (''master_initialized'', jbool J (pe_master_initialized e)),
        (''master_port_id'', jstring J (pe_master_port_id e)),
        (''master_utc_offset'', jint J (pe_master_utc_offset e)),
        (''offset'', jdouble J (pe_offset e)),
        (''offset_scaled_log_variance'', jint J (pe_offset_scaled_log_variance e)),
        (''t1_domain_number'', jint J (pe_t1_domain_number e))])"

text \<open>The loop over the entries of a clock: values that are not objects are skipped.\<close>

definition ptp_entries_loop ::
    "('v, 'x) json_lib_scheme \<Rightarrow> string \<Rightarrow> 'v list \<Rightarrow> exc + ptp_entry list" where
  "ptp_entries_loop J path items =
     rfold_index (\<lambda>index item entries.
       if jis_object J item
       then rbind (ptp_entry_from_json J item (index_path path index)) (\<lambda>e. Inr (entries @ [e]))
       else Inr entries) 0 items []"

definition ptp_entries_from_json ::
    "('v, 'x) json_lib_scheme \<Rightarrow> 'v \<Rightarrow> string \<Rightarrow> exc + ptp_entry list" where
  "ptp_entries_from_json J v path =
     (if jis_array J v then rbind (jelems J v) (ptp_entries_loop J path)
      else
        rbind (if jis_object J v \<and> jhas_field J v ''entries'' then rbind (jat J v ''entries'') (\<lambda>es. Inr (Some es))
               else Inr None) (\<lambda>es.
        case (case es of Some w \<Rightarrow> if jis_array J w then Some w else None | None \<Rightarrow> None) of
          Some w \<Rightarrow> rbind (jelems J w) (ptp_entries_loop J (field_path path ''entries''))
        | None \<Rightarrow>
            if jis_object J v then
              rbind (get_string_or J v ''gmid'' [] path) (\<lambda>gmid.
              if gmid \<noteq> [] \<or> jhas_field J v ''locked'' then
                rbind (get_bool_or J v ''locked'' False path) (\<lambda>locked.
                Inr [ptp_entry_default\<lparr> pe_grandmaster_identity := gmid, pe_is_locked := locked,
                       pe_is_active := True, pe_is_connected := True, pe_master_initialized := True \<rparr>])
              else Inr [])
            else Inr []))"

text \<open>\<open>vector_to_json\<close> maps a writer over a vector; \<open>ptp_entries_to_json\<close> is the same loop.\<close>

definition vector_to_json :: "('v, 'x) json_lib_scheme \<Rightarrow> ('a \<Rightarrow> 'v) \<Rightarrow> 'a list \<Rightarrow> 'v" where
  "vector_to_json J mapper items = jarray_of J (map mapper items)"

definition ptp_entries_to_json :: "('v, 'x) json_lib_scheme \<Rightarrow> ptp_entry list \<Rightarrow> 'v" where
  "ptp_entries_to_json J entries = jarray_of J (map (ptp_entry_to_json J) entries)"

definition device_from_json ::
    "('v, 'x) json_lib_scheme \<Rightarrow> 'v \<Rightarrow> string \<Rightarrow> exc + device_dto" where
  "device_from_json J ob path =
     rbind (get_string_or J ob ''device'' [] path) (\<lambda>device'.
     rbind (get_string_or J ob ''display_name'' [] path) (\<lambda>display_name'.
     rbind (get_bool_or J ob ''enable'' False path) (\<lambda>enable'.
     rbind (get_int_or J ob ''id'' 0 path) (\<lambda>id'.
     rbind (get_string_or J ob ''sip'' [] path) (\<lambda>sip'.
     Inr \<lparr> dv_device = device',
           dv_display_name = display_name',
           dv_enable = enable',
           dv_id = id',
           dv_sip = sip' \<rparr>)))))"

definition device_to_json :: "('v, 'x) json_lib_scheme \<Rightarrow> device_dto \<Rightarrow> 'v" where
  "device_to_json J d =
     jbuild J
      ([(''device'', jstring J (dv_device d)),
        (''display_name'', jstring J (dv_display_name d)),
        (''enable'', jbool J (dv_enable d)),
        (''id'', jint J (dv_id d)),
        (''sip'', jstring J (dv_sip d))])"

section \<open>Streams\<close>

definition redudancy_from_json :: "('v, 'x) json_lib_scheme \<Rightarrow> 'v \<Rightarrow> string \<Rightarrow> exc + redudancy" where
  "redudancy_from_json J ob path =
     (if \<not> jis_object J ob then Inl (invalid_field_error path ''object'' ''not an object'')
      else
        rbind (get_bool_or J ob ''enable'' False path) (\<lambda>enable'.
        rbind (get_string_or J ob ''source_ip'' [] path) (\<lambda>source_ip'.
        rbind (get_string_or J ob ''ip'' [] path) (\<lambda>ip'.
        rbind (get_int_or J ob ''port'' 0 path) (\<lambda>port'.
        Inr \<lparr> rd_present = True, rd_enable = enable', rd_source_ip = source_ip', rd_ip = ip',
              rd_port = port' \<rparr>)))))"

definition redudancy_to_json :: "('v, 'x) json_lib_scheme \<Rightarrow> redudancy \<Rightarrow> 'v" where
  "redudancy_to_json J r =
     jbuild J
       [(''enable'', jbool J (rd_enable r)),
        (''source_ip'', jstring J (rd_source_ip r)),
        (''ip'', jstring J (rd_ip r)),
        (''port'', jint J (rd_port r))]"

text \<open>
  The statement \<open>if (object.has_field("redudancy")) ...\<close> of the six readers; \<open>otherwise\<close> is what
  the reader leaves there, or its \<open>else\<close> branch.
\<close>

definition redudancy_field ::
    "('v, 'x) json_lib_scheme \<Rightarrow> 'v \<Rightarrow> string \<Rightarrow> exc + redudancy \<Rightarrow> exc + redudancy" where
  "redudancy_field J ob path otherwise =
     (if jhas_field J ob ''redudancy''
      then rbind (jat J ob ''redudancy'') (\<lambda>v. redudancy_from_json J v (field_path path ''redudancy''))
      else otherwise)"

definition video_sender_from_json ::
    "('v, 'x) json_lib_scheme \<Rightarrow> (string \<Rightarrow> int32) \<Rightarrow> 'v \<Rightarrow> string \<Rightarrow> exc + video_sender" where
  "video_sender_from_json J u ob path =
     rbind (get_string_or J ob ''id'' [] path) (\<lambda>id'.
     rbind (get_string_or J ob ''name'' [] path) (\<lambda>name'.
     rbind (get_bool_or J ob ''enable'' False path) (\<lambda>enable'.
     rbind (get_string_or J ob ''video_format'' [] path) (\<lambda>video_format'.
     rbind (get_string_or J ob ''colorspace'' ''BT709'' path) (\<lambda>colorspace'.
     rbind (get_string_or J ob ''transfer_characteristics'' ''SDR'' path) (\<lambda>transfer_characteristics'.
     rbind (get_string_or J ob ''source_ip'' [] path) (\<lambda>source_ip'.
     rbind (get_string_or J ob ''ip'' [] path) (\<lambda>ip'.
     rbind (get_int_or J ob ''port'' 0 path) (\<lambda>port'.
     rbind (get_int_or J ob ''pg_format'' 0 path) (\<lambda>pg_format'.
     rbind (redudancy_field J ob path (Inr (redudancy_default (u path)))) (\<lambda>red'.
     Inr \<lparr> vs_id = id',
           vs_sender_id = [],
           vs_name = name',
           vs_enable = enable',
           vs_video_format = video_format',
           vs_colorspace = colorspace',
           vs_transfer_characteristics = transfer_characteristics',
           vs_source_ip = source_ip',
           vs_ip = ip',
           vs_port = port',
           vs_redudancy = red',
           vs_pg_format = pg_format' \<rparr>)))))))))))"

definition video_sender_to_json :: "('v, 'x) json_lib_scheme \<Rightarrow> video_sender \<Rightarrow> 'v" where
  "video_sender_to_json J s =
     jbuild J
      ([(''id'', jstring J (vs_id s)),
        (''sender_id'', jstring J (vs_sender_id s)),
        (''name'', jstring J (vs_name s)),
        (''enable'', jbool J (vs_enable s)),
        (''video_format'', jstring J (vs_video_format s)),
        (''colorspace'', jstring J (vs_colorspace s)),
        (''transfer_characteristics'', jstring J (vs_transfer_characteristics s)),
        (''source_ip'', jstring J (vs_source_ip s)),
        (''ip'', jstring J (vs_ip s)),
        (''port'', jint J (vs_port s))] @
       (if rd_present (vs_redudancy s) then [(''redudancy'', redudancy_to_json J (vs_redudancy s))] else []) @
       [(''pg_format'', jint J (vs_pg_format s))])"

definition audio_sender_from_json ::
    "('v, 'x) json_lib_scheme \<Rightarrow> (string \<Rightarrow> int32) \<Rightarrow> 'v \<Rightarrow> string \<Rightarrow> exc + audio_sender" where
  "audio_sender_from_json J u ob path =
     rbind (get_string_or J ob ''id'' [] path) (\<lambda>id'.
     rbind (get_string_or J ob ''name'' [] path) (\<lambda>name'.
     rbind (get_bool_or J ob ''enable'' False path) (\<lambda>enable'.
     rbind (get_int_or J ob ''channel_count'' 0 path) (\<lambda>channel_count'.
     rbind (get_int_or J ob ''bit_depth'' 0 path) (\<lambda>bit_depth'.
     rbind (get_int_or J ob ''sample_rate'' 0 path) (\<lambda>sample_rate'.
     rbind (get_string_or J ob ''source_ip'' [] path) (\<lambda>source_ip'.
     rbind (get_string_or J ob ''ip'' [] path) (\<lambda>ip'.
     rbind (get_int_or J ob ''port'' 0 path) (\<lambda>port'.
     rbind (redudancy_field J ob path (Inr (redudancy_default (u path)))) (\<lambda>red'.
     Inr \<lparr> as_id = id',
           as_sender_id = [],
           as_name = name',
           as_source_ip = source_ip',
           as_enable = enable',
           as_channel_count = channel_count',
           as_bit_depth = bit_depth',
           as_sample_rate = sample_rate',
           as_ip = ip',
           as_port = port',
           as_redudancy = red' \<rparr>))))))))))"

definition audio_sender_to_json :: "('v, 'x) json_lib_scheme \<Rightarrow> audio_sender \<Rightarrow> 'v" where
  "audio_sender_to_json J s =
     jbuild J
      ([(''id'', jstring J (as_id s)),
        (''sender_id'', jstring J (as_sender_id s)),
        (''name'', jstring J (as_name s)),
        (''enable'', jbool J (as_enable s)),
        (''channel_count'', jint J (as_channel_count s)),
        (''bit_depth'', jint J (as_bit_depth s)),
        (''sample_rate'', jint J (as_sample_rate s)),
        (''source_ip'', jstring J (as_source_ip s)),
        (''ip'', jstring J (as_ip s)),
        (''port'', jint J (as_port s))] @
       (if rd_present (as_redudancy s) then [(''redudancy'', redudancy_to_json J (as_redudancy s))] else []))"

definition ancillary_sender_from_json ::
    "('v, 'x) json_lib_scheme \<Rightarrow> (string \<Rightarrow> int32) \<Rightarrow> 'v \<Rightarrow> string \<Rightarrow> exc + ancillary_sender" where
  "ancillary_sender_from_json J u ob path =
     rbind (get_string_or J ob ''id'' [] path) (\<lambda>id'.
     rbind (get_string_or J ob ''name'' [] path) (\<lambda>name'.
     rbind (get_string_or J ob ''format'' [] path) (\<lambda>format'.
     rbind (get_bool_or J ob ''enable'' False path) (\<lambda>enable'.
     rbind (get_string_or J ob ''source_ip'' [] path) (\<lambda>source_ip'.
     rbind (get_string_or J ob ''ip'' [] path) (\<lambda>ip'.
     rbind (get_int_or J ob ''port'' 0 path) (\<lambda>port'.
     rbind (redudancy_field J ob path (Inr (redudancy_default (u path)))) (\<lambda>red'.
     Inr \<lparr> ns_id = id',
           ns_sender_id = [],
           ns_name = name',
           ns_format = format',
           ns_source_ip = source_ip',
           ns_enable = enable',
           ns_ip = ip',
           ns_port = port',
           ns_redudancy = red' \<rparr>))))))))"

definition ancillary_sender_to_json :: "('v, 'x) json_lib_scheme \<Rightarrow> ancillary_sender \<Rightarrow> 'v" where
  "ancillary_sender_to_json J s =
     jbuild J
      ([(''id'', jstring J (ns_id s)),
        (''sender_id'', jstring J (ns_sender_id s)),
        (''name'', jstring J (ns_name s)),
        (''format'', jstring J (ns_format s)),
        (''enable'', jbool J (ns_enable s)),
        (''source_ip'', jstring J (ns_source_ip s)),
        (''ip'', jstring J (ns_ip s)),
        (''port'', jint J (ns_port s))] @
       (if rd_present (ns_redudancy s) then [(''redudancy'', redudancy_to_json J (ns_redudancy s))] else []))"

definition video_receiver_caps_from_json ::
    "('v, 'x) json_lib_scheme \<Rightarrow> 'v \<Rightarrow> string \<Rightarrow> exc + video_receiver_caps" where
  "video_receiver_caps_from_json J ob path =
     (if \<not> jhas_field J ob ''caps'' then Inr \<lparr> vc_formats = [], vc_colorspaces = [], vc_transfer_characteristics = [] \<rparr>
      else rbind (jat J ob ''caps'') (\<lambda>caps.
        if \<not> jis_object J caps
        then Inr \<lparr> vc_formats = [], vc_colorspaces = [], vc_transfer_characteristics = [] \<rparr>
        else
          rbind (string_vector_from_json J caps ''formats'' (field_path path ''caps'')) (\<lambda>formats'.
          rbind (string_vector_from_json J caps ''colorspaces'' (field_path path ''caps'')) (\<lambda>colorspaces'.
          rbind (string_vector_from_json J caps ''transfer_characteristics'' (field_path path ''caps''))
            (\<lambda>transfer_characteristics'.
          Inr \<lparr> vc_formats = formats', vc_colorspaces = colorspaces',
                vc_transfer_characteristics = transfer_characteristics' \<rparr>)))))"

definition video_receiver_caps_to_json ::
    "('v, 'x) json_lib_scheme \<Rightarrow> video_receiver_caps \<Rightarrow> (string \<times> 'v) list" where
  "video_receiver_caps_to_json J c =
     (if vc_formats c \<noteq> [] \<or> vc_colorspaces c \<noteq> [] \<or> vc_transfer_characteristics c \<noteq> []
      then [(''caps'', jbuild J
              [(''formats'', string_vector_to_json J (vc_formats c)),
               (''colorspaces'', string_vector_to_json J (vc_colorspaces c)),
               (''transfer_characteristics'', string_vector_to_json J (vc_transfer_characteristics c))])]
      else [])"

definition video_receiver_from_json ::
    "('v, 'x) json_lib_scheme \<Rightarrow> (string \<Rightarrow> int32) \<Rightarrow> 'v \<Rightarrow> string \<Rightarrow> exc + video_receiver" where
  "video_receiver_from_json J u ob path =
     rbind (get_string_or J ob ''id'' [] path) (\<lambda>id'.
     rbind (get_string_or J ob ''name'' [] path) (\<lambda>name'.
     rbind (get_bool_or J ob ''enable'' False path) (\<lambda>enable'.
     rbind (get_string_or J ob ''source_ip'' [] path) (\<lambda>source_ip'.
     rbind (get_string_or J ob ''ip'' [] path) (\<lambda>ip'.
     rbind (get_int_or J ob ''port'' 0 path) (\<lambda>port'.
     rbind (redudancy_field J ob path
             (rbind (get_bool_or J ob ''redudancy_enable'' False path)
               (\<lambda>e. Inr (redudancy_default (u path)\<lparr>rd_enable := e\<rparr>)))) (\<lambda>red'.
     rbind (video_receiver_caps_from_json J ob path) (\<lambda>caps'.
     rbind (get_string_or J ob ''format'' [] path) (\<lambda>format'.
     rbind (get_string_or J ob ''colorspace'' [] path) (\<lambda>colorspace'.
     rbind (get_string_or J ob ''transfer_characteristics'' [] path) (\<lambda>transfer_characteristics'.
     Inr \<lparr> vr_id = id',
           vr_name = name',
           vr_source_ip = source_ip',
           vr_ip = ip',
           vr_port = port',
           vr_enable = enable',
           vr_redudancy = red',
           vr_caps = caps',
           vr_format = format',
           vr_colorspace = colorspace',
           vr_transfer_characteristics = transfer_characteristics' \<rparr>)))))))))))"

definition video_receiver_to_json :: "('v, 'x) json_lib_scheme \<Rightarrow> video_receiver \<Rightarrow> 'v" where
  "video_receiver_to_json J r =
     jbuild J
      ([(''id'', jstring J (vr_id r)),
        (''name'', jstring J (vr_name r)),
        (''enable'', jbool J (vr_enable r)),
        (''source_ip'', jstring J (vr_source_ip r)),
        (''ip'', jstring J (vr_ip r)),
        (''port'', jint J (vr_port r))] @
       (if rd_present (vr_redudancy r) then [(''redudancy'', redudancy_to_json J (vr_redudancy r))] else []) @
       [] @
       video_receiver_caps_to_json J (vr_caps r) @
       [(''format'', jstring J (vr_format r)),
        (''colorspace'', jstring J (vr_colorspace r)),
        (''transfer_characteristics'', jstring J (vr_transfer_characteristics r))])"

definition audio_receiver_from_json ::
    "('v, 'x) json_lib_scheme \<Rightarrow> (string \<Rightarrow> int32) \<Rightarrow> 'v \<Rightarrow> string \<Rightarrow> exc + audio_receiver" where
  "audio_receiver_from_json J u ob path =
     rbind (get_string_or J ob ''id'' [] path) (\<lambda>id'.
     rbind (get_string_or J ob ''name'' [] path) (\<lambda>name'.
     rbind (get_bool_or J ob ''enable'' False path) (\<lambda>enable'.
     rbind (get_int_or J ob ''channel_count'' 0 path) (\<lambda>channel_count'.
     rbind (get_int_or J ob ''bit_depth'' 0 path) (\<lambda>bit_depth'.
     rbind (get_int_or J ob ''sample_rate'' 0 path) (\<lambda>sample_rate'.
     rbind (get_double_or J ob ''packet_time'' 0 path) (\<lambda>packet_time'.
     rbind (get_string_or J ob ''source_ip'' [] path) (\<lambda>source_ip'.
     rbind (get_string_or J ob ''ip'' [] path) (\<lambda>ip'.
     rbind (get_int_or J ob ''port'' 0 path) (\<lambda>port'.
     rbind (redudancy_field J ob path (Inr (redudancy_default (u path)))) (\<lambda>red'.
     Inr \<lparr> ar_id = id',
           ar_name = name',
           ar_enable = enable',
           ar_channel_count = channel_count',
           ar_bit_depth = bit_depth',
           ar_sample_rate = sample_rate',
           ar_packet_time = packet_time',
           ar_ip = ip',
           ar_source_ip = source_ip',
           ar_port = port',
           ar_redudancy = red' \<rparr>)))))))))))"

definition audio_receiver_to_json :: "('v, 'x) json_lib_scheme \<Rightarrow> audio_receiver \<Rightarrow> 'v" where
  "audio_receiver_to_json J r =
     jbuild J
      ([(''id'', jstring J (ar_id r)),
        (''name'', jstring J (ar_name r)),
        (''enable'', jbool J (ar_enable r)),
        (''channel_count'', jint J (ar_channel_count r)),
        (''bit_depth'', jint J (ar_bit_depth r)),
        (''sample_rate'', jint J (ar_sample_rate r)),
        (''packet_time'', jdouble J (ar_packet_time r)),
        (''source_ip'', jstring J (ar_source_ip r)),
        (''ip'', jstring J (ar_ip r)),
        (''port'', jint J (ar_port r))] @
       (if rd_present (ar_redudancy r) then [(''redudancy'', redudancy_to_json J (ar_redudancy r))] else []))"

definition ancillary_receiver_from_json ::
    "('v, 'x) json_lib_scheme \<Rightarrow> (string \<Rightarrow> int32) \<Rightarrow> 'v \<Rightarrow> string \<Rightarrow> exc + ancillary_receiver" where
  "ancillary_receiver_from_json J u ob path =
     rbind (get_string_or J ob ''id'' [] path) (\<lambda>id'.
     rbind (get_string_or J ob ''name'' [] path) (\<lambda>name'.
     rbind (get_string_or J ob ''format'' [] path) (\<lambda>format'.
     rbind (get_bool_or J ob ''enable'' False path) (\<lambda>enable'.
     rbind (get_string_or J ob ''source_ip'' [] path) (\<lambda>source_ip'.
     rbind (get_string_or J ob ''ip'' [] path) (\<lambda>ip'.
     rbind (get_int_or J ob ''port'' 0 path) (\<lambda>port'.
     rbind (redudancy_field J ob path (Inr (redudancy_default (u path)))) (\<lambda>red'.
     Inr \<lparr> nr_id = id',
           nr_name = name',
           nr_format = format',
           nr_enable = enable',
           nr_ip = ip',
           nr_source_ip = source_ip',
           nr_port = port',
           nr_redudancy = red' \<rparr>))))))))"

definition ancillary_receiver_to_json :: "('v, 'x) json_lib_scheme \<Rightarrow> ancillary_receiver \<Rightarrow> 'v" where
  "ancillary_receiver_to_json J r =
     jbuild J
      ([(''id'', jstring J (nr_id r)),
        (''name'', jstring J (nr_name r)),
        (''format'', jstring J (nr_format r)),
        (''enable'', jbool J (nr_enable r)),
        (''source_ip'', jstring J (nr_source_ip r)),
        (''ip'', jstring J (nr_ip r)),
        (''port'', jint J (nr_port r))] @
       (if rd_present (nr_redudancy r) then [(''redudancy'', redudancy_to_json J (nr_redudancy r))] else []))"

section \<open>Snapshots\<close>

text \<open>
  The statement \<open>if (item.has_field(name)) list.push_back(from_json(require_object_value(...)))\<close>
  of the two stream loops; it gives the elements pushed.
\<close>

definition item_stream ::
    "('v, 'x) json_lib_scheme \<Rightarrow> ('v \<Rightarrow> string \<Rightarrow> exc + 's) \<Rightarrow> string \<Rightarrow> string \<Rightarrow> 'v \<Rightarrow> exc + 's list" where
  "item_stream J from_json name item_path item =
     (if jhas_field J item name then
        rbind (jat J item name) (\<lambda>v.
        rbind (require_object_value J v (field_path item_path name)) (\<lambda>ob.
        rbind (from_json ob (field_path item_path name)) (\<lambda>s. Inr [s])))
      else Inr [])"

definition snapshot_devices ::
    "('v, 'x) json_lib_scheme \<Rightarrow> 'v \<Rightarrow> exc + device_dto list" where
  "snapshot_devices J root' =
     (if \<not> jhas_field J root' ''devices'' then Inr []
      else rbind (jat J root' ''devices'') (\<lambda>raw.
        if jis_null J raw then Inr []
        else
          rbind (require_array_field J root' ''devices'' []) (\<lambda>devices.
          rbind (jelems J devices) (\<lambda>items.
          rfold_index (\<lambda>index device acc.
            if jis_object J device
            then rbind (device_from_json J device (index_path ''devices'' index)) (\<lambda>d. Inr (acc @ [d]))
            else Inr acc) 0 items []))))"

definition snapshot_sender_item ::
    "('v, 'x) json_lib_scheme \<Rightarrow> (string \<Rightarrow> int32) \<Rightarrow> nat \<Rightarrow> 'v \<Rightarrow> snapshot_dto \<Rightarrow> exc + snapshot_dto" where
  "snapshot_sender_item J u index sender snapshot =
     rbind (require_object_value J sender (index_path ''senders'' index)) (\<lambda>ob.
     rbind (item_stream J (video_sender_from_json J u) ''video'' (index_path ''senders'' index) ob) (\<lambda>vs.
     rbind (item_stream J (audio_sender_from_json J u) ''audio'' (index_path ''senders'' index) ob) (\<lambda>as.
     rbind (item_stream J (ancillary_sender_from_json J u) ''ancillary'' (index_path ''senders'' index) ob) (\<lambda>ns.
     Inr (snapshot\<lparr> sn_video_senders := sn_video_senders snapshot @ vs,
                    sn_audio_senders := sn_audio_senders snapshot @ as,
                    sn_ancillary_senders := sn_ancillary_senders snapshot @ ns \<rparr>)))))"

definition snapshot_receiver_item ::
    "('v, 'x) json_lib_scheme \<Rightarrow> (string \<Rightarrow> int32) \<Rightarrow> nat \<Rightarrow> 'v \<Rightarrow> snapshot_dto \<Rightarrow> exc + snapshot_dto" where
  "snapshot_receiver_item J u index receiver snapshot =
     rbind (require_object_value J receiver (index_path ''receivers'' index)) (\<lambda>ob.
     rbind (item_stream J (video_receiver_from_json J u) ''video'' (index_path ''receivers'' index) ob) (\<lambda>vr.
     rbind (item_stream J (audio_receiver_from_json J u) ''audio'' (index_path ''receivers'' index) ob) (\<lambda>ar.
     rbind (item_stream J (ancillary_receiver_from_json J u) ''ancillary'' (index_path ''receivers'' index) ob) (\<lambda>nr.
     Inr (snapshot\<lparr> sn_video_receivers := sn_video_receivers snapshot @ vr,
                    sn_audio_receivers := sn_audio_receivers snapshot @ ar,
                    sn_ancillary_receivers := sn_ancillary_receivers snapshot @ nr \<rparr>)))))"

definition snapshot_from_json ::
    "('v, 'x) json_lib_scheme \<Rightarrow> (string \<Rightarrow> int32) \<Rightarrow> 'v \<Rightarrow> exc + snapshot_dto" where
  "snapshot_from_json J u root' =
     rbind (require_object_value J root' ''snapshot'') (\<lambda>_.
     rbind (require_array_field J root' ''senders'' []) (\<lambda>senders.
     rbind (require_array_field J root' ''receivers'' []) (\<lambda>receivers.
     rbind (if jhas_field J root' ''ptp_clock''
            then rbind (jat J root' ''ptp_clock'') (\<lambda>v. ptp_entries_from_json J v ''ptp_clock'')
            else Inr []) (\<lambda>entries.
     rbind (snapshot_devices J root') (\<lambda>devices.
     rbind (jelems J senders) (\<lambda>sender_items.
     rbind (rfold_index (snapshot_sender_item J u) 0 sender_items
              (snapshot_default\<lparr> sn_ptp_clock := \<lparr> pc_entries = entries \<rparr>, sn_devices := devices \<rparr>)) (\<lambda>snapshot.
     rbind (jelems J receivers) (\<lambda>receiver_items.
     rfold_index (snapshot_receiver_item J u) 0 receiver_items snapshot))))))))"

definition snapshot_to_json :: "('v, 'x) json_lib_scheme \<Rightarrow> snapshot_dto \<Rightarrow> 'v" where
  "snapshot_to_json J s =
     jbuild J
       [(''ptp_clock'', ptp_entries_to_json J (pc_entries (sn_ptp_clock s))),
        (''devices'', vector_to_json J (device_to_json J) (sn_devices s)),
        (''senders'', jbuild J
           [(''video'', vector_to_json J (video_sender_to_json J) (sn_video_senders s)),
            (''audio'', vector_to_json J (audio_sender_to_json J) (sn_audio_senders s)),
            (''ancillary'', vector_to_json J (ancillary_sender_to_json J) (sn_ancillary_senders s))]),
        (''receivers'', jbuild J
           [(''video'', vector_to_json J (video_receiver_to_json J) (sn_video_receivers s)),
            (''audio'', vector_to_json J (audio_receiver_to_json J) (sn_audio_receivers s)),
            (''ancillary'', vector_to_json J (ancillary_receiver_to_json J) (sn_ancillary_receivers s))])]"

section \<open>Messages\<close>

record snapshot_changed_message =
  cm_revision :: int64
  cm_reason :: string

record sync_failed_message =
  fm_revision :: int64
  fm_message :: string

definition snapshot_changed_message_from_json ::
    "('v, 'x) json_lib_scheme \<Rightarrow> 'v \<Rightarrow> exc + snapshot_changed_message option" where
  "snapshot_changed_message_from_json J root' =
     (if \<not> jis_object J root' \<or> \<not> jhas_field J root' ''type'' then Inr None
      else
        rbind (get_string_or J root' ''type'' [] []) (\<lambda>ty.
        if ty \<noteq> ''data.changed'' then Inr None
        else
          rbind (get_int64_or J root' ''revision'' 0 []) (\<lambda>revision'.
          rbind (get_string_or J root' ''reason'' [] []) (\<lambda>reason'.
          Inr (Some \<lparr> cm_revision = revision', cm_reason = reason' \<rparr>)))))"

definition make_node_lifecycle_message :: "('v, 'x) json_lib_scheme \<Rightarrow> string \<Rightarrow> string \<Rightarrow> 'v" where
  "make_node_lifecycle_message J old_state new_state =
     jbuild J
       [(''type'', jstring J ''node.lifecycle_changed''),
        (''payload'', jbuild J
           [(''old_state'', jstring J old_state), (''new_state'', jstring J new_state)])]"

definition make_sync_failed_message :: "('v, 'x) json_lib_scheme \<Rightarrow> sync_failed_message \<Rightarrow> 'v" where
  "make_sync_failed_message J m =
     jbuild J
       [(''type'', jstring J ''sync.failed''),
        (''revision'', jint64 J (fm_revision m)),
        (''message'', jstring J (fm_message m))]"

definition make_streams_drained_message :: "('v, 'x) json_lib_scheme \<Rightarrow> 'v" where
  "make_streams_drained_message J =
     jbuild J
       [(''type'', jstring J ''streams.drained_due_to_ws_disconnect''),
        (''message'', jstring J ''WebSocket disconnected, all registered senders/receivers removed'')]"

text \<open>\<open>make_sender_message\<close> and \<open>make_receiver_message\<close> have the same body.\<close>

definition make_sender_message ::
    "('v, 'x) json_lib_scheme \<Rightarrow> string \<Rightarrow> 's \<Rightarrow> ('s \<Rightarrow> 'v) \<Rightarrow> 'v" where
  "make_sender_message J type_name sender serializer =
     jbuild J [(''type'', jstring J type_name), (''payload'', serializer sender)]"

definition make_receiver_message ::
    "('v, 'x) json_lib_scheme \<Rightarrow> string \<Rightarrow> 's \<Rightarrow> ('s \<Rightarrow> 'v) \<Rightarrow> 'v" where
  "make_receiver_message J type_name receiver serializer =
     jbuild J [(''type'', jstring J type_name), (''payload'', serializer receiver)]"

definition make_sender_video_observed_changed_message :: "('v, 'x) json_lib_scheme \<Rightarrow> video_sender \<Rightarrow> 'v" where
  "make_sender_video_observed_changed_message J sender =
     make_sender_message J ''sender.video.observed_changed'' sender (video_sender_to_json J)"

definition make_sender_audio_observed_changed_message :: "('v, 'x) json_lib_scheme \<Rightarrow> audio_sender \<Rightarrow> 'v" where
  "make_sender_audio_observed_changed_message J sender =
     make_sender_message J ''sender.audio.observed_changed'' sender (audio_sender_to_json J)"

definition make_sender_ancillary_observed_changed_message ::
    "('v, 'x) json_lib_scheme \<Rightarrow> ancillary_sender \<Rightarrow> 'v" where
  "make_sender_ancillary_observed_changed_message J sender =
     make_sender_message J ''sender.ancillary.observed_changed'' sender (ancillary_sender_to_json J)"

definition make_receiver_video_observed_changed_message ::
    "('v, 'x) json_lib_scheme \<Rightarrow> video_receiver \<Rightarrow> 'v" where
  "make_receiver_video_observed_changed_message J receiver =
     make_receiver_message J ''receiver.video.observed_changed'' receiver (video_receiver_to_json J)"

definition make_receiver_audio_observed_changed_message ::
    "('v, 'x) json_lib_scheme \<Rightarrow> audio_receiver \<Rightarrow> 'v" where
  "make_receiver_audio_observed_changed_message J receiver =
     make_receiver_message J ''receiver.audio.observed_changed'' receiver (audio_receiver_to_json J)"

definition make_receiver_ancillary_observed_changed_message ::
    "('v, 'x) json_lib_scheme \<Rightarrow> ancillary_receiver \<Rightarrow> 'v" where
  "make_receiver_ancillary_observed_changed_message J receiver =
     make_receiver_message J ''receiver.ancillary.observed_changed'' receiver (ancillary_receiver_to_json J)"

section \<open>Reading what was written\<close>

text \<open>
  The text a member of a built object is read as: the last assignment of the member decides.
  These equations evaluate a reader on a writer's result by simplification.
\<close>

text \<open>What a stream's \<open>redudancy\<close> member is read back as.\<close>

definition rd_read :: "int32 \<Rightarrow> redudancy \<Rightarrow> redudancy" where
  "rd_read port r = (if rd_present r then r else redudancy_default port)"

lemma rd_read_present: "rd_present r \<Longrightarrow> r\<lparr>rd_present := True\<rparr> = r"
  by (cases r) simp

context json_api
begin

lemma at_build_case:
  "jat J (jbuild J kvs) n = (case map_of (rev kvs) n of Some v \<Rightarrow> Inr v | None \<Rightarrow> jat J (jobject J) n)"
  by (simp add: jbuild_def at_assign)

lemma get_or_build:
  "get_or J read (jbuild J kvs) n fallback p =
     (case map_of (rev kvs) n of None \<Rightarrow> Inr fallback
      | Some v \<Rightarrow> if jis_null J v then Inr fallback else read (field_path p n) v)"
proof (cases "map_of (rev kvs) n")
  case None
  then have "n \<notin> fst ` set kvs" by (simp add: map_of_eq_None_iff)
  with None show ?thesis by (simp add: get_or_def)
next
  case (Some v)
  then have "n \<in> fst ` set kvs" by (metis map_of_eq_None_iff option.distinct(1) set_rev)
  with Some show ?thesis by (simp add: get_or_def at_build_case)
qed

lemmas read_defs = get_string_or_def get_bool_or_def get_int_or_def get_int64_or_def get_double_or_def
  string_vector_from_json_def get_or_build

lemma strings_loop:
  "rfold_index (\<lambda>index item acc.
       if jis_null J item then Inr acc
       else rbind (rethrow (err index) (jas_string J item)) (\<lambda>s. Inr (acc @ [s]))) 0
     (map (jstring J) ss) [] = Inr ss"
proof -
  have "rfold_index (\<lambda>index item acc.
       if jis_null J item then Inr acc
       else rbind (rethrow (err index) (jas_string J item)) (\<lambda>s. Inr (acc @ [s]))) i
     (map (jstring J) ss) acc = Inr (acc @ ss)" for i acc
    by (induction ss arbitrary: i acc) simp_all
  then show ?thesis by simp
qed

lemma redudancy_roundtrip [simp]:
  "redudancy_from_json J (redudancy_to_json J r) path = Inr (r\<lparr>rd_present := True\<rparr>)"
  by (cases r) (simp add: redudancy_from_json_def redudancy_to_json_def read_defs)

lemma redudancy_field_build:
  "redudancy_field J (jbuild J kvs) path otherwise =
     (case map_of (rev kvs) ''redudancy'' of None \<Rightarrow> otherwise
      | Some v \<Rightarrow> redudancy_from_json J v (field_path path ''redudancy''))"
proof (cases "map_of (rev kvs) ''redudancy''")
  case None
  then have "''redudancy'' \<notin> fst ` set kvs" by (simp add: map_of_eq_None_iff)
  with None show ?thesis by (simp add: redudancy_field_def)
next
  case (Some v)
  then have "''redudancy'' \<in> fst ` set kvs" by (metis map_of_eq_None_iff option.distinct(1) set_rev)
  with Some show ?thesis by (simp add: redudancy_field_def at_build_case)
qed

lemma video_sender_roundtrip:
  "video_sender_from_json J u (video_sender_to_json J s) path =
     Inr (s\<lparr> vs_sender_id := [], vs_redudancy := rd_read (u path) (vs_redudancy s) \<rparr>)"
  by (cases "rd_present (vs_redudancy s)")
     (simp_all add: video_sender_from_json_def video_sender_to_json_def read_defs
       redudancy_field_build rd_read_def rd_read_present)

lemma audio_sender_roundtrip:
  "audio_sender_from_json J u (audio_sender_to_json J s) path =
     Inr (s\<lparr> as_sender_id := [], as_redudancy := rd_read (u path) (as_redudancy s) \<rparr>)"
  by (cases "rd_present (as_redudancy s)")
     (simp_all add: audio_sender_from_json_def audio_sender_to_json_def read_defs
       redudancy_field_build rd_read_def rd_read_present)

lemma ancillary_sender_roundtrip:
  "ancillary_sender_from_json J u (ancillary_sender_to_json J s) path =
     Inr (s\<lparr> ns_sender_id := [], ns_redudancy := rd_read (u path) (ns_redudancy s) \<rparr>)"
  by (cases "rd_present (ns_redudancy s)")
     (simp_all add: ancillary_sender_from_json_def ancillary_sender_to_json_def read_defs
       redudancy_field_build rd_read_def rd_read_present)

lemma audio_receiver_roundtrip:
  "audio_receiver_from_json J u (audio_receiver_to_json J r) path =
     Inr (r\<lparr> ar_redudancy := rd_read (u path) (ar_redudancy r) \<rparr>)"
  by (cases "rd_present (ar_redudancy r)")
     (simp_all add: audio_receiver_from_json_def audio_receiver_to_json_def read_defs
       redudancy_field_build rd_read_def rd_read_present)

lemma ancillary_receiver_roundtrip:
  "ancillary_receiver_from_json J u (ancillary_receiver_to_json J r) path =
     Inr (r\<lparr> nr_redudancy := rd_read (u path) (nr_redudancy r) \<rparr>)"
  by (cases "rd_present (nr_redudancy r)")
     (simp_all add: ancillary_receiver_from_json_def ancillary_receiver_to_json_def read_defs
       redudancy_field_build rd_read_def rd_read_present)

lemma caps_roundtrip:
  assumes "map_of (rev kvs) ''caps'' = map_of (video_receiver_caps_to_json J c) ''caps''"
  shows "video_receiver_caps_from_json J (jbuild J kvs) path = Inr c"
proof (cases "vc_formats c \<noteq> [] \<or> vc_colorspaces c \<noteq> [] \<or> vc_transfer_characteristics c \<noteq> []")
  case True
  with assms have caps: "map_of (rev kvs) ''caps'' = Some (jbuild J
              [(''formats'', string_vector_to_json J (vc_formats c)),
               (''colorspaces'', string_vector_to_json J (vc_colorspaces c)),
               (''transfer_characteristics'', string_vector_to_json J (vc_transfer_characteristics c))])"
    by (simp add: video_receiver_caps_to_json_def)
  then have "''caps'' \<in> fst ` set kvs" by (metis map_of_eq_None_iff option.distinct(1) set_rev)
  with caps show ?thesis
    by (simp add: video_receiver_caps_from_json_def at_build_case read_defs string_vector_to_json_def
        strings_loop)
next
  case False
  with assms have "''caps'' \<notin> fst ` set kvs"
    by (metis map_of.simps(1) map_of_eq_None_iff set_rev video_receiver_caps_to_json_def)
  with False show ?thesis by (simp add: video_receiver_caps_from_json_def)
qed

lemma map_add_skip:
  "f n = None \<Longrightarrow> (f ++ g) n = g n" "g n = None \<Longrightarrow> (f ++ g) n = f n"
  by (simp_all add: map_add_def split: option.split)

lemma map_of_caps: "map_of (video_receiver_caps_to_json J c) n = None" if "n \<noteq> ''caps''"
  using that by (simp add: video_receiver_caps_to_json_def)

lemma rev_caps [simp]: "rev (video_receiver_caps_to_json J c) = video_receiver_caps_to_json J c"
  by (simp add: video_receiver_caps_to_json_def)

lemma video_receiver_roundtrip:
  "video_receiver_from_json J u (video_receiver_to_json J r) path =
     Inr (r\<lparr> vr_redudancy := rd_read (u path) (vr_redudancy r) \<rparr>)"
  by (cases "rd_present (vr_redudancy r)")
     (simp_all add: video_receiver_from_json_def video_receiver_to_json_def read_defs
       redudancy_field_build rd_read_def rd_read_present caps_roundtrip [where c = "vr_caps r"]
       map_add_skip map_of_caps redudancy_default_def)

lemma ptp_entry_roundtrip [simp]: "ptp_entry_from_json J (ptp_entry_to_json J e) path = Inr e"
  by (simp add: ptp_entry_from_json_def ptp_entry_to_json_def read_defs)

lemma device_roundtrip [simp]: "device_from_json J (device_to_json J d) path = Inr d"
  by (simp add: device_from_json_def device_to_json_def read_defs)

lemma type_ptp_entry [simp]: "jtype J (ptp_entry_to_json J e) = JObject"
  by (simp add: ptp_entry_to_json_def)

lemma ptp_entries_roundtrip: "ptp_entries_from_json J (ptp_entries_to_json J es) path = Inr es"
proof -
  have "rfold_index (\<lambda>index item entries.
       if jis_object J item
       then rbind (ptp_entry_from_json J item (index_path path index)) (\<lambda>e. Inr (entries @ [e]))
       else Inr entries) i (map (ptp_entry_to_json J) es) acc = Inr (acc @ es)" for i acc
    by (induction es arbitrary: i acc) simp_all
  then show ?thesis
    by (simp add: ptp_entries_from_json_def ptp_entries_to_json_def ptp_entries_loop_def)
qed

end

context json_api
begin

lemma written_snapshot_error:
  "snapshot_from_json J u (snapshot_to_json J s) =
     Inl (''invalid JSON field '' @ [CHR 0x27] @ ''senders'' @ [CHR 0x27] @ '': expected array: not an array'')"
  by (simp add: snapshot_from_json_def snapshot_to_json_def require_object_value_def
      require_array_field_def require_field_def at_build_case invalid_field_error_def field_path_def)

lemma changed_message_read:
  "snapshot_changed_message_from_json J
     (jbuild J [(''type'', jstring J t), (''revision'', jint64 J r), (''reason'', jstring J reason)]) =
   Inr (if t = ''data.changed'' then Some \<lparr> cm_revision = r, cm_reason = reason \<rparr> else None)"
  by (simp add: snapshot_changed_message_from_json_def read_defs)

lemma changed_message_defaults:
  "snapshot_changed_message_from_json J (jbuild J [(''type'', jstring J ''data.changed'')]) =
   Inr (Some \<lparr> cm_revision = 0, cm_reason = [] \<rparr>)"
  by (simp add: snapshot_changed_message_from_json_def read_defs)

lemma outgoing_not_changed:
  "snapshot_changed_message_from_json J (make_sync_failed_message J m) = Inr None"
  "snapshot_changed_message_from_json J (make_streams_drained_message J) = Inr None"
  "snapshot_changed_message_from_json J (make_node_lifecycle_message J old new) = Inr None"
  by (simp_all add: snapshot_changed_message_from_json_def make_sync_failed_message_def
      make_streams_drained_message_def make_node_lifecycle_message_def read_defs)

end

section \<open>What a snapshot is decoded to\<close>

text \<open>
  The specification of the stream loops: the decodings of the items that have the member, in the
  order of the array, each named by its position in the whole array.
\<close>

definition item_results ::
    "('v, 'x) json_lib_scheme \<Rightarrow> ('v \<Rightarrow> string \<Rightarrow> exc + 's) \<Rightarrow> string \<Rightarrow> string \<Rightarrow> 'v list \<Rightarrow> (exc + 's) list" where
  "item_results J from_json arr name items =
     map (\<lambda>(i, item). rbind (jat J item name)
                        (\<lambda>v. from_json v (field_path (index_path arr i) name)))
       (filter (\<lambda>(i, item). jhas_field J item name) (enumerate 0 items))"

lemma item_stream_Inr:
  assumes "item_stream J from_json name p item = Inr ys"
  shows "map Inr ys = (if jhas_field J item name
           then [rbind (jat J item name) (\<lambda>v. from_json v (field_path p name))] else [])"
  using assms by (auto simp: item_stream_def rbind_Inr_iff require_object_value_def split: if_splits)

lemma concat_filter_map:
  "concat (map (\<lambda>x. if P x then [f x] else []) xs) = map f (filter P xs)"
  by (induction xs) auto

lemma item_results_concat:
  "item_results J from_json arr name items =
     concat (map (\<lambda>(i, item). if jhas_field J item name
        then [rbind (jat J item name) (\<lambda>v. from_json v (field_path (index_path arr i) name))] else [])
       (enumerate 0 items))"
  unfolding item_results_def concat_filter_map [symmetric]
  by (intro arg_cong [where f = concat] map_cong refl) (simp split: prod.split)

lemma sender_loop_results:
  assumes "rfold_index (snapshot_sender_item J u) 0 items s0 = Inr s"
  shows "\<exists>vs as ns. sn_video_senders s = sn_video_senders s0 @ vs \<and>
           sn_audio_senders s = sn_audio_senders s0 @ as \<and>
           sn_ancillary_senders s = sn_ancillary_senders s0 @ ns \<and>
           map Inr vs = item_results J (video_sender_from_json J u) ''senders'' ''video'' items \<and>
           map Inr as = item_results J (audio_sender_from_json J u) ''senders'' ''audio'' items \<and>
           map Inr ns = item_results J (ancillary_sender_from_json J u) ''senders'' ''ancillary'' items"
proof -
  let ?g = "\<lambda>from name (i, item). if jhas_field J item name
        then [rbind (jat J item name) (\<lambda>v. from v (field_path (index_path ''senders'' i) name))] else []"
  have "\<exists>ys. sn_video_senders s = sn_video_senders s0 @ ys \<and>
      map Inr ys = concat (map (?g (video_sender_from_json J u) ''video'') (enumerate 0 items))"
    by (rule rfold_index_project [OF _ assms])
       (auto simp: snapshot_sender_item_def rbind_Inr_iff require_object_value_def
         dest: item_stream_Inr split: if_splits)
  moreover have "\<exists>ys. sn_audio_senders s = sn_audio_senders s0 @ ys \<and>
      map Inr ys = concat (map (?g (audio_sender_from_json J u) ''audio'') (enumerate 0 items))"
    by (rule rfold_index_project [OF _ assms])
       (auto simp: snapshot_sender_item_def rbind_Inr_iff require_object_value_def
         dest: item_stream_Inr split: if_splits)
  moreover have "\<exists>ys. sn_ancillary_senders s = sn_ancillary_senders s0 @ ys \<and>
      map Inr ys = concat (map (?g (ancillary_sender_from_json J u) ''ancillary'') (enumerate 0 items))"
    by (rule rfold_index_project [OF _ assms])
       (auto simp: snapshot_sender_item_def rbind_Inr_iff require_object_value_def
         dest: item_stream_Inr split: if_splits)
  ultimately show ?thesis unfolding item_results_concat by blast
qed

lemma receiver_loop_results:
  assumes "rfold_index (snapshot_receiver_item J u) 0 items s0 = Inr s"
  shows "\<exists>vr ar nr. sn_video_receivers s = sn_video_receivers s0 @ vr \<and>
           sn_audio_receivers s = sn_audio_receivers s0 @ ar \<and>
           sn_ancillary_receivers s = sn_ancillary_receivers s0 @ nr \<and>
           map Inr vr = item_results J (video_receiver_from_json J u) ''receivers'' ''video'' items \<and>
           map Inr ar = item_results J (audio_receiver_from_json J u) ''receivers'' ''audio'' items \<and>
           map Inr nr = item_results J (ancillary_receiver_from_json J u) ''receivers'' ''ancillary'' items"
proof -
  let ?g = "\<lambda>from name (i, item). if jhas_field J item name
        then [rbind (jat J item name) (\<lambda>v. from v (field_path (index_path ''receivers'' i) name))] else []"
  have "\<exists>ys. sn_video_receivers s = sn_video_receivers s0 @ ys \<and>
      map Inr ys = concat (map (?g (video_receiver_from_json J u) ''video'') (enumerate 0 items))"
    by (rule rfold_index_project [OF _ assms])
       (auto simp: snapshot_receiver_item_def rbind_Inr_iff require_object_value_def
         dest: item_stream_Inr split: if_splits)
  moreover have "\<exists>ys. sn_audio_receivers s = sn_audio_receivers s0 @ ys \<and>
      map Inr ys = concat (map (?g (audio_receiver_from_json J u) ''audio'') (enumerate 0 items))"
    by (rule rfold_index_project [OF _ assms])
       (auto simp: snapshot_receiver_item_def rbind_Inr_iff require_object_value_def
         dest: item_stream_Inr split: if_splits)
  moreover have "\<exists>ys. sn_ancillary_receivers s = sn_ancillary_receivers s0 @ ys \<and>
      map Inr ys = concat (map (?g (ancillary_receiver_from_json J u) ''ancillary'') (enumerate 0 items))"
    by (rule rfold_index_project [OF _ assms])
       (auto simp: snapshot_receiver_item_def rbind_Inr_iff require_object_value_def
         dest: item_stream_Inr split: if_splits)
  ultimately show ?thesis unfolding item_results_concat by blast
qed

lemma sender_loop_frame:
  assumes "rfold_index (snapshot_sender_item J u) 0 items s0 = Inr s"
  shows "sn_ptp_clock s = sn_ptp_clock s0 \<and> sn_devices s = sn_devices s0 \<and>
         sn_video_receivers s = sn_video_receivers s0 \<and> sn_audio_receivers s = sn_audio_receivers s0 \<and>
         sn_ancillary_receivers s = sn_ancillary_receivers s0 \<and> list_all (jis_object J) items"
proof -
  have "(sn_ptp_clock s, sn_devices s, sn_video_receivers s, sn_audio_receivers s, sn_ancillary_receivers s)
      = (sn_ptp_clock s0, sn_devices s0, sn_video_receivers s0, sn_audio_receivers s0,
         sn_ancillary_receivers s0)"
    by (rule rfold_index_frame [OF _ assms]) (auto simp: snapshot_sender_item_def rbind_Inr_iff)
  moreover have "list_all (jis_object J) items"
    by (rule rfold_index_all [OF _ assms])
       (auto simp: snapshot_sender_item_def rbind_Inr_iff require_object_value_def split: if_splits)
  ultimately show ?thesis by simp
qed

lemma receiver_loop_frame:
  assumes "rfold_index (snapshot_receiver_item J u) 0 items s0 = Inr s"
  shows "sn_ptp_clock s = sn_ptp_clock s0 \<and> sn_devices s = sn_devices s0 \<and>
         sn_video_senders s = sn_video_senders s0 \<and> sn_audio_senders s = sn_audio_senders s0 \<and>
         sn_ancillary_senders s = sn_ancillary_senders s0 \<and> list_all (jis_object J) items"
proof -
  have "(sn_ptp_clock s, sn_devices s, sn_video_senders s, sn_audio_senders s, sn_ancillary_senders s)
      = (sn_ptp_clock s0, sn_devices s0, sn_video_senders s0, sn_audio_senders s0,
         sn_ancillary_senders s0)"
    by (rule rfold_index_frame [OF _ assms]) (auto simp: snapshot_receiver_item_def rbind_Inr_iff)
  moreover have "list_all (jis_object J) items"
    by (rule rfold_index_all [OF _ assms])
       (auto simp: snapshot_receiver_item_def rbind_Inr_iff require_object_value_def split: if_splits)
  ultimately show ?thesis by simp
qed

section \<open>Properties\<close>

text \<open>
  C3. A sender written to JSON is read back as the same stream: only \<open>sender_id\<close> is dropped, and a
  redundancy leg that is not present is read as the default one.
\<close>
theorem sender_json_roundtrip:
  assumes "json_api J"
  shows "video_sender_from_json J u (video_sender_to_json J v) path =
           Inr (v\<lparr> vs_sender_id := [], vs_redudancy := rd_read (u path) (vs_redudancy v) \<rparr>) \<and>
         audio_sender_from_json J u (audio_sender_to_json J a) path =
           Inr (a\<lparr> as_sender_id := [], as_redudancy := rd_read (u path) (as_redudancy a) \<rparr>) \<and>
         ancillary_sender_from_json J u (ancillary_sender_to_json J n) path =
           Inr (n\<lparr> ns_sender_id := [], ns_redudancy := rd_read (u path) (ns_redudancy n) \<rparr>)"
  using json_api.video_sender_roundtrip [OF assms] json_api.audio_sender_roundtrip [OF assms]
    json_api.ancillary_sender_roundtrip [OF assms] by blast

definition sample_redudancy :: redudancy where
  "sample_redudancy =
     \<lparr> rd_present = True, rd_enable = True, rd_source_ip = ''10.0.1.2'', rd_ip = ''239.0.1.1'', rd_port = 5004 \<rparr>"

definition sample_audio_sender :: audio_sender where
  "sample_audio_sender =
     \<lparr> as_id = ''a1'', as_sender_id = ''uuid'', as_name = ''mic'', as_source_ip = ''10.0.0.2'', as_enable = True,
       as_channel_count = 2, as_bit_depth = 24, as_sample_rate = 48000, as_ip = ''239.0.0.1'',
       as_port = 5004, as_redudancy = sample_redudancy \<rparr>"

theorem sender_json_roundtrip_witness:
  "audio_sender_from_json doc_lib (\<lambda>_. 7) (audio_sender_to_json doc_lib sample_audio_sender) ''senders[0].audio'' =
     Inr (sample_audio_sender\<lparr> as_sender_id := [] \<rparr>)"
  using sender_json_roundtrip [OF doc.json_api_axioms, of "\<lambda>_. 7" undefined "''senders[0].audio''"
      sample_audio_sender undefined]
  by (simp add: rd_read_def sample_audio_sender_def sample_redudancy_def)

text \<open>
  C4. A receiver written to JSON is read back unchanged, its capability lists included, up to a
  redundancy leg that is not present.
\<close>
theorem receiver_json_roundtrip:
  assumes "json_api J"
  shows "video_receiver_from_json J u (video_receiver_to_json J v) path =
           Inr (v\<lparr> vr_redudancy := rd_read (u path) (vr_redudancy v) \<rparr>) \<and>
         audio_receiver_from_json J u (audio_receiver_to_json J a) path =
           Inr (a\<lparr> ar_redudancy := rd_read (u path) (ar_redudancy a) \<rparr>) \<and>
         ancillary_receiver_from_json J u (ancillary_receiver_to_json J n) path =
           Inr (n\<lparr> nr_redudancy := rd_read (u path) (nr_redudancy n) \<rparr>)"
  using json_api.video_receiver_roundtrip [OF assms] json_api.audio_receiver_roundtrip [OF assms]
    json_api.ancillary_receiver_roundtrip [OF assms] by blast

definition sample_video_receiver :: video_receiver where
  "sample_video_receiver =
     \<lparr> vr_id = ''r1'', vr_name = ''monitor'', vr_source_ip = [], vr_ip = ''239.0.0.1'', vr_port = 5004,
       vr_enable = False, vr_redudancy = sample_redudancy,
       vr_caps = \<lparr> vc_formats = [''1080p5000'', ''1080p2500''], vc_colorspaces = [], vc_transfer_characteristics = [''SDR''] \<rparr>,
       vr_format = [], vr_colorspace = [], vr_transfer_characteristics = [] \<rparr>"

theorem receiver_json_roundtrip_witness:
  "video_receiver_from_json doc_lib (\<lambda>_. 7) (video_receiver_to_json doc_lib sample_video_receiver)
     ''receivers[0].video'' = Inr sample_video_receiver"
  using receiver_json_roundtrip [OF doc.json_api_axioms, of "\<lambda>_. 7" sample_video_receiver
      "''receivers[0].video''" undefined undefined]
  by (simp add: rd_read_def sample_video_receiver_def sample_redudancy_def)

text \<open>
  C5. A decoded snapshot holds exactly the streams of the document: \<open>senders\<close> and \<open>receivers\<close>
  are arrays of objects, and each of the six lists is the decoding of the items with that
  member, none dropped, none added, in the order of the array.
\<close>
theorem snapshot_decodes_every_stream:
  assumes "snapshot_from_json J u root' = Inr s"
  shows "\<exists>sv rv senders receivers.
      jat J root' ''senders'' = Inr sv \<and> jelems J sv = Inr senders \<and> list_all (jis_object J) senders \<and>
      jat J root' ''receivers'' = Inr rv \<and> jelems J rv = Inr receivers \<and> list_all (jis_object J) receivers \<and>
      map Inr (sn_video_senders s) = item_results J (video_sender_from_json J u) ''senders'' ''video'' senders \<and>
      map Inr (sn_audio_senders s) = item_results J (audio_sender_from_json J u) ''senders'' ''audio'' senders \<and>
      map Inr (sn_ancillary_senders s) =
        item_results J (ancillary_sender_from_json J u) ''senders'' ''ancillary'' senders \<and>
      map Inr (sn_video_receivers s) =
        item_results J (video_receiver_from_json J u) ''receivers'' ''video'' receivers \<and>
      map Inr (sn_audio_receivers s) =
        item_results J (audio_receiver_from_json J u) ''receivers'' ''audio'' receivers \<and>
      map Inr (sn_ancillary_receivers s) =
        item_results J (ancillary_receiver_from_json J u) ''receivers'' ''ancillary'' receivers"
proof -
  from assms obtain sv rv senders receivers es ds t
    where sv: "require_array_field J root' ''senders'' [] = Inr sv" "jelems J sv = Inr senders"
      and rv: "require_array_field J root' ''receivers'' [] = Inr rv" "jelems J rv = Inr receivers"
      and sl: "rfold_index (snapshot_sender_item J u) 0 senders
             (snapshot_default\<lparr> sn_ptp_clock := \<lparr> pc_entries = es \<rparr>, sn_devices := ds \<rparr>) = Inr t"
      and rl: "rfold_index (snapshot_receiver_item J u) 0 receivers t = Inr s"
    by (auto simp: snapshot_from_json_def rbind_Inr_iff)
  have at: "jat J root' ''senders'' = Inr sv" "jat J root' ''receivers'' = Inr rv"
    using sv(1) rv(1) by (auto simp: require_array_field_def rbind_Inr_iff split: if_splits)
  show ?thesis
    using sender_loop_results [OF sl] sender_loop_frame [OF sl] receiver_loop_results [OF rl]
      receiver_loop_frame [OF rl]
    by (intro exI [of _ sv] exI [of _ rv] exI [of _ senders] exI [of _ receivers])
       (auto simp: at sv rv snapshot_default_def)
qed

definition sample_snapshot_doc :: doc where
  "sample_snapshot_doc =
     DObj [(''senders'', DArr [DObj [(''audio'', DObj [(''id'', DStr ''a1'')])], DObj []]), (''receivers'', DArr [])]"

theorem snapshot_decodes_every_stream_witness:
  "\<exists>s. snapshot_from_json doc_lib (\<lambda>_. 7) sample_snapshot_doc = Inr s \<and>
       map Inr (sn_audio_senders s) =
         item_results doc_lib (audio_sender_from_json doc_lib (\<lambda>_. 7)) ''senders'' ''audio''
           [DObj [(''audio'', DObj [(''id'', DStr ''a1'')])], DObj []]"
proof -
  have "\<exists>s. snapshot_from_json doc_lib (\<lambda>_. 7) sample_snapshot_doc = Inr s"
    by (simp add: sample_snapshot_doc_def doc_lib_def snapshot_from_json_def require_object_value_def
        require_array_field_def require_field_def snapshot_devices_def snapshot_sender_item_def
        item_stream_def audio_sender_from_json_def get_string_or_def get_bool_or_def get_int_or_def
        get_or_def redudancy_field_def)
  then obtain s where s: "snapshot_from_json doc_lib (\<lambda>_. 7) sample_snapshot_doc = Inr s" by blast
  from snapshot_decodes_every_stream [OF this] have "map Inr (sn_audio_senders s) =
         item_results doc_lib (audio_sender_from_json doc_lib (\<lambda>_. 7)) ''senders'' ''audio''
           [DObj [(''audio'', DObj [(''id'', DStr ''a1'')])], DObj []]"
    by (auto simp: sample_snapshot_doc_def doc_lib_def)
  with s show ?thesis by blast
qed

text \<open>
  The two snapshot functions are not inverse: what \<open>snapshot_to_json\<close> writes is refused by
  \<open>snapshot_from_json\<close>, whatever the snapshot, because the streams are grouped by type in an
  object where the reader wants an array.
\<close>
theorem written_snapshot_is_refused:
  assumes "json_api J"
  shows "snapshot_from_json J u (snapshot_to_json J s) =
           Inl (''invalid JSON field '' @ [CHR 0x27] @ ''senders'' @ [CHR 0x27] @ '': expected array: not an array'')"
  by (rule json_api.written_snapshot_error [OF assms])

theorem written_snapshot_is_refused_witness:
  "snapshot_from_json doc_lib (\<lambda>_. 0) (snapshot_to_json doc_lib snapshot_default) =
     Inl (''invalid JSON field '' @ [CHR 0x27] @ ''senders'' @ [CHR 0x27] @ '': expected array: not an array'')"
  by (rule written_snapshot_is_refused [OF doc.json_api_axioms])

text \<open>
  The change notification: exactly the type \<open>data.changed\<close> is taken (not the
  \<open>snapshot.changed\<close> of the design document), its 64-bit revision and reason are read in full and
  default to 0 and the empty text; the daemon's own messages are ignored.
\<close>
theorem change_notification_read:
  assumes "json_api J"
  shows "snapshot_changed_message_from_json J
           (jbuild J [(''type'', jstring J t), (''revision'', jint64 J r), (''reason'', jstring J reason)]) =
         Inr (if t = ''data.changed'' then Some \<lparr> cm_revision = r, cm_reason = reason \<rparr> else None) \<and>
         snapshot_changed_message_from_json J (jbuild J [(''type'', jstring J ''data.changed'')]) =
         Inr (Some \<lparr> cm_revision = 0, cm_reason = [] \<rparr>) \<and>
         snapshot_changed_message_from_json J (make_sync_failed_message J m) = Inr None \<and>
         snapshot_changed_message_from_json J (make_streams_drained_message J) = Inr None \<and>
         snapshot_changed_message_from_json J (make_node_lifecycle_message J old new) = Inr None"
  using json_api.changed_message_read [OF assms] json_api.changed_message_defaults [OF assms]
    json_api.outgoing_not_changed [OF assms] by blast

theorem change_notification_read_witness:
  "snapshot_changed_message_from_json doc_lib
     (jbuild doc_lib [(''type'', DStr ''snapshot.changed''), (''revision'', DInt 4), (''reason'', DStr ''x'')])
   = Inr None"
  using change_notification_read [OF doc.json_api_axioms, of "''snapshot.changed''" 4 "''x''"]
  by (simp add: doc_lib_def)

end
