(* ===== verification/State_Store.thy ===== *)
theory State_Store
  imports Dto_Json
begin

text \<open>
  The status the daemon keeps about itself, \<open>daemon/state_store.{h,cpp}\<close>. Every member function
  holds \<open>mutex_\<close> for its whole body, so each one is an atomic function of the state. The two
  functions that make JSON read the parts they need under separate locks; their arguments here
  are the values those reads gave.
\<close>

section \<open>State\<close>

record registration_status =
  rg_connected :: bool
  rg_uri :: string
  rg_scheme :: string
  rg_host :: string
  rg_port :: int32
  rg_version :: string

definition registration_status_default :: registration_status where
  "registration_status_default =
     \<lparr> rg_connected = False, rg_uri = [], rg_scheme = [], rg_host = [], rg_port = 0, rg_version = [] \<rparr>"

record status_snapshot =
  st_daemon_state :: string
  st_node_state :: string
  st_last_seen_revision :: int64
  st_last_applied_revision :: int64
  st_last_sync_error :: string
  st_streams_registered :: bool
  st_protection_mode :: bool
  st_has_received_snapshot_changed :: bool

text \<open>\<open>RegistrySnapshot\<close> has the members and defaults of \<open>RegistrationStatus\<close>.\<close>

type_synonym registry_snapshot = registration_status

record state_store =
  ss_status :: status_snapshot
  ss_registry_status :: registry_snapshot
  ss_last_snapshot :: "snapshot_dto option"
  ss_pending_drain_notification :: bool

definition state_store_initial :: state_store where
  "state_store_initial =
     \<lparr> ss_status = \<lparr> st_daemon_state = ''starting'', st_node_state = ''stopped'',
                    st_last_seen_revision = 0, st_last_applied_revision = 0,
                    st_last_sync_error = [], st_streams_registered = False,
                    st_protection_mode = False, st_has_received_snapshot_changed = False \<rparr>,
       ss_registry_status = registration_status_default,
       ss_last_snapshot = None,
       ss_pending_drain_notification = False \<rparr>"

section \<open>Operations\<close>

definition set_daemon_state :: "string \<Rightarrow> state_store \<Rightarrow> state_store" where
  "set_daemon_state state s = s\<lparr> ss_status := (ss_status s)\<lparr> st_daemon_state := state \<rparr> \<rparr>"

definition store_set_node_state :: "string \<Rightarrow> state_store \<Rightarrow> state_store" where
  "store_set_node_state state s = s\<lparr> ss_status := (ss_status s)\<lparr> st_node_state := state \<rparr> \<rparr>"

definition set_last_seen_revision :: "int64 \<Rightarrow> state_store \<Rightarrow> state_store" where
  "set_last_seen_revision revision s =
     s\<lparr> ss_status := (ss_status s)\<lparr> st_last_seen_revision := revision \<rparr> \<rparr>"

definition mark_snapshot_signal_received :: "state_store \<Rightarrow> state_store" where
  "mark_snapshot_signal_received s =
     s\<lparr> ss_status := (ss_status s)\<lparr> st_has_received_snapshot_changed := True \<rparr> \<rparr>"

definition mark_sync_failed :: "string \<Rightarrow> state_store \<Rightarrow> state_store" where
  "mark_sync_failed message s = s\<lparr> ss_status := (ss_status s)\<lparr> st_last_sync_error := message \<rparr> \<rparr>"

definition mark_apply_success :: "int64 \<Rightarrow> snapshot_dto \<Rightarrow> bool \<Rightarrow> state_store \<Rightarrow> state_store" where
  "mark_apply_success applied_revision snapshot streams_registered s =
     s\<lparr> ss_status := (ss_status s)\<lparr> st_last_applied_revision := applied_revision,
                                    st_last_seen_revision := applied_revision,
                                    st_last_sync_error := [],
                                    st_streams_registered := streams_registered,
                                    st_protection_mode := False,
                                    st_has_received_snapshot_changed := True \<rparr>,
        ss_last_snapshot := Some snapshot \<rparr>"

definition mark_drained_due_to_ws_disconnect :: "state_store \<Rightarrow> state_store" where
  "mark_drained_due_to_ws_disconnect s =
     s\<lparr> ss_status := (ss_status s)\<lparr> st_streams_registered := False, st_protection_mode := True \<rparr>,
        ss_pending_drain_notification := True \<rparr>"

definition set_last_snapshot :: "snapshot_dto \<Rightarrow> state_store \<Rightarrow> state_store" where
  "set_last_snapshot snapshot s = s\<lparr> ss_last_snapshot := Some snapshot \<rparr>"

definition clear_last_snapshot :: "state_store \<Rightarrow> state_store" where
  "clear_last_snapshot s = s\<lparr> ss_last_snapshot := None \<rparr>"

definition set_registry_status :: "registration_status \<Rightarrow> state_store \<Rightarrow> state_store" where
  "set_registry_status status s =
     s\<lparr> ss_registry_status := (ss_registry_status s)
        \<lparr> rg_connected := rg_connected status, rg_uri := rg_uri status, rg_scheme := rg_scheme status,
          rg_host := rg_host status, rg_port := rg_port status, rg_version := rg_version status \<rparr> \<rparr>"

definition consume_pending_drain_notification :: "state_store \<Rightarrow> bool \<times> state_store" where
  "consume_pending_drain_notification s =
     (ss_pending_drain_notification s, s\<lparr> ss_pending_drain_notification := False \<rparr>)"

definition status_json :: "('v, 'x) json_lib_scheme \<Rightarrow> status_snapshot \<Rightarrow> registry_snapshot \<Rightarrow> 'v" where
  "status_json J snapshot registry =
     jbuild J
       [(''daemon_state'', jstring J (st_daemon_state snapshot)),
        (''node_state'', jstring J (st_node_state snapshot)),
        (''last_seen_revision'', jint64 J (st_last_seen_revision snapshot)),
        (''last_applied_revision'', jint64 J (st_last_applied_revision snapshot)),
        (''last_sync_error'', jstring J (st_last_sync_error snapshot)),
        (''streams_registered'', jbool J (st_streams_registered snapshot)),
        (''protection_mode'', jbool J (st_protection_mode snapshot)),
        (''has_received_snapshot_changed'', jbool J (st_has_received_snapshot_changed snapshot)),
        (''registry'', jbuild J
           [(''connected'', jbool J (rg_connected registry)),
            (''uri'', jstring J (rg_uri registry)),
            (''scheme'', jstring J (rg_scheme registry)),
            (''host'', jstring J (rg_host registry)),
            (''port'', jint J (rg_port registry)),
            (''version'', jstring J (rg_version registry))])]"

definition snapshot_json :: "('v, 'x) json_lib_scheme \<Rightarrow> snapshot_dto option \<Rightarrow> 'v" where
  "snapshot_json J snapshot_opt = (case snapshot_opt of None \<Rightarrow> jnull J | Some snapshot \<Rightarrow> snapshot_to_json J snapshot)"

section \<open>Histories\<close>

text \<open>The calls that change the store, and what a history of them leaves.\<close>

datatype store_op =
    SetDaemonState string
  | SetNodeState string
  | SetLastSeen int64
  | SignalReceived
  | SyncFailed string
  | ApplySuccess int64 snapshot_dto bool
  | Drained
  | SetSnapshot snapshot_dto
  | ClearSnapshot
  | SetRegistry registration_status
  | ConsumeDrain

fun store_apply :: "store_op \<Rightarrow> state_store \<Rightarrow> state_store" where
  "store_apply (SetDaemonState x) s = set_daemon_state x s"
| "store_apply (SetNodeState x) s = store_set_node_state x s"
| "store_apply (SetLastSeen r) s = set_last_seen_revision r s"
| "store_apply SignalReceived s = mark_snapshot_signal_received s"
| "store_apply (SyncFailed m) s = mark_sync_failed m s"
| "store_apply (ApplySuccess r sn b) s = mark_apply_success r sn b s"
| "store_apply Drained s = mark_drained_due_to_ws_disconnect s"
| "store_apply (SetSnapshot sn) s = set_last_snapshot sn s"
| "store_apply ClearSnapshot s = clear_last_snapshot s"
| "store_apply (SetRegistry g) s = set_registry_status g s"
| "store_apply ConsumeDrain s = snd (consume_pending_drain_notification s)"

definition store_run :: "store_op list \<Rightarrow> state_store" where
  "store_run ops = fold store_apply ops state_store_initial"

lemmas store_defs = set_daemon_state_def store_set_node_state_def set_last_seen_revision_def
  mark_snapshot_signal_received_def mark_sync_failed_def mark_apply_success_def
  mark_drained_due_to_ws_disconnect_def set_last_snapshot_def clear_last_snapshot_def
  set_registry_status_def consume_pending_drain_notification_def

lemma store_run_snoc: "store_run (ops @ [p]) = store_apply p (store_run ops)"
  by (simp add: store_run_def)

text \<open>Whether a drain has happened after the last time the notification was consumed.\<close>

definition drain_unreported :: "store_op list \<Rightarrow> bool" where
  "drain_unreported ops \<longleftrightarrow> Drained \<in> set (takeWhile (\<lambda>p. p \<noteq> ConsumeDrain) (rev ops))"

section \<open>Properties\<close>

text \<open>
  Whatever calls are made, in whatever order, the store never reports streams as registered
  while it reports protection mode, and it knows of an applied revision only after a signal.
\<close>
theorem store_modes_exclusive:
  "\<not> (st_streams_registered (ss_status (store_run ops)) \<and> st_protection_mode (ss_status (store_run ops))) \<and>
   (st_last_applied_revision (ss_status (store_run ops)) = 0 \<or>
    st_has_received_snapshot_changed (ss_status (store_run ops)))"
proof (induction ops rule: rev_induct)
  case Nil
  then show ?case by (simp add: store_run_def state_store_initial_def)
next
  case (snoc p ops)
  then show ?case unfolding store_run_snoc by (cases p) (auto simp: store_defs)
qed

text \<open>
  The drain notification is delivered exactly once: consuming it answers true precisely when
  a drain happened since it was last consumed, and nothing else affects it.
\<close>
theorem drain_notification_once:
  "fst (consume_pending_drain_notification (store_run ops)) = drain_unreported ops"
proof (induction ops rule: rev_induct)
  case Nil
  then show ?case
    by (simp add: store_run_def state_store_initial_def drain_unreported_def store_defs)
next
  case (snoc p ops)
  then show ?case unfolding store_run_snoc
    by (cases p) (auto simp: store_defs drain_unreported_def)
qed

text \<open>
  The status document carries the whole status: a reader gets back every member, 64-bit
  revisions and the nested registry object included.
\<close>
theorem status_json_readable:
  assumes "json_api J"
  shows "get_string_or J (status_json J s g) ''daemon_state'' d p = Inr (st_daemon_state s) \<and>
    get_string_or J (status_json J s g) ''node_state'' d p = Inr (st_node_state s) \<and>
    get_int64_or J (status_json J s g) ''last_seen_revision'' n p = Inr (st_last_seen_revision s) \<and>
    get_int64_or J (status_json J s g) ''last_applied_revision'' n p = Inr (st_last_applied_revision s) \<and>
    get_string_or J (status_json J s g) ''last_sync_error'' d p = Inr (st_last_sync_error s) \<and>
    get_bool_or J (status_json J s g) ''streams_registered'' b p = Inr (st_streams_registered s) \<and>
    get_bool_or J (status_json J s g) ''protection_mode'' b p = Inr (st_protection_mode s) \<and>
    get_bool_or J (status_json J s g) ''has_received_snapshot_changed'' b p
      = Inr (st_has_received_snapshot_changed s) \<and>
    rbind (jat J (status_json J s g) ''registry'') (\<lambda>r. get_string_or J r ''uri'' d p) = Inr (rg_uri g) \<and>
    rbind (jat J (status_json J s g) ''registry'') (\<lambda>r. get_bool_or J r ''connected'' b p) = Inr (rg_connected g) \<and>
    rbind (jat J (status_json J s g) ''registry'') (\<lambda>r. get_int_or J r ''port'' i p) = Inr (rg_port g)"
  by (simp add: status_json_def json_api.read_defs [OF assms] json_api.at_build_case [OF assms]
      json_api.types [OF assms] json_api.reads [OF assms])

theorem status_json_readable_witness:
  "get_int64_or doc_lib (status_json doc_lib (ss_status (store_run [SetLastSeen (- 1)])) registration_status_default)
     ''last_seen_revision'' 0 [] = Inr (- 1)"
  using status_json_readable [OF doc.json_api_axioms,
      of "ss_status (store_run [SetLastSeen (- 1)])" registration_status_default "[]" "[]" 0 False 0]
  by (simp add: store_run_def store_defs)

end
