(* ===== verification/Node_Helpers.thy ===== *)
theory Node_Helpers
  imports Video_Format Json_Lib State_Store
begin

text \<open>
  The free functions at the top of \<open>node.cpp\<close>: PTP identities, host addresses, the choice of
  network interfaces for a stream, the guess of a format name from SDP parameters, the
  registration status of a URI, and the edits of transport parameters. What the operating system
  answers (\<open>inet_pton\<close>, \<open>getifaddrs\<close>) is the record \<open>os\<close>; a \<open>web::uri\<close> is the record of its parts.
  The names of NMOS JSON members are the constants \<open>nmos::fields::...\<close> of the library nmos-cpp; the
  model uses one string for each.
\<close>

section \<open>Characters\<close>

text \<open>The \<open><cctype>\<close> functions in the C locale.\<close>

definition isspace :: "char \<Rightarrow> bool" where
  "isspace c \<longleftrightarrow> (of_char c :: nat) = 32 \<or> 9 \<le> (of_char c :: nat) \<and> (of_char c :: nat) \<le> 13"

definition isdigit :: "char \<Rightarrow> bool" where
  "isdigit c \<longleftrightarrow> 48 \<le> (of_char c :: nat) \<and> (of_char c :: nat) \<le> 57"

definition isxdigit :: "char \<Rightarrow> bool" where
  "isxdigit c \<longleftrightarrow> isdigit c \<or> 65 \<le> (of_char c :: nat) \<and> (of_char c :: nat) \<le> 70
     \<or> 97 \<le> (of_char c :: nat) \<and> (of_char c :: nat) \<le> 102"

definition tolower :: "char \<Rightarrow> char" where
  "tolower c = (if 65 \<le> (of_char c :: nat) \<and> (of_char c :: nat) \<le> 90
                then char_of ((of_char c :: nat) + 32) else c)"

section \<open>PTP grandmaster identities\<close>

text \<open>The loop of \<open>is_valid_ptp_gmid\<close> from position \<open>index\<close> on.\<close>

fun valid_ptp_gmid_from :: "nat \<Rightarrow> string \<Rightarrow> bool" where
  "valid_ptp_gmid_from index [] = True"
| "valid_ptp_gmid_from index (c # cs) =
     (if index mod 3 = 2
      then (if c \<noteq> CHR ''-'' then False else valid_ptp_gmid_from (Suc index) cs)
      else if \<not> isdigit c \<and> \<not> (97 \<le> (of_char c :: nat) \<and> (of_char c :: nat) \<le> 102) then False
      else valid_ptp_gmid_from (Suc index) cs)"

definition is_valid_ptp_gmid :: "string \<Rightarrow> bool" where
  "is_valid_ptp_gmid gmid = (if length gmid \<noteq> 23 then False else valid_ptp_gmid_from 0 gmid)"

text \<open>The loop that groups the digits in pairs, appending to \<open>normalized\<close>.\<close>

fun group_pairs :: "string \<Rightarrow> string \<Rightarrow> string" where
  "group_pairs normalized [] = normalized"
| "group_pairs normalized [a] = (if normalized \<noteq> [] then normalized @ ''-'' else normalized) @ [a]"
| "group_pairs normalized (a # b # rest) =
     group_pairs ((if normalized \<noteq> [] then normalized @ ''-'' else normalized) @ [a, b]) rest"

definition normalize_ptp_gmid :: "string \<Rightarrow> string" where
  "normalize_ptp_gmid gmid =
     (let stripped = filter (\<lambda>c. \<not> (c = CHR '':'' \<or> c = CHR ''-'' \<or> isspace c)) gmid;
          lower = map tolower stripped
      in if length lower \<noteq> 16 then []
         else if \<not> list_all isxdigit lower then []
         else group_pairs [] lower)"

section \<open>Operating system\<close>

datatype sockaddr = Sock_inet "string option" | Sock_other

record ifaddr =
  ifa_name :: "string option"
  ifa_addr :: "sockaddr option"

text \<open>
  \<open>os_getifaddrs\<close> is \<open>Inl\<close> the text of \<open>strerror\<close> when the call fails; the argument of \<open>Sock_inet\<close>
  is the result of \<open>inet_ntop\<close>.
\<close>

record os =
  os_ipv4 :: "string \<Rightarrow> bool"
  os_ipv6 :: "string \<Rightarrow> bool"
  os_getifaddrs :: "string + ifaddr list"

definition is_ipv4_literal :: "os \<Rightarrow> string \<Rightarrow> bool" where
  "is_ipv4_literal O' v = os_ipv4 O' v"

definition is_valid_ip_literal :: "os \<Rightarrow> string \<Rightarrow> bool" where
  "is_valid_ip_literal O' v = (if os_ipv4 O' v then True else os_ipv6 O' v)"

definition transport_param_with_valid_destination_ip ::
    "os \<Rightarrow> ('v, 'x) json_lib_scheme \<Rightarrow> 'v \<Rightarrow> exc + 'v" where
  "transport_param_with_valid_destination_ip O' J transport_param =
     (if \<not> jis_object J transport_param then Inr transport_param
      else if \<not> jhas_field J transport_param ''destination_ip''
      then Inr (jset J transport_param ''destination_ip'' (jstring J ''0.0.0.0''))
      else
        rbind (jat J transport_param ''destination_ip'') (\<lambda>destination_ip.
        rbind (if jis_string J destination_ip then rbind (jas_string J destination_ip) (\<lambda>s. Inr (Some s))
               else Inr None) (\<lambda>s.
        if case s of None \<Rightarrow> True | Some text' \<Rightarrow> \<not> is_valid_ip_literal O' text'
        then Inr (jset J transport_param ''destination_ip'' (jstring J ''0.0.0.0''))
        else Inr transport_param)))"

fun resolve_ifaddrs :: "string \<Rightarrow> ifaddr list \<Rightarrow> exc + string" where
  "resolve_ifaddrs interface_name [] = Inr []"
| "resolve_ifaddrs interface_name (i # rest) =
     (case (ifa_addr i, ifa_name i) of
        (Some (Sock_inet text'), Some name) \<Rightarrow>
          if interface_name \<noteq> name then resolve_ifaddrs interface_name rest
          else (case text' of
                  None \<Rightarrow> Inl (''Failed to convert IPv4 address for interfaces entry '' @ [CHR 0x27] @
                               interface_name @ [CHR 0x27])
                | Some address \<Rightarrow> Inr address)
      | _ \<Rightarrow> resolve_ifaddrs interface_name rest)"

definition resolve_interface_ipv4_address :: "os \<Rightarrow> string \<Rightarrow> exc + string" where
  "resolve_interface_ipv4_address O' interface_name =
     (case os_getifaddrs O' of
        Inl err \<Rightarrow> Inl (''Failed to enumerate network interfaces while resolving interfaces entry '' @
                        [CHR 0x27] @ interface_name @ [CHR 0x27] @ '': '' @ err)
      | Inr interfaces \<Rightarrow> resolve_ifaddrs interface_name interfaces)"

section \<open>Host addresses of the settings\<close>

definition set_host_addresses :: "('v, 'x) json_lib_scheme \<Rightarrow> 'v \<Rightarrow> string list \<Rightarrow> 'v" where
  "set_host_addresses J settings host_addresses =
     (let settings' = jset J settings ''host_addresses'' (jarray_of J (map (jstring J) host_addresses))
      in case host_addresses of [] \<Rightarrow> settings'
         | front # _ \<Rightarrow> jset J settings' ''host_address'' (jstring J front))"

definition append_unique_host_address :: "string list \<Rightarrow> string \<Rightarrow> string list" where
  "append_unique_host_address host_addresses host_address =
     (if host_address \<notin> set host_addresses then host_addresses @ [host_address] else host_addresses)"

text \<open>
  The two loops, and the result of each: \<open>Inr None\<close> when the member is not an array, where the
  function returns without changing the settings.
\<close>

fun collect_host_addresses ::
    "os \<Rightarrow> ('v, 'x) json_lib_scheme \<Rightarrow> 'v list \<Rightarrow> string list \<Rightarrow> exc + string list" where
  "collect_host_addresses O' J [] acc = Inr acc"
| "collect_host_addresses O' J (v # vs) acc =
     (if \<not> jis_string J v then Inl ''host_addresses entries must be IPv4 strings''
      else rbind (jas_string J v) (\<lambda>text'.
        if \<not> is_ipv4_literal O' text'
        then Inl (''host_addresses entry '' @ [CHR 0x27] @ text' @ [CHR 0x27] @
                  '' is not a valid IPv4 address; use interfaces for Linux interface names'')
        else collect_host_addresses O' J vs (append_unique_host_address acc text')))"

fun collect_interfaces ::
    "os \<Rightarrow> ('v, 'x) json_lib_scheme \<Rightarrow> 'v list \<Rightarrow> string list \<Rightarrow> exc + string list" where
  "collect_interfaces O' J [] acc = Inr acc"
| "collect_interfaces O' J (v # vs) acc =
     (if \<not> jis_string J v then Inl ''interfaces entries must be Linux interface names''
      else rbind (jas_string J v) (\<lambda>text'.
        rbind (resolve_interface_ipv4_address O' text') (\<lambda>resolved.
        if resolved = [] then collect_interfaces O' J vs acc
        else collect_interfaces O' J vs (append_unique_host_address acc resolved))))"

definition collect_field ::
    "('v, 'x) json_lib_scheme \<Rightarrow> 'v \<Rightarrow> string \<Rightarrow> ('v list \<Rightarrow> string list \<Rightarrow> exc + string list) \<Rightarrow>
     string list \<Rightarrow> exc + string list option" where
  "collect_field J settings name loop acc =
     (if \<not> jhas_field J settings name then Inr (Some acc)
      else rbind (jat J settings name) (\<lambda>v.
        if \<not> jis_array J v then Inr None
        else rbind (jelems J v) (\<lambda>items. rbind (loop items acc) (\<lambda>r. Inr (Some r)))))"

definition apply_interface_host_addresses ::
    "os \<Rightarrow> ('v, 'x) json_lib_scheme \<Rightarrow> 'v \<Rightarrow> exc + 'v" where
  "apply_interface_host_addresses O' J settings =
     (if \<not> jis_object J settings then Inr settings
      else
        rbind (collect_field J settings ''host_addresses'' (collect_host_addresses O' J) []) (\<lambda>r1.
        case r1 of None \<Rightarrow> Inr settings
        | Some acc1 \<Rightarrow>
            rbind (collect_field J settings ''interfaces'' (collect_interfaces O' J) acc1) (\<lambda>r2.
            case r2 of None \<Rightarrow> Inr settings
            | Some acc2 \<Rightarrow> if acc2 \<noteq> [] then Inr (set_host_addresses J settings acc2) else Inr settings)))"

section \<open>Runtime interfaces\<close>

record host_interface =
  hi_index :: uint32
  hi_name :: string
  hi_physical_address :: string
  hi_addresses :: "string list"
  hi_domain :: string

definition host_interface_default :: host_interface where
  "host_interface_default =
     \<lparr> hi_index = 0, hi_name = [], hi_physical_address = [], hi_addresses = [], hi_domain = [] \<rparr>"

record runtime_interface_leg =
  il_interface :: host_interface
  il_ip :: string
  il_selected :: bool

definition runtime_interface_leg_default :: runtime_interface_leg where
  "runtime_interface_leg_default =
     \<lparr> il_interface = host_interface_default, il_ip = [], il_selected = False \<rparr>"

record runtime_interface_selection =
  is_primary :: runtime_interface_leg
  is_redundancy :: runtime_interface_leg

definition first_interface_address :: "host_interface \<Rightarrow> string" where
  "first_interface_address i = (case hi_addresses i of [] \<Rightarrow> [] | a # _ \<Rightarrow> a)"

definition interface_has_address :: "host_interface \<Rightarrow> string \<Rightarrow> bool" where
  "interface_has_address i address \<longleftrightarrow> address \<noteq> [] \<and> list_ex (\<lambda>a. a = address) (hi_addresses i)"

definition make_runtime_interface_leg :: "host_interface \<Rightarrow> string \<Rightarrow> runtime_interface_leg" where
  "make_runtime_interface_leg i ip = \<lparr> il_interface = i, il_ip = ip, il_selected = True \<rparr>"

definition select_runtime_interface_leg :: "host_interface list \<Rightarrow> string \<Rightarrow> runtime_interface_leg" where
  "select_runtime_interface_leg interfaces configured_ip =
     (case List.find (\<lambda>i. interface_has_address i configured_ip) interfaces of
        Some i \<Rightarrow> make_runtime_interface_leg i configured_ip
      | None \<Rightarrow>
          (case List.find (\<lambda>i. hi_addresses i \<noteq> []) interfaces of
             Some i \<Rightarrow> make_runtime_interface_leg i (first_interface_address i)
           | None \<Rightarrow>
               (case interfaces of
                  i # _ \<Rightarrow> make_runtime_interface_leg i []
                | [] \<Rightarrow> runtime_interface_leg_default)))"

definition select_redundancy_runtime_interface_leg ::
    "host_interface list \<Rightarrow> string \<Rightarrow> runtime_interface_leg \<Rightarrow> runtime_interface_leg" where
  "select_redundancy_runtime_interface_leg interfaces configured_ip primary =
     (case List.find (\<lambda>i. interface_has_address i configured_ip) interfaces of
        Some i \<Rightarrow> make_runtime_interface_leg i configured_ip
      | None \<Rightarrow>
          (case List.find (\<lambda>i. hi_addresses i \<noteq> [] \<and>
                   (\<not> il_selected primary \<or> hi_name i \<noteq> hi_name (il_interface primary))) interfaces of
             Some i \<Rightarrow> make_runtime_interface_leg i (first_interface_address i)
           | None \<Rightarrow> if il_selected primary then primary
                     else select_runtime_interface_leg interfaces []))"

definition select_runtime_interfaces ::
    "host_interface list \<Rightarrow> string \<Rightarrow> string \<Rightarrow> bool \<Rightarrow> runtime_interface_selection" where
  "select_runtime_interfaces interfaces primary_source_ip redundancy_source_ip redundancy_enabled =
     (let primary = select_runtime_interface_leg interfaces primary_source_ip
      in \<lparr> is_primary = primary,
           is_redundancy =
             (if redundancy_enabled
              then select_redundancy_runtime_interface_leg interfaces redundancy_source_ip primary
              else runtime_interface_leg_default) \<rparr>)"

definition selected_interface_names :: "runtime_interface_selection \<Rightarrow> bool \<Rightarrow> string list" where
  "selected_interface_names selection redundancy_enabled =
     (if il_selected (is_primary selection) then [hi_name (il_interface (is_primary selection))] else []) @
     (if redundancy_enabled \<and> il_selected (is_redundancy selection)
      then [hi_name (il_interface (is_redundancy selection))] else [])"

definition interface_address_constraint ::
    "('v, 'x) json_lib_scheme \<Rightarrow> runtime_interface_leg \<Rightarrow> 'v" where
  "interface_address_constraint J leg =
     jbuild J [(''enum'', if il_selected leg
                          then jarray_of J (map (jstring J) (hi_addresses (il_interface leg)))
                          else jarray J)]"

definition receiver_multicast_ip_or_default :: "string \<Rightarrow> string \<Rightarrow> string" where
  "receiver_multicast_ip_or_default configured_ip fallback_ip =
     (if configured_ip = [] then fallback_ip else configured_ip)"

definition receiver_port_or_default :: "int32 \<Rightarrow> int32 \<Rightarrow> int32" where
  "receiver_port_or_default configured_port fallback_port =
     (if 0 < sint configured_port then configured_port else fallback_port)"

section \<open>Formats from SDP parameters\<close>

record video_raw_parameters =
  vp_width :: uint32
  vp_height :: uint32
  vp_exactframerate :: rat
  vp_interlace :: bool
  vp_colorimetry :: string
  vp_tcs :: string

text \<open>
  The denominator of a rational is never 0, so that test of the source only guards a value the type
  excludes.
\<close>

definition frame_rate_matches :: "video_raw_parameters \<Rightarrow> rat \<Rightarrow> video_format_desc \<Rightarrow> bool" where
  "frame_rate_matches params fps desc \<longleftrightarrow>
     vd_width desc = sint (vp_width params) \<and> vd_height desc = sint (vp_height params) \<and>
     vd_field_count desc = (if vp_interlace params then 2 else 1) \<and>
     \<bar>vd_fps desc - fps\<bar> < 2 / 100"

definition guess_video_format_name :: "video_raw_parameters \<Rightarrow> string" where
  "guess_video_format_name params =
     (if vp_width params = 0 \<or> vp_height params = 0 then []
      else (case List.find (frame_rate_matches params (vp_exactframerate params)) format_descs of
              Some desc \<Rightarrow> vd_name desc | None \<Rightarrow> []))"

section \<open>Registration status\<close>

record uri =
  ur_empty :: bool
  ur_string :: string
  ur_scheme :: string
  ur_host :: string
  ur_port :: int32
  ur_path :: string

text \<open>The text after the last slash.\<close>

definition uri_path_to_version :: "uri \<Rightarrow> string" where
  "uri_path_to_version u =
     (let path = ur_path u
      in if path = [] then []
         else if CHR ''/'' \<notin> set path then []
         else rev (takeWhile (\<lambda>c. c \<noteq> CHR ''/'') (rev path)))"

definition registration_status_from_uri :: "uri \<Rightarrow> registration_status" where
  "registration_status_from_uri u =
     (if ur_empty u then registration_status_default
      else \<lparr> rg_connected = True, rg_uri = ur_string u, rg_scheme = ur_scheme u, rg_host = ur_host u,
             rg_port = ur_port u, rg_version = uri_path_to_version u \<rparr>)"

section \<open>Identities\<close>

lemma tolower_hex:
  "isxdigit (tolower c) \<Longrightarrow>
   isdigit (tolower c) \<or> 97 \<le> (of_char (tolower c) :: nat) \<and> (of_char (tolower c) :: nat) \<le> 102"
  by (auto simp: isxdigit_def tolower_def isdigit_def split: if_splits)

lemma list_of_length_Suc: "length xs = Suc n \<longleftrightarrow> (\<exists>y ys. xs = y # ys \<and> length ys = n)"
  by (cases xs) auto

lemma group_pairs_valid:
  assumes "length cs = 16"
    and "list_all (\<lambda>c. isdigit c \<or> 97 \<le> (of_char c :: nat) \<and> (of_char c :: nat) \<le> 102) cs"
  shows "is_valid_ptp_gmid (group_pairs [] cs)"
proof -
  obtain c0 c1 c2 c3 c4 c5 c6 c7 c8 c9 c10 c11 c12 c13 c14 c15
    where "cs = [c0, c1, c2, c3, c4, c5, c6, c7, c8, c9, c10, c11, c12, c13, c14, c15]"
    using assms(1) by (auto simp: numeral_eq_Suc list_of_length_Suc)
  with assms(2) show ?thesis by (simp add: is_valid_ptp_gmid_def)
qed

lemma tolower_hex_all:
  "list_all isxdigit (map tolower cs) \<Longrightarrow>
   list_all (\<lambda>c. isdigit c \<or> 97 \<le> (of_char c :: nat) \<and> (of_char c :: nat) \<le> 102) (map tolower cs)"
  by (induction cs) (auto dest: tolower_hex)

lemma normalize_ptp_gmid_valid:
  "normalize_ptp_gmid g = [] \<or> is_valid_ptp_gmid (normalize_ptp_gmid g)"
proof -
  let ?lower = "map tolower (filter (\<lambda>c. \<not> (c = CHR '':'' \<or> c = CHR ''-'' \<or> isspace c)) g)"
  have "is_valid_ptp_gmid (group_pairs [] ?lower)" if "length ?lower = 16" "list_all isxdigit ?lower"
    using group_pairs_valid [OF that(1) tolower_hex_all [OF that(2)]] .
  then show ?thesis by (simp add: normalize_ptp_gmid_def Let_def)
qed

lemma lower_hex_kept:
  assumes "isdigit c \<or> 97 \<le> (of_char c :: nat) \<and> (of_char c :: nat) \<le> 102"
  shows "tolower c = c" "c \<noteq> CHR '':''" "c \<noteq> CHR ''-''" "\<not> isspace c" "isxdigit c"
  using assms by (auto simp: tolower_def isdigit_def isspace_def isxdigit_def)

lemma normalize_ptp_gmid_fixed:
  assumes "is_valid_ptp_gmid g"
  shows "normalize_ptp_gmid g = g"
proof -
  have len: "length g = 23" and from0: "valid_ptp_gmid_from 0 g"
    using assms by (auto simp: is_valid_ptp_gmid_def split: if_splits)
  obtain c0 c1 c2 c3 c4 c5 c6 c7 c8 c9 c10 c11 c12 c13 c14 c15 c16 c17 c18 c19 c20 c21 c22
    where g: "g = [c0, c1, c2, c3, c4, c5, c6, c7, c8, c9, c10, c11, c12, c13, c14, c15, c16, c17,
                   c18, c19, c20, c21, c22]"
    using len by (auto simp: numeral_eq_Suc list_of_length_Suc)
  let ?h = "\<lambda>c. isdigit c \<or> 97 \<le> (of_char c :: nat) \<and> (of_char c :: nat) \<le> 102"
  have "?h c0 \<and> ?h c1 \<and> c2 = CHR ''-'' \<and> ?h c3 \<and> ?h c4 \<and> c5 = CHR ''-'' \<and> ?h c6 \<and> ?h c7 \<and>
      c8 = CHR ''-'' \<and> ?h c9 \<and> ?h c10 \<and> c11 = CHR ''-'' \<and> ?h c12 \<and> ?h c13 \<and> c14 = CHR ''-'' \<and>
      ?h c15 \<and> ?h c16 \<and> c17 = CHR ''-'' \<and> ?h c18 \<and> ?h c19 \<and> c20 = CHR ''-'' \<and> ?h c21 \<and> ?h c22"
    using from0 unfolding g by (simp split: if_splits)
  then show ?thesis
    unfolding g normalize_ptp_gmid_def Let_def by (simp add: lower_hex_kept)
qed

section \<open>Host addresses\<close>

lemma append_unique_distinct:
  "distinct as \<Longrightarrow> distinct (append_unique_host_address as a)"
  by (simp add: append_unique_host_address_def)

lemma collect_host_addresses_distinct:
  "collect_host_addresses O' J vs acc = Inr as \<Longrightarrow> distinct acc \<Longrightarrow> distinct as"
  by (induction O' J vs acc rule: collect_host_addresses.induct)
     (auto simp: rbind_Inr_iff append_unique_distinct split: if_splits)

lemma collect_interfaces_distinct:
  "collect_interfaces O' J vs acc = Inr as \<Longrightarrow> distinct acc \<Longrightarrow> distinct as"
  by (induction O' J vs acc rule: collect_interfaces.induct)
     (auto simp: rbind_Inr_iff append_unique_distinct split: if_splits)

lemma apply_interface_host_addresses_cases:
  assumes "apply_interface_host_addresses O' J settings = Inr result"
  shows "result = settings \<or>
    (jis_object J settings \<and> (\<exists>as. as \<noteq> [] \<and> distinct as \<and> result = set_host_addresses J settings as))"
proof -
  have field: "distinct b" if "collect_field J settings n loop acc = Inr (Some b)" "distinct acc"
    "\<And>items as. loop items acc = Inr as \<Longrightarrow> distinct acc \<Longrightarrow> distinct as" for n loop acc b
    using that by (auto simp: collect_field_def rbind_Inr_iff split: if_splits)
  show ?thesis
  proof (cases "jis_object J settings")
    case True
    with assms obtain r1 where r1: "collect_field J settings ''host_addresses'' (collect_host_addresses O' J) [] = Inr r1"
      and rest: "(case r1 of None \<Rightarrow> Inr settings
        | Some acc1 \<Rightarrow>
            rbind (collect_field J settings ''interfaces'' (collect_interfaces O' J) acc1) (\<lambda>r2.
            case r2 of None \<Rightarrow> Inr settings
            | Some acc2 \<Rightarrow> if acc2 \<noteq> [] then Inr (set_host_addresses J settings acc2) else Inr settings)) = Inr result"
      by (auto simp: apply_interface_host_addresses_def rbind_Inr_iff)
    show ?thesis
    proof (cases r1)
      case None
      with rest show ?thesis by simp
    next
      case (Some acc1)
      with rest obtain r2 where r2: "collect_field J settings ''interfaces'' (collect_interfaces O' J) acc1 = Inr r2"
        by (cases "collect_field J settings ''interfaces'' (collect_interfaces O' J) acc1") simp_all
      with rest Some have rest2: "(case r2 of None \<Rightarrow> Inr settings
            | Some acc2 \<Rightarrow> if acc2 \<noteq> [] then Inr (set_host_addresses J settings acc2) else Inr settings) = (Inr result :: exc + _)"
        by simp
      have "distinct acc1"
        by (rule field [OF r1 [unfolded Some]]) (auto dest: collect_host_addresses_distinct)
      then have "distinct acc2" if "r2 = Some acc2" for acc2
        by (rule field [OF r2 [unfolded that]]) (auto dest: collect_interfaces_distinct)
      with rest2 True show ?thesis by (auto split: option.splits if_splits)
    qed
  qed (use assms in \<open>simp add: apply_interface_host_addresses_def\<close>)
qed

context json_api
begin

lemma set_host_addresses_read:
  assumes "jtype J v = JObject"
  shows "rbind (jat J (set_host_addresses J v (a # as)) ''host_addresses'') (jelems J)
           = Inr (map (jstring J) (a # as))"
    and "rbind (jat J (set_host_addresses J v (a # as)) ''host_address'') (jas_string J) = Inr a"
  using assms by (simp_all add: set_host_addresses_def at_set type_set)

end

section \<open>Format names\<close>

text \<open>The part of a description the guess looks at.\<close>

definition raster :: "video_format_desc \<Rightarrow> int \<times> int \<times> int \<times> rat" where
  "raster d = (vd_width d, vd_height d, vd_field_count d, vd_fps d)"

fun raster_close :: "int \<times> int \<times> int \<times> rat \<Rightarrow> int \<times> int \<times> int \<times> rat \<Rightarrow> bool" where
  "raster_close (w, h, f, r) (w', h', f', r') \<longleftrightarrow> w = w' \<and> h = h' \<and> f = f' \<and> \<bar>r - r'\<bar> < 2 / 100"

fun rasters_apart :: "(int \<times> int \<times> int \<times> rat) list \<Rightarrow> bool" where
  "rasters_apart [] = True"
| "rasters_apart (x # xs) = (list_all (\<lambda>y. \<not> raster_close x y) xs \<and> rasters_apart xs)"

lemma format_descs_apart: "rasters_apart (map raster format_descs)"
  by (simp add: format_descs_def format_desc_tables format_desc_invalid_def raster_def)

lemma find_apart:
  "rasters_apart (map raster ds) \<Longrightarrow> d \<in> set ds \<Longrightarrow>
   List.find (\<lambda>e. raster_close (raster e) (raster d)) ds = Some d"
  by (induction ds) (auto simp: list_all_iff raster_def)

text \<open>The parameters of a stream in the raster of a description, at a given frame rate.\<close>

definition raster_parameters :: "video_format_desc \<Rightarrow> rat \<Rightarrow> video_raw_parameters" where
  "raster_parameters d r =
     \<lparr> vp_width = word_of_int (vd_width d), vp_height = word_of_int (vd_height d), vp_exactframerate = r,
       vp_interlace = (vd_field_count d = 2), vp_colorimetry = [], vp_tcs = [] \<rparr>"

text \<open>
  The real formats have an interlaced or progressive raster of a size that fits an \<open>int\<close>, and no
  two of them share raster and a frame rate within the tolerance, even if one of the rates is halved.
\<close>

lemma format_descs_sizes:
  "list_all (\<lambda>d. 0 < vd_width d \<and> vd_width d < 2 ^ 31 \<and> 0 < vd_height d \<and> vd_height d < 2 ^ 31 \<and>
                 (vd_field_count d = 1 \<or> vd_field_count d = 2))
     (filter (\<lambda>d. \<not> is_invalid d) format_descs)"
  by (simp add: is_invalid_def format_descs_def format_desc_tables format_desc_invalid_def)

lemma format_descs_half_rate:
  "list_all (\<lambda>d. list_all (\<lambda>e. \<not> raster_close (raster e) (vd_width d, vd_height d, 2, vd_fps d / 2)) format_descs)
     (filter (\<lambda>d. vd_field_count d = 2) format_descs)"
  by (simp add: raster_def format_descs_def format_desc_tables format_desc_invalid_def)

lemma small_word:
  assumes "0 < i" "i < 2 ^ 31"
  shows "sint (word_of_int i :: uint32) = i" "(word_of_int i :: uint32) \<noteq> 0"
proof -
  show "sint (word_of_int i :: uint32) = i"
    using assms by (simp add: sint_sbintrunc' signed_take_bit_int_eq_self)
  then show "(word_of_int i :: uint32) \<noteq> 0" using assms by force
qed

lemma guess_raster:
  assumes "d \<in> set format_descs" "\<not> is_invalid d"
  shows "guess_video_format_name (raster_parameters d r) =
    (case List.find (\<lambda>e. raster_close (raster e) (vd_width d, vd_height d, vd_field_count d, r)) format_descs of
       Some e \<Rightarrow> vd_name e | None \<Rightarrow> [])"
proof -
  have d: "0 < vd_width d" "vd_width d < 2 ^ 31" "0 < vd_height d" "vd_height d < 2 ^ 31"
    "vd_field_count d = 1 \<or> vd_field_count d = 2"
    using format_descs_sizes assms by (auto simp: list_all_iff)
  then have "frame_rate_matches (raster_parameters d r) r =
      (\<lambda>e. raster_close (raster e) (vd_width d, vd_height d, vd_field_count d, r))"
    by (auto simp: frame_rate_matches_def raster_parameters_def raster_def fun_eq_iff small_word(1))
  with d show ?thesis
    by (simp add: guess_video_format_name_def raster_parameters_def small_word(2))
qed

section \<open>Properties\<close>

text \<open>
  C6. Whatever text a snapshot gives as grandmaster identity, normalising it yields either nothing
  or a well-formed identity of eight lower-case pairs, and a well-formed identity is kept.
\<close>
theorem ptp_gmid_normal_form:
  assumes "is_valid_ptp_gmid h"
  shows "(normalize_ptp_gmid g = [] \<or> is_valid_ptp_gmid (normalize_ptp_gmid g)) \<and> normalize_ptp_gmid h = h"
  using normalize_ptp_gmid_valid normalize_ptp_gmid_fixed [OF assms] by blast

theorem ptp_gmid_normal_form_witness:
  "normalize_ptp_gmid ''08:00:11:FF:fe:21:e1:b0'' = ''08-00-11-ff-fe-21-e1-b0'' \<and>
   normalize_ptp_gmid ''08-00-11-ff-fe-21-e1-b0'' = ''08-00-11-ff-fe-21-e1-b0''"
proof -
  have "is_valid_ptp_gmid ''08-00-11-ff-fe-21-e1-b0''"
    by (simp add: is_valid_ptp_gmid_def isdigit_def)
  moreover have "normalize_ptp_gmid ''08:00:11:FF:fe:21:e1:b0'' = ''08-00-11-ff-fe-21-e1-b0''"
    by code_simp
  ultimately show ?thesis using ptp_gmid_normal_form by blast
qed

text \<open>
  The settings step either leaves the settings alone or stores a non-empty list of pairwise
  different host addresses, with the first one as the host address.
\<close>
theorem host_addresses_normalised:
  assumes "json_api J" "apply_interface_host_addresses O' J settings = Inr result"
  shows "result = settings \<or>
    (\<exists>a as. distinct (a # as) \<and>
       rbind (jat J result ''host_addresses'') (jelems J) = Inr (map (jstring J) (a # as)) \<and>
       rbind (jat J result ''host_address'') (jas_string J) = Inr a)"
proof (cases "result = settings")
  case False
  with apply_interface_host_addresses_cases [OF assms(2)] obtain as
    where "jtype J settings = JObject" "as \<noteq> []" "distinct as" "result = set_host_addresses J settings as"
    by blast
  then show ?thesis
    using json_api.set_host_addresses_read [OF assms(1)] by (cases as) blast+
qed simp

definition sample_os :: os where
  "sample_os = \<lparr> os_ipv4 = (\<lambda>s. s = ''10.0.0.1'' \<or> s = ''10.0.0.2''), os_ipv6 = (\<lambda>_. False),
                 os_getifaddrs = Inr [\<lparr> ifa_name = Some ''eth0'', ifa_addr = Some (Sock_inet (Some ''10.0.0.2'')) \<rparr>] \<rparr>"

definition sample_settings :: doc where
  "sample_settings = DObj [(''host_addresses'', DArr [DStr ''10.0.0.1'', DStr ''10.0.0.1'']),
                           (''interfaces'', DArr [DStr ''eth0''])]"

theorem host_addresses_normalised_witness:
  "\<exists>result a as. apply_interface_host_addresses sample_os doc_lib sample_settings = Inr result \<and>
     distinct (a # as) \<and>
     rbind (jat doc_lib result ''host_addresses'') (jelems doc_lib) = Inr (map (jstring doc_lib) (a # as))"
proof -
  have "apply_interface_host_addresses sample_os doc_lib sample_settings =
      Inr (set_host_addresses doc_lib sample_settings [''10.0.0.1'', ''10.0.0.2''])"
    by (simp add: apply_interface_host_addresses_def collect_field_def sample_os_def sample_settings_def
        doc_lib_def append_unique_host_address_def is_ipv4_literal_def resolve_interface_ipv4_address_def)
  moreover have "set_host_addresses doc_lib sample_settings [''10.0.0.1'', ''10.0.0.2''] \<noteq> sample_settings"
    by (simp add: set_host_addresses_def sample_settings_def doc_lib_def jarray_of_def)
  ultimately show ?thesis
    using host_addresses_normalised [OF doc.json_api_axioms] by blast
qed

text \<open>
  C7. From the SDP of a stream in one of the table's formats the receiver guesses exactly that
  format when the SDP carries the table's rate; an interlaced stream announced at its frame rate,
  half of that (25 for 1080i50), is not recognised at all.
\<close>
theorem guess_video_format:
  "list_all (\<lambda>d. guess_video_format_name (raster_parameters d (vd_fps d)) = vd_name d)
     (filter (\<lambda>d. \<not> is_invalid d) format_descs) \<and>
   list_all (\<lambda>d. guess_video_format_name (raster_parameters d (vd_fps d / 2)) = [])
     (filter (\<lambda>d. vd_field_count d = 2) format_descs)"
proof -
  have "guess_video_format_name (raster_parameters d (vd_fps d)) = vd_name d"
    if d: "d \<in> set format_descs" "\<not> is_invalid d" for d
    using guess_raster [OF d, of "vd_fps d"] find_apart [OF format_descs_apart d(1)]
    by (simp add: raster_def [of d])
  moreover have "guess_video_format_name (raster_parameters d (vd_fps d / 2)) = []"
    if d: "d \<in> set format_descs" "vd_field_count d = 2" for d
  proof -
    have "list_all (\<lambda>d. vd_field_count d \<noteq> 2) (filter is_invalid format_descs)"
      by (simp add: is_invalid_def format_descs_def format_desc_tables format_desc_invalid_def)
    with d have "\<not> is_invalid d" by (auto simp: list_all_iff)
    moreover have "List.find (\<lambda>e. raster_close (raster e) (vd_width d, vd_height d, 2, vd_fps d / 2))
        format_descs = None"
      using format_descs_half_rate d by (simp add: list_all_iff find_None_all)
    ultimately show ?thesis using guess_raster [OF d(1), of "vd_fps d / 2"] d(2) by simp
  qed
  ultimately show ?thesis by (simp add: list_all_iff)
qed

end
