(* ===== verification/Nmos_Lib.thy ===== *)
theory Nmos_Lib
  imports Node_Helpers
begin

text \<open>
  What the node needs of the library nmos-cpp, which is not part of the repository: the resource
  containers and the constructors of resources, as the record \<open>nmos_lib\<close>. The locale
  \<open>resource_store\<close> states the documented behaviour of the containers that the theorems use. The
  nested edits of JSON documents (\<open>data[a][b] = x\<close>) are \<open>jalter\<close>.
\<close>

section \<open>Nested members\<close>

text \<open>
  \<open>operator[]\<close> of the JSON library: it turns null into an object or an array, adds the missing
  member or element as null, and throws on values of another type.
\<close>

datatype jstep = Key string | Ix nat

fun jalter :: "('v, 'x) json_lib_scheme \<Rightarrow> jstep list \<Rightarrow> ('v \<Rightarrow> exc + 'v) \<Rightarrow> 'v \<Rightarrow> exc + 'v" where
  "jalter J [] f v = f v"
| "jalter J (Key k # p) f v =
     (if jis_null J v then rbind (jalter J p f (jnull J)) (\<lambda>w. Inr (jset J (jobject J) k w))
      else if jis_object J v then
        rbind (jalter J p f (case jat J v k of Inr c \<Rightarrow> c | Inl _ \<Rightarrow> jnull J)) (\<lambda>w. Inr (jset J v k w))
      else Inl ''not an object'')"
| "jalter J (Ix i # p) f v =
     (if jis_null J v then rbind (jalter J p f (jnull J)) (\<lambda>w. Inr (jset_index J (jarray J) i w))
      else
        (case jelems J v of
           Inl e \<Rightarrow> Inl ''not an array''
         | Inr xs \<Rightarrow> rbind (jalter J p f (if i < length xs then xs ! i else jnull J))
                       (\<lambda>w. Inr (jset_index J v i w))))"

definition jput :: "('v, 'x) json_lib_scheme \<Rightarrow> jstep list \<Rightarrow> 'v \<Rightarrow> 'v \<Rightarrow> exc + 'v" where
  "jput J p x v = jalter J p (\<lambda>_. Inr x) v"

text \<open>\<open>web::json::push_back\<close>: \<open>value[value.size()] = x\<close>.\<close>

definition jpush :: "('v, 'x) json_lib_scheme \<Rightarrow> 'v \<Rightarrow> 'v \<Rightarrow> exc + 'v" where
  "jpush J x v =
     (if jis_null J v then Inr (jset_index J (jarray J) 0 x)
      else (case jelems J v of Inl e \<Rightarrow> Inl ''not an array'' | Inr xs \<Rightarrow> Inr (jset_index J v (length xs) x)))"

section \<open>The library\<close>

record 'v resource =
  re_id :: string
  re_type :: string
  re_data :: 'v

datatype st20_fmt =
    ST20_FMT_YUV_422_10BIT | ST20_FMT_YUV_422_8BIT | ST20_FMT_YUV_422_12BIT | ST20_FMT_YUV_422_16BIT
  | ST20_FMT_YUV_420_8BIT | ST20_FMT_YUV_420_10BIT | ST20_FMT_YUV_420_12BIT | ST20_FMT_YUV_420_16BIT
  | ST20_FMT_YUV_422_PLANAR10LE | ST20_FMT_V210
  | ST20_FMT_RGB_8BIT | ST20_FMT_RGB_10BIT | ST20_FMT_RGB_12BIT | ST20_FMT_RGB_16BIT
  | ST20_FMT_YUV_444_8BIT | ST20_FMT_YUV_444_10BIT | ST20_FMT_YUV_444_12BIT | ST20_FMT_YUV_444_16BIT
  | ST20_FMT_MAX

datatype sampling = YCbCr_4_2_2 | YCbCr_4_2_0 | RGB | YCbCr_4_4_4

datatype interlace_mode = Progressive | Interlaced_bff | Interlaced_tff | Interlaced_psf

text \<open>
  \<open>nl_st20_fmt\<close> is the cast of an \<open>int\<close> to \<open>st20_fmt\<close> (\<open>None\<close>: the value has no enumerator),
  \<open>nl_st20_max\<close> the value of \<open>ST20_FMT_MAX\<close>. Clock name, transport, formats and media types that the
  daemon always passes as the same library constant are not arguments of the constructors here.
  \<open>nl_version\<close> is the text \<open>nmos::make_version()\<close> reads from the clock; one operation of the model
  sees one value of it.
\<close>

record ('v, 'rs) nmos_lib =
  nl_repeatable_id :: "string \<Rightarrow> string \<Rightarrow> string"
  nl_insert :: "'v resource \<Rightarrow> 'rs \<Rightarrow> bool \<times> 'rs"
  nl_erase :: "string \<Rightarrow> 'rs \<Rightarrow> bool \<times> 'rs"
  nl_find :: "'rs \<Rightarrow> string \<Rightarrow> string \<Rightarrow> 'v resource option"
  nl_modify :: "string \<Rightarrow> ('v resource, unit) eff \<Rightarrow> ('rs, bool) eff"
  nl_empty :: "'rs"
  nl_version :: string
  nl_st20_fmt :: "int \<Rightarrow> st20_fmt option"
  nl_st20_max :: int
  nl_interlace_name :: "interlace_mode \<Rightarrow> string"
  nl_group_hint :: "string \<Rightarrow> string \<Rightarrow> string"
  nl_manifest_href :: "string \<Rightarrow> 'v \<Rightarrow> string"
  nl_rational :: "rat \<Rightarrow> 'v"
  nl_caps_rational :: "rat list \<Rightarrow> 'v"
  nl_caps_integer :: "int list \<Rightarrow> 'v"
  nl_caps_string :: "string list \<Rightarrow> 'v"
  nl_ptp_clock :: "string \<Rightarrow> bool \<Rightarrow> 'v"
  nl_video_source :: "string \<Rightarrow> string \<Rightarrow> rat \<Rightarrow> 'v \<Rightarrow> 'v resource"
  nl_audio_source :: "string \<Rightarrow> string \<Rightarrow> rat \<Rightarrow> (string \<times> string) list \<Rightarrow> 'v \<Rightarrow> 'v resource"
  nl_data_source :: "string \<Rightarrow> string \<Rightarrow> rat \<Rightarrow> 'v \<Rightarrow> 'v resource"
  nl_raw_video_flow :: "string \<Rightarrow> string \<Rightarrow> string \<Rightarrow> rat \<Rightarrow> int \<Rightarrow> int \<Rightarrow> interlace_mode \<Rightarrow> string \<Rightarrow> string
     \<Rightarrow> sampling \<Rightarrow> int \<Rightarrow> 'v \<Rightarrow> 'v resource"
  nl_raw_audio_flow :: "string \<Rightarrow> string \<Rightarrow> string \<Rightarrow> rat \<Rightarrow> int \<Rightarrow> 'v \<Rightarrow> 'v resource"
  nl_sdianc_data_flow :: "string \<Rightarrow> string \<Rightarrow> string \<Rightarrow> 'v \<Rightarrow> 'v resource"
  nl_sender :: "string \<Rightarrow> string \<Rightarrow> string \<Rightarrow> string \<Rightarrow> string list \<Rightarrow> 'v \<Rightarrow> 'v resource"
  nl_video_receiver :: "string \<Rightarrow> string \<Rightarrow> string list \<Rightarrow> 'v \<Rightarrow> 'v resource"
  nl_audio_receiver :: "string \<Rightarrow> string \<Rightarrow> string list \<Rightarrow> int \<Rightarrow> 'v \<Rightarrow> 'v resource"
  nl_sdianc_data_receiver :: "string \<Rightarrow> string \<Rightarrow> string list \<Rightarrow> 'v \<Rightarrow> 'v resource"
  nl_connection_rtp_sender :: "string \<Rightarrow> bool \<Rightarrow> 'v resource"
  nl_connection_rtp_receiver :: "string \<Rightarrow> bool \<Rightarrow> 'v resource"

text \<open>
  The containers. \<open>ids\<close> are the identities of the resources held: \<open>insert_resource\<close> refuses an identity
  that is present, \<open>erase_resource\<close> removes one (and possibly sub-resources), \<open>modify_resource\<close> runs
  the modifier on the resource when it is present and passes its exception on; it keeps the identities
  of the container. Constructors give the resource the identity they are passed, and repeatable
  identities of different names differ.
\<close>

locale resource_store =
  fixes L :: "('v, 'rs, 'x) nmos_lib_scheme"
    and ids :: "'rs \<Rightarrow> string set"
  assumes insert_fresh: "re_id r \<notin> ids rs \<Longrightarrow> \<exists>rs'. nl_insert L r rs = (True, rs') \<and> ids rs' = insert (re_id r) (ids rs)"
    and insert_present: "re_id r \<in> ids rs \<Longrightarrow> \<exists>rs'. nl_insert L r rs = (False, rs') \<and> ids rs' = ids rs"
    and erase: "nl_erase L i rs = (ok, rs') \<Longrightarrow> i \<notin> ids rs' \<and> ids rs' \<subseteq> ids rs \<and> (ok \<longleftrightarrow> i \<in> ids rs)"
    and find_present: "nl_find L rs i t = Some r \<Longrightarrow> i \<in> ids rs \<and> re_id r = i"
    and modify_absent: "i \<notin> ids rs \<Longrightarrow> nl_modify L i f rs = (Inr False, rs)"
    and modify_throws: "nl_modify L i f rs = (Inl e, rs') \<Longrightarrow> \<exists>r r'. f r = (Inl e, r')"
    and modify_ids: "nl_modify L i f rs = (q, rs') \<Longrightarrow> ids rs' = ids rs"
    and ids_empty: "ids (nl_empty L) = {}"
    and id_inj: "nl_repeatable_id L seed n = nl_repeatable_id L seed m \<longleftrightarrow> n = m"
    and id_nonempty: "nl_repeatable_id L seed n \<noteq> []"
    and made_ids:
      "re_id (nl_video_source L a b fr set0) = a" "re_id (nl_audio_source L a b fr cs set0) = a"
      "re_id (nl_data_source L a b fr set0) = a"
      "re_id (nl_raw_video_flow L a b c fr w h im cl tc sm d set0) = a"
      "re_id (nl_raw_audio_flow L a b c fr w set0) = a" "re_id (nl_sdianc_data_flow L a b c set0) = a"
      "re_id (nl_sender L a b c m ns set0) = a" "re_id (nl_video_receiver L a b ns set0) = a"
      "re_id (nl_audio_receiver L a b ns w set0) = a" "re_id (nl_sdianc_data_receiver L a b ns set0) = a"
      "re_id (nl_connection_rtp_sender L a p) = a" "re_id (nl_connection_rtp_receiver L a p) = a"
begin

lemma insert_cases:
  obtains rs' where "nl_insert L r rs = (True, rs')" "re_id r \<notin> ids rs" "ids rs' = insert (re_id r) (ids rs)"
  | rs' where "nl_insert L r rs = (False, rs')" "re_id r \<in> ids rs" "ids rs' = ids rs"
  using insert_fresh insert_present by blast

lemma modify_safe:
  assumes "\<And>r. fst (f r) = Inr ()"
  shows "\<exists>b rs'. nl_modify L i f rs = (Inr b, rs')"
proof (cases "nl_modify L i f rs")
  case (Pair q rs')
  show ?thesis
  proof (cases q)
    case (Inl e)
    with Pair modify_throws obtain r r' where "f r = (Inl e, r')" by blast
    then show ?thesis using assms [of r] by simp
  qed (use Pair in simp)
qed

end

section \<open>A concrete library\<close>

text \<open>
  Containers as lists of resources, repeatable identities as texts. It shows that the laws can be
  met, and the witnesses run the model on it. Every constructed resource has the same data.
\<close>

definition sample_data :: doc where
  "sample_data = DObj [(''label'', DStr []), (''description'', DStr [])]"

definition sample_connection :: "bool \<Rightarrow> doc" where
  "sample_connection redundant =
     (let legs = (if redundant then [DObj [], DObj []] else [DObj []]);
          endpoint = DObj [(''transport_params'', DArr legs)]
      in DObj [(''endpoint_constraints'', DArr legs), (''endpoint_staged'', endpoint), (''endpoint_active'', endpoint)])"

fun list_modify :: "string \<Rightarrow> ('v resource, unit) eff \<Rightarrow> ('v resource list, bool) eff" where
  "list_modify i f [] = (Inr False, [])"
| "list_modify i f (r # rs) =
     (if re_id r = i
      then (case f r of
              (Inl e, r') \<Rightarrow> (Inl e, r'\<lparr> re_id := i \<rparr> # rs)
            | (Inr _, r') \<Rightarrow> (Inr True, r'\<lparr> re_id := i \<rparr> # rs))
      else (case list_modify i f rs of (q, rs') \<Rightarrow> (q, r # rs')))"

definition sample_resource :: "string \<Rightarrow> string \<Rightarrow> doc resource" where
  "sample_resource t i = \<lparr> re_id = i, re_type = t, re_data = sample_data \<rparr>"

definition sample_lib :: "(doc, doc resource list) nmos_lib" where
  "sample_lib =
     \<lparr> nl_repeatable_id = (\<lambda>seed n. CHR ''u'' # n),
       nl_insert = (\<lambda>r rs. if re_id r \<in> set (map re_id rs) then (False, rs) else (True, rs @ [r])),
       nl_erase = (\<lambda>i rs. (i \<in> set (map re_id rs), filter (\<lambda>r. re_id r \<noteq> i) rs)),
       nl_find = (\<lambda>rs i t. List.find (\<lambda>r. re_id r = i \<and> re_type r = t) rs),
       nl_modify = list_modify,
       nl_empty = [],
       nl_version = ''0:0'',
       nl_st20_fmt = (\<lambda>i. if i = 0 then Some ST20_FMT_YUV_422_10BIT else None),
       nl_st20_max = 18,
       nl_interlace_name = (\<lambda>_. []),
       nl_group_hint = (\<lambda>g r. g @ r),
       nl_manifest_href = (\<lambda>i v. i),
       nl_rational = DReal,
       nl_caps_rational = (\<lambda>rs. DArr (map DReal rs)),
       nl_caps_integer = (\<lambda>is. DArr (map DInt is)),
       nl_caps_string = (\<lambda>ss. DArr (map DStr ss)),
       nl_ptp_clock = (\<lambda>g l. DArr [DStr g, DBool l]),
       nl_video_source = (\<lambda>i d q v. sample_resource ''source'' i),
       nl_audio_source = (\<lambda>i d q cs v. sample_resource ''source'' i),
       nl_data_source = (\<lambda>i d q v. sample_resource ''source'' i),
       nl_raw_video_flow = (\<lambda>i s d q w h im cl tc sm b v. sample_resource ''flow'' i),
       nl_raw_audio_flow = (\<lambda>i s d q b v. sample_resource ''flow'' i),
       nl_sdianc_data_flow = (\<lambda>i s d v. sample_resource ''flow'' i),
       nl_sender = (\<lambda>i f d m ns v. sample_resource ''sender'' i),
       nl_video_receiver = (\<lambda>i d ns v. sample_resource ''receiver'' i),
       nl_audio_receiver = (\<lambda>i d ns b v. sample_resource ''receiver'' i),
       nl_sdianc_data_receiver = (\<lambda>i d ns v. sample_resource ''receiver'' i),
       nl_connection_rtp_sender = (\<lambda>i p. \<lparr> re_id = i, re_type = ''sender'', re_data = sample_connection p \<rparr>),
       nl_connection_rtp_receiver = (\<lambda>i p. \<lparr> re_id = i, re_type = ''receiver'', re_data = sample_connection p \<rparr>) \<rparr>"

lemma list_modify_absent: "i \<notin> re_id ` set rs \<Longrightarrow> list_modify i f rs = (Inr False, rs)"
  by (induction rs) auto

lemma list_modify_throws: "list_modify i f rs = (Inl e, rs') \<Longrightarrow> \<exists>r r'. f r = (Inl e, r')"
  by (induction rs arbitrary: rs') (auto split: if_splits prod.splits sum.splits)

lemma list_modify_ids: "list_modify i f rs = (q, rs') \<Longrightarrow> map re_id rs' = map re_id rs"
  by (induction rs arbitrary: rs') (auto split: if_splits prod.splits sum.splits)

interpretation sample: resource_store sample_lib "\<lambda>rs. set (map re_id rs)"
proof
  fix i f and rs rs' :: "doc resource list" and q
  assume "nl_modify sample_lib i f rs = (q, rs')"
  then show "set (map re_id rs') = set (map re_id rs)"
    by (simp add: sample_lib_def list_modify_ids)
next
  fix rs :: "doc resource list" and i t r
  assume "nl_find sample_lib rs i t = Some r"
  then show "i \<in> set (map re_id rs) \<and> re_id r = i"
    by (auto simp: sample_lib_def dest: find_Some_in)
qed (auto simp: sample_lib_def sample_resource_def list_modify_absent dest: list_modify_throws)

end
