(* ===== verification/Node_Resources.thy ===== *)
theory Node_Resources
  imports Nmos_Lib
begin

text \<open>
  How \<open>node.cpp\<close> builds the NMOS resources of a stream: \<open>make_video_sender_resources\<close> and its five
  siblings, with \<open>node_implementation.cpp\<close>'s helpers and the transport parameter helpers of
  \<open>node.cpp\<close>. They read the seed, the device id, the settings and the runtime interfaces of the
  node (\<open>node_env\<close>), and may throw; nothing else is touched.
\<close>

section \<open>Identities, labels and group hints\<close>

definition port_video :: string where "port_video = ''VIDEO''"
definition port_audio :: string where "port_audio = ''AUDIO''"
definition port_data :: string where "port_data = ''DATA''"

definition make_id :: "('v, 'rs, 'y) nmos_lib_scheme \<Rightarrow> string \<Rightarrow> string \<Rightarrow> string \<Rightarrow> string \<Rightarrow> string" where
  "make_id L seed_id ty port id' =
     nl_repeatable_id L seed_id (''/x-nmos/node/'' @ ty @ ''/'' @ port @ id')"

definition append_label ::
    "('v, 'x) json_lib_scheme \<Rightarrow> string \<Rightarrow> string \<Rightarrow> 'v \<Rightarrow> exc + 'v" where
  "append_label J field suffix data =
     rbind (jat J data field) (\<lambda>v.
     rbind (jas_string J v) (\<lambda>label.
     Inr (jset J data field (jstring J ((if label \<noteq> [] then label @ ''/'' else label) @ suffix)))))"

definition set_label_description ::
    "('v, 'x) json_lib_scheme \<Rightarrow> string \<Rightarrow> string \<Rightarrow> 'v resource \<Rightarrow> exc + 'v resource" where
  "set_label_description J port name r =
     rbind (append_label J ''label'' (re_type r @ ''/'' @ port @ ''/'' @ name) (re_data r)) (\<lambda>d1.
     rbind (append_label J ''description'' (re_type r @ ''/'' @ port @ ''/'' @ name) d1) (\<lambda>d2.
     Inr (r\<lparr> re_data := d2 \<rparr>)))"

definition insert_group_hint ::
    "('v, 'x) json_lib_scheme \<Rightarrow> ('v, 'rs, 'y) nmos_lib_scheme \<Rightarrow> string \<Rightarrow> string \<Rightarrow> string \<Rightarrow>
     'v resource \<Rightarrow> exc + 'v resource" where
  "insert_group_hint J L port id' name r =
     rbind (jalter J [Key ''tags'', Key ''group_hint'']
              (jpush J (jstring J (nl_group_hint L name (re_type r @ ''/'' @ port @ ''/'' @ id'))))
              (re_data r)) (\<lambda>d.
     Inr (r\<lparr> re_data := d \<rparr>))"

definition channels_repeat :: "(string \<times> string) list" where
  "channels_repeat =
     [(''Left Channel'', ''L''), (''Right Channel'', ''R''), (''Center Channel'', ''C''),
      (''Low Frequency Effects Channel'', ''LFE'')]"

section \<open>Colour formats\<close>

fun st_get_color_sampling :: "st20_fmt option \<Rightarrow> sampling" where
  "st_get_color_sampling (Some ST20_FMT_YUV_422_10BIT) = YCbCr_4_2_2"
| "st_get_color_sampling (Some ST20_FMT_YUV_422_8BIT) = YCbCr_4_2_2"
| "st_get_color_sampling (Some ST20_FMT_YUV_422_12BIT) = YCbCr_4_2_2"
| "st_get_color_sampling (Some ST20_FMT_YUV_422_16BIT) = YCbCr_4_2_2"
| "st_get_color_sampling (Some ST20_FMT_YUV_420_8BIT) = YCbCr_4_2_0"
| "st_get_color_sampling (Some ST20_FMT_YUV_420_10BIT) = YCbCr_4_2_0"
| "st_get_color_sampling (Some ST20_FMT_YUV_420_12BIT) = YCbCr_4_2_0"
| "st_get_color_sampling (Some ST20_FMT_YUV_420_16BIT) = YCbCr_4_2_0"
| "st_get_color_sampling (Some ST20_FMT_YUV_422_PLANAR10LE) = YCbCr_4_2_2"
| "st_get_color_sampling (Some ST20_FMT_V210) = YCbCr_4_2_2"
| "st_get_color_sampling (Some ST20_FMT_RGB_8BIT) = RGB"
| "st_get_color_sampling (Some ST20_FMT_RGB_10BIT) = RGB"
| "st_get_color_sampling (Some ST20_FMT_RGB_12BIT) = RGB"
| "st_get_color_sampling (Some ST20_FMT_RGB_16BIT) = RGB"
| "st_get_color_sampling (Some ST20_FMT_YUV_444_8BIT) = YCbCr_4_4_4"
| "st_get_color_sampling (Some ST20_FMT_YUV_444_10BIT) = YCbCr_4_4_4"
| "st_get_color_sampling (Some ST20_FMT_YUV_444_12BIT) = YCbCr_4_4_4"
| "st_get_color_sampling (Some ST20_FMT_YUV_444_16BIT) = YCbCr_4_4_4"
| "st_get_color_sampling (Some ST20_FMT_MAX) = YCbCr_4_4_4"
| "st_get_color_sampling None = YCbCr_4_2_2"

fun st_get_component_depth :: "st20_fmt option \<Rightarrow> int" where
  "st_get_component_depth (Some ST20_FMT_YUV_422_10BIT) = 10"
| "st_get_component_depth (Some ST20_FMT_YUV_422_8BIT) = 8"
| "st_get_component_depth (Some ST20_FMT_YUV_422_12BIT) = 12"
| "st_get_component_depth (Some ST20_FMT_YUV_422_16BIT) = 16"
| "st_get_component_depth (Some ST20_FMT_YUV_420_8BIT) = 8"
| "st_get_component_depth (Some ST20_FMT_YUV_420_10BIT) = 10"
| "st_get_component_depth (Some ST20_FMT_YUV_420_12BIT) = 12"
| "st_get_component_depth (Some ST20_FMT_YUV_420_16BIT) = 16"
| "st_get_component_depth (Some ST20_FMT_YUV_422_PLANAR10LE) = 10"
| "st_get_component_depth (Some ST20_FMT_V210) = 10"
| "st_get_component_depth (Some ST20_FMT_RGB_8BIT) = 8"
| "st_get_component_depth (Some ST20_FMT_RGB_10BIT) = 10"
| "st_get_component_depth (Some ST20_FMT_RGB_12BIT) = 12"
| "st_get_component_depth (Some ST20_FMT_RGB_16BIT) = 16"
| "st_get_component_depth (Some ST20_FMT_YUV_444_8BIT) = 8"
| "st_get_component_depth (Some ST20_FMT_YUV_444_10BIT) = 10"
| "st_get_component_depth (Some ST20_FMT_YUV_444_12BIT) = 12"
| "st_get_component_depth (Some ST20_FMT_YUV_444_16BIT) = 16"
| "st_get_component_depth (Some ST20_FMT_MAX) = 8"
| "st_get_component_depth None = 8"

section \<open>Transport parameters\<close>

definition set_receiver_transport_params_leg ::
    "('v, 'x) json_lib_scheme \<Rightarrow> nat \<Rightarrow> string \<Rightarrow> string \<Rightarrow> int32 \<Rightarrow> 'v \<Rightarrow> exc + 'v" where
  "set_receiver_transport_params_leg J leg_index multicast_ip interface_ip destination_port endpoint =
     rbind (jput J [Key ''transport_params'', Ix leg_index, Key ''multicast_ip''] (jstring J multicast_ip) endpoint) (\<lambda>e1.
     rbind (jput J [Key ''transport_params'', Ix leg_index, Key ''interface_ip''] (jstring J interface_ip) e1) (\<lambda>e2.
     jput J [Key ''transport_params'', Ix leg_index, Key ''destination_port''] (jint J destination_port) e2))"

text \<open>
  \<open>initialize_receiver_transport_params\<close> sets one or two legs of both endpoints of the connection
  data; each endpoint is written in place, the staged one first.
\<close>

definition initialize_receiver_leg ::
    "('v, 'x) json_lib_scheme \<Rightarrow> nat \<Rightarrow> string \<Rightarrow> string \<Rightarrow> int32 \<Rightarrow> 'v \<Rightarrow> exc + 'v" where
  "initialize_receiver_leg J leg_index multicast_ip interface_ip destination_port data =
     rbind (jalter J [Key ''endpoint_staged'']
              (set_receiver_transport_params_leg J leg_index multicast_ip interface_ip destination_port) data) (\<lambda>d.
     jalter J [Key ''endpoint_active'']
       (set_receiver_transport_params_leg J leg_index multicast_ip interface_ip destination_port) d)"

definition initialize_receiver_transport_params ::
    "('v, 'x) json_lib_scheme \<Rightarrow> string \<Rightarrow> string \<Rightarrow> int32 \<Rightarrow> (string \<times> string \<times> int32) option \<Rightarrow> 'v \<Rightarrow> exc + 'v" where
  "initialize_receiver_transport_params J multicast_ip interface_ip destination_port secondary data =
     rbind (initialize_receiver_leg J 0 multicast_ip interface_ip destination_port data) (\<lambda>d.
     case secondary of None \<Rightarrow> Inr d
     | Some (multicast_ip2, interface_ip2, port2) \<Rightarrow> initialize_receiver_leg J 1 multicast_ip2 interface_ip2 port2 d)"

definition set_sender_endpoint_enable ::
    "('v, 'x) json_lib_scheme \<Rightarrow> bool \<Rightarrow> bool \<Rightarrow> 'v \<Rightarrow> exc + 'v" where
  "set_sender_endpoint_enable J primary_enabled secondary_enabled endpoint =
     rbind (jput J [Key ''master_enable''] (jbool J primary_enabled) endpoint) (\<lambda>e.
     jalter J [Key ''transport_params'']
       (\<lambda>transport_params.
          case jelems J transport_params of
            Inl _ \<Rightarrow> Inr transport_params
          | Inr legs \<Rightarrow>
              rbind (if length legs > 0
                     then jput J [Ix 0, Key ''rtp_enabled''] (jbool J primary_enabled) transport_params
                     else Inr transport_params) (\<lambda>tp.
              if length legs > 1
              then jput J [Ix 1, Key ''rtp_enabled''] (jbool J secondary_enabled) tp
              else Inr tp)) e)"

definition initialize_sender_endpoint_enable ::
    "('v, 'x) json_lib_scheme \<Rightarrow> bool \<Rightarrow> bool \<Rightarrow> 'v \<Rightarrow> exc + 'v" where
  "initialize_sender_endpoint_enable J stream_enabled redundancy_enabled data =
     (let secondary_enabled = stream_enabled \<and> redundancy_enabled
      in rbind (jalter J [Key ''endpoint_staged'']
                  (set_sender_endpoint_enable J stream_enabled secondary_enabled) data) (\<lambda>d.
         jalter J [Key ''endpoint_active'']
           (set_sender_endpoint_enable J stream_enabled secondary_enabled) d))"

definition transport_param_rtp_enabled :: "('v, 'x) json_lib_scheme \<Rightarrow> 'v \<Rightarrow> bool \<Rightarrow> exc + bool" where
  "transport_param_rtp_enabled J transport_param fallback =
     (if \<not> jis_object J transport_param \<or> \<not> jhas_field J transport_param ''rtp_enabled'' then Inr fallback
      else rbind (jat J transport_param ''rtp_enabled'') (\<lambda>v.
        if jis_boolean J v then jas_bool J v else Inr fallback))"

section \<open>Senders\<close>

record 'v node_env =
  ne_seed_id :: string
  ne_device_id :: string
  ne_settings :: 'v
  ne_interfaces :: "host_interface list"

record 'v sender_resources =
  sr_source :: "'v resource"
  sr_flow :: "'v resource"
  sr_sender :: "'v resource"
  sr_connection :: "'v resource"

record 'v receiver_resources =
  rr_receiver :: "'v resource"
  rr_connection :: "'v resource"

text \<open>
  The second half of the three sender functions, which is the same in all of them: the sender and
  connection resources, from the manifest URL on.
\<close>

definition finish_sender_resources ::
    "('v, 'x) json_lib_scheme \<Rightarrow> ('v, 'rs, 'y) nmos_lib_scheme \<Rightarrow> 'v node_env \<Rightarrow> string \<Rightarrow> string \<Rightarrow> string \<Rightarrow>
     string \<Rightarrow> bool \<Rightarrow> redudancy \<Rightarrow> string \<Rightarrow> string \<Rightarrow> exc + 'v resource \<times> 'v resource" where
  "finish_sender_resources J L env port id' name source_ip enable redundancy sender_id flow_id =
     (let ST_2022_7 = rd_present redundancy;
          selection = select_runtime_interfaces (ne_interfaces env) source_ip (rd_source_ip redundancy) ST_2022_7;
          interface_names = selected_interface_names selection ST_2022_7;
          sender0 = nl_sender L sender_id flow_id (ne_device_id env)
                      (nl_manifest_href L sender_id (ne_settings env)) interface_names (ne_settings env);
          connection = nl_connection_rtp_sender L sender_id ST_2022_7
      in
      rbind (set_label_description J port name sender0) (\<lambda>sender1.
      rbind (insert_group_hint J L port id' name sender1) (\<lambda>sender.
      rbind (jput J [Key ''endpoint_constraints'', Ix 0, Key ''source_ip'']
               (interface_address_constraint J (is_primary selection)) (re_data connection)) (\<lambda>d1.
      rbind (if ST_2022_7
             then jput J [Key ''endpoint_constraints'', Ix 1, Key ''source_ip'']
                    (interface_address_constraint J (is_redundancy selection)) d1
             else Inr d1) (\<lambda>d2.
      rbind (initialize_sender_endpoint_enable J enable (rd_enable redundancy) d2) (\<lambda>d3.
      rbind (jput J [Key ''endpoint_staged'', Key ''activation'']
               (jbuild J [(''mode'', jstring J ''activate_scheduled_relative''),
                          (''requested_time'', jstring J ''0:0''),
                          (''activation_time'', jstring J (nl_version L))]) d3) (\<lambda>d4.
      Inr (sender, connection\<lparr> re_data := d4 \<rparr>))))))))"

definition make_video_sender_resources ::
    "('v, 'x) json_lib_scheme \<Rightarrow> ('v, 'rs, 'y) nmos_lib_scheme \<Rightarrow> 'v node_env \<Rightarrow> video_sender \<Rightarrow>
     exc + 'v sender_resources" where
  "make_video_sender_resources J L env video =
     rbind (get_by_name (vs_video_format video)) (\<lambda>format_desc.
     if is_invalid format_desc then Inl (''invalid video sender video_format: '' @ vs_video_format video)
     else if sint (vs_pg_format video) < 0 \<or> sint (vs_pg_format video) \<ge> nl_st20_max L
     then Inl (''invalid video sender pg_format: '' @ int_to_string (sint (vs_pg_format video)))
     else
       (let fmt = nl_st20_fmt L (sint (vs_pg_format video));
            sampling = st_get_color_sampling fmt;
            bit_depth = st_get_component_depth fmt;
            source_id = make_id L (ne_seed_id env) ''source'' port_video (vs_id video);
            flow_id = make_id L (ne_seed_id env) ''flow'' port_video (vs_id video);
            sender_id = make_id L (ne_seed_id env) ''sender'' port_video (vs_id video);
            frame_rate = vd_framerate format_desc
        in
        rbind (set_label_description J port_video (vs_name video)
                 (nl_video_source L source_id (ne_device_id env) frame_rate (ne_settings env))) (\<lambda>source.
        rbind (set_label_description J port_video (vs_name video)
                 (nl_raw_video_flow L flow_id source_id (ne_device_id env) frame_rate
                    (vd_width format_desc) (vd_height format_desc)
                    (if vd_field_count format_desc = 2 then Interlaced_tff else Progressive)
                    (vs_colorspace video) (vs_transfer_characteristics video) sampling bit_depth
                    (ne_settings env))) (\<lambda>flow.
        rbind (finish_sender_resources J L env port_video (vs_id video) (vs_name video) (vs_source_ip video)
                 (vs_enable video) (vs_redudancy video) sender_id flow_id) (\<lambda>(sender, connection).
        Inr \<lparr> sr_source = source, sr_flow = flow, sr_sender = sender, sr_connection = connection \<rparr>)))))"

text \<open>
  \<open>boost::irange(0, n)\<close> requires \<open>0 \<le> n\<close>; a negative channel count, which the library leaves
  undefined, gives no channels here.
\<close>

definition audio_channels :: "int32 \<Rightarrow> (string \<times> string) list" where
  "audio_channels channel_count =
     map (\<lambda>index. channels_repeat ! (index mod length channels_repeat)) [0..<nat (sint channel_count)]"

definition make_audio_sender_resources ::
    "('v, 'x) json_lib_scheme \<Rightarrow> ('v, 'rs, 'y) nmos_lib_scheme \<Rightarrow> 'v node_env \<Rightarrow> audio_sender \<Rightarrow>
     exc + 'v sender_resources" where
  "make_audio_sender_resources J L env audio =
     (let frame_rate = rat_of_int (sint (as_sample_rate audio));
          source_id = make_id L (ne_seed_id env) ''source'' port_audio (as_id audio);
          flow_id = make_id L (ne_seed_id env) ''flow'' port_audio (as_id audio);
          sender_id = make_id L (ne_seed_id env) ''sender'' port_audio (as_id audio)
      in
      rbind (set_label_description J port_audio (as_name audio)
               (nl_audio_source L source_id (ne_device_id env) frame_rate
                  (audio_channels (as_channel_count audio)) (ne_settings env))) (\<lambda>source.
      rbind (set_label_description J port_audio (as_name audio)
               (nl_raw_audio_flow L flow_id source_id (ne_device_id env) frame_rate
                  (sint (as_bit_depth audio)) (ne_settings env))) (\<lambda>flow.
      rbind (finish_sender_resources J L env port_audio (as_id audio) (as_name audio) (as_source_ip audio)
               (as_enable audio) (as_redudancy audio) sender_id flow_id) (\<lambda>(sender, connection).
      Inr \<lparr> sr_source = source, sr_flow = flow, sr_sender = sender, sr_connection = connection \<rparr>))))"

text \<open>The \<open>try\<close> block of the ancillary sender: an exception keeps the default rate.\<close>

definition ancillary_grain_rate :: "string \<Rightarrow> rat" where
  "ancillary_grain_rate format =
     (if format \<noteq> [] then (case get_by_name format of Inr desc \<Rightarrow> vd_framerate desc | Inl _ \<Rightarrow> 50) else 50)"

definition make_ancillary_sender_resources ::
    "('v, 'x) json_lib_scheme \<Rightarrow> ('v, 'rs, 'y) nmos_lib_scheme \<Rightarrow> 'v node_env \<Rightarrow> ancillary_sender \<Rightarrow>
     exc + 'v sender_resources" where
  "make_ancillary_sender_resources J L env ancillary =
     (let grain_rate = ancillary_grain_rate (ns_format ancillary);
          source_id = make_id L (ne_seed_id env) ''source'' port_data (ns_id ancillary);
          flow_id = make_id L (ne_seed_id env) ''flow'' port_data (ns_id ancillary);
          sender_id = make_id L (ne_seed_id env) ''sender'' port_data (ns_id ancillary)
      in
      rbind (set_label_description J port_data (ns_name ancillary)
               (nl_data_source L source_id (ne_device_id env) grain_rate (ne_settings env))) (\<lambda>source.
      rbind (let flow0 = nl_sdianc_data_flow L flow_id source_id (ne_device_id env) (ne_settings env)
             in set_label_description J port_data (ns_name ancillary)
                  (flow0\<lparr> re_data := jset J (re_data flow0) ''grain_rate'' (nl_rational L grain_rate) \<rparr>)) (\<lambda>flow.
      rbind (finish_sender_resources J L env port_data (ns_id ancillary) (ns_name ancillary)
               (ns_source_ip ancillary) (ns_enable ancillary) (ns_redudancy ancillary) sender_id flow_id)
        (\<lambda>(sender, connection).
      Inr \<lparr> sr_source = source, sr_flow = flow, sr_sender = sender, sr_connection = connection \<rparr>))))"

section \<open>Receivers\<close>

text \<open>The connection resource of the three receiver functions.\<close>

definition finish_receiver_connection ::
    "('v, 'x) json_lib_scheme \<Rightarrow> ('v, 'rs, 'y) nmos_lib_scheme \<Rightarrow> runtime_interface_selection \<Rightarrow> string \<Rightarrow>
     string \<Rightarrow> int32 \<Rightarrow> redudancy \<Rightarrow> exc + 'v resource" where
  "finish_receiver_connection J L selection receiver_id ip port redundancy =
     (let ST_2022_7 = rd_present redundancy;
          secondary = (receiver_multicast_ip_or_default (rd_ip redundancy) ip,
                       il_ip (is_redundancy selection),
                       receiver_port_or_default (rd_port redundancy) port);
          connection = nl_connection_rtp_receiver L receiver_id ST_2022_7
      in
      rbind (jput J [Key ''endpoint_constraints'', Ix 0, Key ''interface_ip'']
               (interface_address_constraint J (is_primary selection)) (re_data connection)) (\<lambda>d1.
      rbind (jput J [Key ''endpoint_staged'', Key ''master_enable''] (jbool J True) d1) (\<lambda>d2.
      rbind (jput J [Key ''endpoint_active'', Key ''master_enable''] (jbool J True) d2) (\<lambda>d3.
      rbind (initialize_receiver_transport_params J ip (il_ip (is_primary selection)) port
               (if ST_2022_7 then Some secondary else None) d3) (\<lambda>d4.
      rbind (if ST_2022_7
             then jput J [Key ''endpoint_constraints'', Ix 1, Key ''interface_ip'']
                    (interface_address_constraint J (is_redundancy selection)) d4
             else Inr d4) (\<lambda>d5.
      Inr (connection\<lparr> re_data := d5 \<rparr>)))))))"

text \<open>The constraint set of one format of a video receiver, and those of a receiver.\<close>

definition add_colour_constraints ::
    "('v, 'x) json_lib_scheme \<Rightarrow> ('v, 'rs, 'y) nmos_lib_scheme \<Rightarrow> video_receiver_caps \<Rightarrow> 'v \<Rightarrow> 'v" where
  "add_colour_constraints J L caps constraint_set =
     (let c1 = (if vc_colorspaces caps \<noteq> []
                then jset J constraint_set ''colorspace'' (nl_caps_string L (vc_colorspaces caps))
                else constraint_set)
      in if vc_transfer_characteristics caps \<noteq> []
         then jset J c1 ''transfer_characteristic'' (nl_caps_string L (vc_transfer_characteristics caps))
         else c1)"

definition format_constraint_set ::
    "('v, 'x) json_lib_scheme \<Rightarrow> ('v, 'rs, 'y) nmos_lib_scheme \<Rightarrow> video_receiver_caps \<Rightarrow> string \<Rightarrow> exc + 'v" where
  "format_constraint_set J L caps format =
     rbind (get_by_name format) (\<lambda>format_desc.
     Inr (add_colour_constraints J L caps
       (jbuild J
          [(''grain_rate'', nl_caps_rational L [vd_framerate format_desc]),
           (''frame_width'', nl_caps_integer L [vd_width format_desc]),
           (''frame_height'', nl_caps_integer L [vd_height format_desc]),
           (''interlace_mode'', nl_caps_string L
              (map (nl_interlace_name L)
                 (if vd_field_count format_desc = 2
                  then [Interlaced_bff, Interlaced_tff, Interlaced_psf] else [Progressive])))])))"

definition video_constraint_sets ::
    "('v, 'x) json_lib_scheme \<Rightarrow> ('v, 'rs, 'y) nmos_lib_scheme \<Rightarrow> video_receiver_caps \<Rightarrow> exc + 'v list" where
  "video_constraint_sets J L caps =
     rbind (rfold_index (\<lambda>_ format acc. rbind (format_constraint_set J L caps format) (\<lambda>c. Inr (acc @ [c])))
              0 (vc_formats caps) []) (\<lambda>constraint_sets.
     if constraint_sets = [] \<and> (vc_colorspaces caps \<noteq> [] \<or> vc_transfer_characteristics caps \<noteq> [])
     then Inr [add_colour_constraints J L caps (jobject J)]
     else Inr constraint_sets)"

definition stamp_version ::
    "('v, 'x) json_lib_scheme \<Rightarrow> ('v, 'rs, 'y) nmos_lib_scheme \<Rightarrow> 'v \<Rightarrow> exc + 'v" where
  "stamp_version J L data =
     rbind (jput J [Key ''caps'', Key ''version''] (jstring J (nl_version L)) data)
       (jput J [Key ''version''] (jstring J (nl_version L)))"

definition make_video_receiver_resources ::
    "('v, 'x) json_lib_scheme \<Rightarrow> ('v, 'rs, 'y) nmos_lib_scheme \<Rightarrow> 'v node_env \<Rightarrow> video_receiver \<Rightarrow>
     exc + 'v receiver_resources" where
  "make_video_receiver_resources J L env video =
     (let ST_2022_7 = rd_present (vr_redudancy video);
          receiver_id = make_id L (ne_seed_id env) ''receiver'' port_video (vr_id video);
          selection = select_runtime_interfaces (ne_interfaces env) (vr_source_ip video)
                        (rd_source_ip (vr_redudancy video)) ST_2022_7;
          receiver0 = nl_video_receiver L receiver_id (ne_device_id env)
                        (selected_interface_names selection ST_2022_7) (ne_settings env)
      in
      rbind (video_constraint_sets J L (vr_caps video)) (\<lambda>constraint_sets.
      rbind (if constraint_sets \<noteq> []
             then jput J [Key ''caps'', Key ''constraint_sets''] (jarray_of J constraint_sets) (re_data receiver0)
             else Inr (re_data receiver0)) (\<lambda>d1.
      rbind (stamp_version J L d1) (\<lambda>d2.
      rbind (set_label_description J port_video (vr_name video) (receiver0\<lparr> re_data := d2 \<rparr>)) (\<lambda>receiver1.
      rbind (insert_group_hint J L port_video (vr_id video) (vr_name video) receiver1) (\<lambda>receiver.
      rbind (finish_receiver_connection J L selection receiver_id (vr_ip video) (vr_port video)
               (vr_redudancy video)) (\<lambda>connection.
      Inr \<lparr> rr_receiver = receiver, rr_connection = connection \<rparr>)))))))"

definition make_audio_receiver_resources ::
    "('v, 'x) json_lib_scheme \<Rightarrow> ('v, 'rs, 'y) nmos_lib_scheme \<Rightarrow> 'v node_env \<Rightarrow> audio_receiver \<Rightarrow>
     exc + 'v receiver_resources" where
  "make_audio_receiver_resources J L env audio =
     (let ST_2022_7 = rd_present (ar_redudancy audio);
          receiver_id = make_id L (ne_seed_id env) ''receiver'' port_audio (ar_id audio);
          selection = select_runtime_interfaces (ne_interfaces env) (ar_source_ip audio)
                        (rd_source_ip (ar_redudancy audio)) ST_2022_7;
          receiver0 = nl_audio_receiver L receiver_id (ne_device_id env)
                        (selected_interface_names selection ST_2022_7) (sint (ar_bit_depth audio)) (ne_settings env)
      in
      rbind (set_label_description J port_audio (ar_name audio) receiver0) (\<lambda>receiver1.
      rbind (insert_group_hint J L port_audio (ar_id audio) (ar_name audio) receiver1) (\<lambda>receiver.
      rbind (finish_receiver_connection J L selection receiver_id (ar_ip audio) (ar_port audio)
               (ar_redudancy audio)) (\<lambda>connection.
      Inr \<lparr> rr_receiver = receiver, rr_connection = connection \<rparr>))))"

definition make_ancillary_receiver_resources ::
    "('v, 'x) json_lib_scheme \<Rightarrow> ('v, 'rs, 'y) nmos_lib_scheme \<Rightarrow> 'v node_env \<Rightarrow> ancillary_receiver \<Rightarrow>
     exc + 'v receiver_resources" where
  "make_ancillary_receiver_resources J L env ancillary =
     (let ST_2022_7 = rd_present (nr_redudancy ancillary);
          receiver_id = make_id L (ne_seed_id env) ''receiver'' port_data (nr_id ancillary);
          selection = select_runtime_interfaces (ne_interfaces env) (nr_source_ip ancillary)
                        (rd_source_ip (nr_redudancy ancillary)) ST_2022_7;
          receiver0 = nl_sdianc_data_receiver L receiver_id (ne_device_id env)
                        (selected_interface_names selection ST_2022_7) (ne_settings env)
      in
      rbind (stamp_version J L (re_data receiver0)) (\<lambda>d1.
      rbind (set_label_description J port_data (nr_name ancillary) (receiver0\<lparr> re_data := d1 \<rparr>)) (\<lambda>receiver1.
      rbind (insert_group_hint J L port_data (nr_id ancillary) (nr_name ancillary) receiver1) (\<lambda>receiver.
      rbind (finish_receiver_connection J L selection receiver_id (nr_ip ancillary) (nr_port ancillary)
               (nr_redudancy ancillary)) (\<lambda>connection.
      Inr \<lparr> rr_receiver = receiver, rr_connection = connection \<rparr>)))))"

end
