(* ===== verification/Node_Streams.thy ===== *)
theory Node_Streams
  imports Node_Resources
begin

text \<open>
  The state of \<open>Node::Impl\<close> and its operations on streams (\<open>node.cpp\<close>): adding, updating and
  removing the six kinds of streams, replacing their resources when the interfaces or the PTP clock
  change, resetting the model and inserting the cached streams again. An operation is atomic: all
  of them are called by one thread at a time, and they hold the write lock of the node model while
  they edit it. Logging and \<open>notify()\<close> leave no trace. \<open>T\<close> is the transport file setter
  \<open>set_transportfile\<close>, which composes the SDP text of a sender.
\<close>

section \<open>State\<close>

datatype lifecycle_state = Stopped | Starting | Running | Stopping

record ('v, 'rs) node =
  nd_lifecycle_state :: lifecycle_state
  nd_stop_requested :: bool
  nd_needs_model_reset :: bool
  nd_config_file :: string
  nd_node_id :: string
  nd_device_id :: string
  nd_seed_id :: string
  nd_sender_ids :: "string list"
  nd_receiver_ids :: "string list"
  nd_source_ids :: "string list"
  nd_flow_ids :: "string list"
  nd_runtime_interfaces :: "host_interface list"
  nd_video_senders :: "video_sender list"
  nd_audio_senders :: "audio_sender list"
  nd_ancillary_senders :: "ancillary_sender list"
  nd_video_receivers :: "video_receiver list"
  nd_audio_receivers :: "audio_receiver list"
  nd_ancillary_receivers :: "ancillary_receiver list"
  nd_node_resources :: 'rs
  nd_connection_resources :: 'rs
  nd_settings :: 'v
  nd_shutdown :: bool
  nd_ptp_domain_number :: int32
  nd_thread_joinable :: bool

type_synonym ('v, 'rs, 'a) node_eff = "(('v, 'rs) node, 'a) eff"
text \<open>
  The setter of transport files reads the state of the node; it is run on a sender, its connection and
  the current transport file.
\<close>

type_synonym 'v transportfile_setter = "'v resource \<Rightarrow> 'v resource \<Rightarrow> 'v \<Rightarrow> exc + 'v"
type_synonym ('v, 'rs) transportfile = "('v, 'rs) node \<Rightarrow> 'v transportfile_setter"

definition node_env_of :: "('v, 'rs) node \<Rightarrow> 'v node_env" where
  "node_env_of s =
     \<lparr> ne_seed_id = nd_seed_id s, ne_device_id = nd_device_id s, ne_settings = nd_settings s,
       ne_interfaces = nd_runtime_interfaces s \<rparr>"

text \<open>The two containers the functions take by reference.\<close>

datatype container = Node_resources | Connection_resources

fun resources_of :: "container \<Rightarrow> ('v, 'rs) node \<Rightarrow> 'rs" where
  "resources_of Node_resources s = nd_node_resources s"
| "resources_of Connection_resources s = nd_connection_resources s"

fun set_resources :: "container \<Rightarrow> 'rs \<Rightarrow> ('v, 'rs) node \<Rightarrow> ('v, 'rs) node" where
  "set_resources Node_resources rs s = s\<lparr> nd_node_resources := rs \<rparr>"
| "set_resources Connection_resources rs s = s\<lparr> nd_connection_resources := rs \<rparr>"

section \<open>Resources\<close>

text \<open>
  With a delay of 0 ms the wait for the shutdown condition only tests the flag.
\<close>

definition insert_resource_after ::
    "('v, 'rs, 'y) nmos_lib_scheme \<Rightarrow> container \<Rightarrow> 'v resource \<Rightarrow> ('v, 'rs, bool) node_eff" where
  "insert_resource_after L c r =
     (\<lambda>s. if nd_shutdown s then (Inr False, s)
          else case nl_insert L r (resources_of c s) of (success, rs) \<Rightarrow> (Inr success, set_resources c rs s))"

definition remove_resource_after ::
    "('v, 'rs, 'y) nmos_lib_scheme \<Rightarrow> container \<Rightarrow> string \<Rightarrow> ('v, 'rs, bool) node_eff" where
  "remove_resource_after L c i =
     (\<lambda>s. if nd_shutdown s then (Inr False, s)
          else case nl_erase L i (resources_of c s) of (success, rs) \<Rightarrow> (Inr success, set_resources c rs s))"

definition erase_resource_if_present ::
    "('v, 'rs, 'y) nmos_lib_scheme \<Rightarrow> container \<Rightarrow> string \<Rightarrow> ('v, 'rs, unit) node_eff" where
  "erase_resource_if_present L c i = emod (\<lambda>s. set_resources c (snd (nl_erase L i (resources_of c s))) s)"

definition modify_resource ::
    "('v, 'rs, 'y) nmos_lib_scheme \<Rightarrow> container \<Rightarrow> string \<Rightarrow> ('v resource, unit) eff \<Rightarrow> ('v, 'rs, bool) node_eff" where
  "modify_resource L c i f =
     (\<lambda>s. case nl_modify L i f (resources_of c s) of (q, rs) \<Rightarrow> (q, set_resources c rs s))"

definition update_device_senders ::
    "('v, 'x) json_lib_scheme \<Rightarrow> ('v, 'rs, 'y) nmos_lib_scheme \<Rightarrow> ('v, 'rs, unit) node_eff" where
  "update_device_senders J L =
     ebind (eget (\<lambda>s. (nd_device_id s, nd_sender_ids s))) (\<lambda>(device_id, sender_ids).
     eseq (modify_resource L Node_resources device_id
       (emod (\<lambda>device. device\<lparr> re_data :=
          jassign J (re_data device)
            [(''senders'', jarray_of J (map (jstring J) sender_ids)),
             (''version'', jstring J (nl_version L))] \<rparr>)))
       (eret ()))"

definition update_device_receivers ::
    "('v, 'x) json_lib_scheme \<Rightarrow> ('v, 'rs, 'y) nmos_lib_scheme \<Rightarrow> ('v, 'rs, unit) node_eff" where
  "update_device_receivers J L =
     ebind (eget (\<lambda>s. (nd_device_id s, nd_receiver_ids s))) (\<lambda>(device_id, receiver_ids).
     eseq (modify_resource L Node_resources device_id
       (emod (\<lambda>device. device\<lparr> re_data :=
          jassign J (re_data device)
            [(''receivers'', jarray_of J (map (jstring J) receiver_ids)),
             (''version'', jstring J (nl_version L))] \<rparr>)))
       (eret ()))"

definition replace_resource ::
    "('v, 'rs, 'y) nmos_lib_scheme \<Rightarrow> container \<Rightarrow> 'v resource \<Rightarrow> ('v, 'rs, bool) node_eff" where
  "replace_resource L c replacement = modify_resource L c (re_id replacement) (emod (\<lambda>_. replacement))"

fun replace_cached_by_id :: "('a \<Rightarrow> string) \<Rightarrow> 'a \<Rightarrow> 'a list \<Rightarrow> 'a list" where
  "replace_cached_by_id ident replacement [] = []"
| "replace_cached_by_id ident replacement (stream # streams) =
     (if ident stream = ident replacement then replacement # streams
      else stream # replace_cached_by_id ident replacement streams)"

definition active_leg_count_matches :: "('v, 'x) json_lib_scheme \<Rightarrow> 'v \<Rightarrow> bool \<Rightarrow> bool" where
  "active_leg_count_matches J endpoint_active st2022_7 =
     (if \<not> jis_object J endpoint_active \<or> \<not> jhas_field J endpoint_active ''transport_params'' then False
      else (case jat J endpoint_active ''transport_params'' of
              Inl _ \<Rightarrow> False
            | Inr transport_params \<Rightarrow>
                (case jelems J transport_params of
                   Inl _ \<Rightarrow> False
                 | Inr legs \<Rightarrow> length legs = (if st2022_7 then 2 else 1))))"

text \<open>The active endpoint of the old connection is kept when its number of legs is still right.\<close>

definition keep_active_endpoint :: "('v, 'x) json_lib_scheme \<Rightarrow> bool \<Rightarrow> 'v \<Rightarrow> 'v \<Rightarrow> 'v" where
  "keep_active_endpoint J st2022_7 old new =
     (if jhas_field J old ''endpoint_active'' then
        (case jat J old ''endpoint_active'' of
           Inl _ \<Rightarrow> new
         | Inr endpoint_active \<Rightarrow>
             if active_leg_count_matches J endpoint_active st2022_7
             then jset J new ''endpoint_active'' endpoint_active else new)
      else new)"

text \<open>Running the setter on the transport file of a connection; its exception passes.\<close>

definition apply_transportfile ::
    "('v, 'x) json_lib_scheme \<Rightarrow> 'v transportfile_setter \<Rightarrow> 'v resource \<Rightarrow> ('v resource, unit) eff" where
  "apply_transportfile J set_transportfile sender =
     (\<lambda>connection.
        (case set_transportfile sender connection
                (case jat J (re_data connection) ''endpoint_transportfile'' of Inr v \<Rightarrow> v | Inl _ \<Rightarrow> jnull J) of
           Inl e \<Rightarrow> (Inl e, connection)
         | Inr file \<Rightarrow>
             (Inr (), connection\<lparr> re_data := jset J (re_data connection) ''endpoint_transportfile'' file \<rparr>)))"

definition replace_sender_resources ::
    "('v, 'x) json_lib_scheme \<Rightarrow> ('v, 'rs, 'y) nmos_lib_scheme \<Rightarrow> ('v, 'rs) transportfile \<Rightarrow> string \<Rightarrow>
     'v sender_resources \<Rightarrow> bool \<Rightarrow> ('v, 'rs, unit) node_eff" where
  "replace_sender_resources J L T description resources st2022_7 =
     ebind (replace_resource L Node_resources (sr_source resources)) (\<lambda>source_updated.
     ebind (replace_resource L Node_resources (sr_flow resources)) (\<lambda>flow_updated.
     ebind (replace_resource L Node_resources (sr_sender resources)) (\<lambda>sender_updated.
     if \<not> source_updated \<or> \<not> flow_updated \<or> \<not> sender_updated
     then ethrow (description @ '' resource update failed!'')
     else
       ebind (eget (\<lambda>s. (nl_find L (nd_node_resources s) (re_id (sr_sender resources)) ''sender'', T s)))
         (\<lambda>(found, set_transportfile).
       ebind (modify_resource L Connection_resources (re_id (sr_sender resources))
         (eseq (emod (\<lambda>connection. (sr_connection resources)
                  \<lparr> re_data := keep_active_endpoint J st2022_7 (re_data connection) (re_data (sr_connection resources)) \<rparr>))
               (case found of
                  None \<Rightarrow> ethrow (description @ '' sender transportfile update failed!'')
                | Some sender \<Rightarrow> apply_transportfile J set_transportfile sender))) (\<lambda>connection_updated.
       if \<not> connection_updated then ethrow (description @ '' connection update failed!'')
       else eret ())))))"

definition replace_receiver_resources ::
    "('v, 'x) json_lib_scheme \<Rightarrow> ('v, 'rs, 'y) nmos_lib_scheme \<Rightarrow> string \<Rightarrow>
     'v receiver_resources \<Rightarrow> bool \<Rightarrow> ('v, 'rs, unit) node_eff" where
  "replace_receiver_resources J L description resources st2022_7 =
     ebind (replace_resource L Node_resources (rr_receiver resources)) (\<lambda>receiver_updated.
     if \<not> receiver_updated then ethrow (description @ '' resource update failed!'')
     else
       ebind (modify_resource L Connection_resources (re_id (rr_receiver resources))
         (emod (\<lambda>connection. (rr_connection resources)
            \<lparr> re_data := keep_active_endpoint J st2022_7 (re_data connection) (re_data (rr_connection resources)) \<rparr>)))
         (\<lambda>connection_updated.
       if \<not> connection_updated then ethrow (description @ '' connection update failed!'')
       else eret ()))"

section \<open>Senders\<close>

text \<open>
  The bodies shared by the three kinds of senders. The arguments are what differs: the resources
  made, the four error texts, what is erased first, and the cache of the kind.
\<close>

definition erase_sender_resources ::
    "('v, 'rs, 'y) nmos_lib_scheme \<Rightarrow> 'v sender_resources \<Rightarrow> ('v, 'rs, unit) node_eff" where
  "erase_sender_resources L resources =
     eseq (erase_resource_if_present L Connection_resources (re_id (sr_sender resources)))
    (eseq (erase_resource_if_present L Node_resources (re_id (sr_sender resources)))
    (eseq (erase_resource_if_present L Node_resources (re_id (sr_flow resources)))
          (erase_resource_if_present L Node_resources (re_id (sr_source resources)))))"

definition insert_sender_resources ::
    "('v, 'rs, 'y) nmos_lib_scheme \<Rightarrow> string \<Rightarrow> string \<Rightarrow> string \<Rightarrow> string \<Rightarrow>
     'v sender_resources \<Rightarrow> ('v, 'rs, unit) node_eff" where
  "insert_sender_resources L source_text flow_text sender_text connection_text resources =
     ebind (insert_resource_after L Node_resources (sr_source resources)) (\<lambda>ok1.
     if \<not> ok1 then ethrow source_text else
     ebind (insert_resource_after L Node_resources (sr_flow resources)) (\<lambda>ok2.
     if \<not> ok2 then
       eseq (erase_resource_if_present L Node_resources (re_id (sr_source resources)))
            (ethrow flow_text)
     else
     ebind (insert_resource_after L Node_resources (sr_sender resources)) (\<lambda>ok3.
     if \<not> ok3 then
       eseq (erase_resource_if_present L Node_resources (re_id (sr_flow resources)))
      (eseq (erase_resource_if_present L Node_resources (re_id (sr_source resources)))
            (ethrow sender_text))
     else
     ebind (insert_resource_after L Connection_resources (sr_connection resources)) (\<lambda>ok4.
     if \<not> ok4 then
       eseq (erase_resource_if_present L Node_resources (re_id (sr_sender resources)))
      (eseq (erase_resource_if_present L Node_resources (re_id (sr_flow resources)))
      (eseq (erase_resource_if_present L Node_resources (re_id (sr_source resources)))
            (ethrow connection_text)))
     else eret ()))))"

definition add_new_sender ::
    "('v, 'x) json_lib_scheme \<Rightarrow> ('v, 'rs, 'y) nmos_lib_scheme \<Rightarrow>
     ('v node_env \<Rightarrow> exc + 'v sender_resources) \<Rightarrow> ('v sender_resources \<Rightarrow> ('v, 'rs, unit) node_eff) \<Rightarrow>
     ('v sender_resources \<Rightarrow> ('v, 'rs, unit) node_eff) \<Rightarrow>
     (string \<Rightarrow> ('v, 'rs) node \<Rightarrow> ('v, 'rs) node) \<Rightarrow> ('v, 'rs, unit) node_eff" where
  "add_new_sender J L build erase_first insert_resources cache =
     ebind (eget (\<lambda>s. build (node_env_of s))) (\<lambda>made.
     ebind (elift made) (\<lambda>resources.
     eseq (erase_first resources)
    (eseq (insert_resources resources)
    (eseq (emod (cache (re_id (sr_sender resources))))
    (eseq (emod (\<lambda>s. s\<lparr> nd_sender_ids := nd_sender_ids s @ [re_id (sr_sender resources)],
                         nd_source_ids := nd_source_ids s @ [re_id (sr_source resources)],
                         nd_flow_ids := nd_flow_ids s @ [re_id (sr_flow resources)] \<rparr>))
          (update_device_senders J L))))))"

definition update_existing_sender ::
    "('v, 'x) json_lib_scheme \<Rightarrow> ('v, 'rs, 'y) nmos_lib_scheme \<Rightarrow> ('v, 'rs) transportfile \<Rightarrow> string \<Rightarrow> bool \<Rightarrow>
     ('v node_env \<Rightarrow> exc + 'v sender_resources) \<Rightarrow>
     (('v, 'rs) node \<Rightarrow> ('v, 'rs) node) \<Rightarrow> ('v, 'rs, unit) node_eff" where
  "update_existing_sender J L T description st2022_7 build cache =
     ebind (eget (\<lambda>s. build (node_env_of s))) (\<lambda>made.
     ebind (elift made) (\<lambda>resources.
     eseq (replace_sender_resources J L T description resources st2022_7)
          (emod cache)))"

definition remove_existing_sender ::
    "('v, 'x) json_lib_scheme \<Rightarrow> ('v, 'rs, 'y) nmos_lib_scheme \<Rightarrow> string \<Rightarrow> string \<Rightarrow>
     (string \<Rightarrow> ('v, 'rs) node \<Rightarrow> ('v, 'rs) node) \<Rightarrow> ('v, 'rs, unit) node_eff" where
  "remove_existing_sender J L port i uncache =
     ebind (eget (\<lambda>s. (make_id L (nd_seed_id s) ''source'' port i, make_id L (nd_seed_id s) ''flow'' port i,
                       make_id L (nd_seed_id s) ''sender'' port i))) (\<lambda>(source_id, flow_id, sender_id).
     eseq (remove_resource_after L Node_resources sender_id)
    (eseq (remove_resource_after L Connection_resources sender_id)
    (eseq (remove_resource_after L Node_resources source_id)
    (eseq (remove_resource_after L Node_resources flow_id)
    (eseq (emod (uncache sender_id))
    (eseq (emod (\<lambda>s. s\<lparr> nd_sender_ids := remove1 sender_id (nd_sender_ids s),
                         nd_source_ids := remove1 source_id (nd_source_ids s),
                         nd_flow_ids := remove1 flow_id (nd_flow_ids s) \<rparr>))
          (update_device_senders J L)))))))"

text \<open>
  \<open>add\<close> and \<open>update\<close> of a kind call each other depending on whether the stream is cached. The test
  of the callee gives the same answer as the one of the caller, so each is a choice between the two
  bodies.
\<close>

definition find_by_id :: "('a \<Rightarrow> string) \<Rightarrow> 'a list \<Rightarrow> string \<Rightarrow> 'a option" where
  "find_by_id ident streams i = List.find (\<lambda>x. ident x = i) streams"

text \<open>The look-ups in the caches; a stream that is not there is the null pointer of the code.\<close>

definition find_video_sender_by_id :: "string \<Rightarrow> ('v, 'rs) node \<Rightarrow> video_sender option" where
  "find_video_sender_by_id i s = find_by_id vs_id (nd_video_senders s) i"

definition find_video_sender_by_sender_id :: "string \<Rightarrow> ('v, 'rs) node \<Rightarrow> video_sender option" where
  "find_video_sender_by_sender_id i s = List.find (\<lambda>v. vs_sender_id v = i) (nd_video_senders s)"

definition remove_video_sender_by_sender_id :: "string \<Rightarrow> ('v, 'rs) node \<Rightarrow> ('v, 'rs) node" where
  "remove_video_sender_by_sender_id i s = s\<lparr> nd_video_senders := filter (\<lambda>v. vs_sender_id v \<noteq> i) (nd_video_senders s) \<rparr>"

definition find_audio_sender_by_id :: "string \<Rightarrow> ('v, 'rs) node \<Rightarrow> audio_sender option" where
  "find_audio_sender_by_id i s = find_by_id as_id (nd_audio_senders s) i"

definition find_audio_sender_by_sender_id :: "string \<Rightarrow> ('v, 'rs) node \<Rightarrow> audio_sender option" where
  "find_audio_sender_by_sender_id i s = List.find (\<lambda>v. as_sender_id v = i) (nd_audio_senders s)"

definition remove_audio_sender_by_sender_id :: "string \<Rightarrow> ('v, 'rs) node \<Rightarrow> ('v, 'rs) node" where
  "remove_audio_sender_by_sender_id i s = s\<lparr> nd_audio_senders := filter (\<lambda>v. as_sender_id v \<noteq> i) (nd_audio_senders s) \<rparr>"

definition find_ancillary_sender_by_id :: "string \<Rightarrow> ('v, 'rs) node \<Rightarrow> ancillary_sender option" where
  "find_ancillary_sender_by_id i s = find_by_id ns_id (nd_ancillary_senders s) i"

definition find_ancillary_sender_by_sender_id :: "string \<Rightarrow> ('v, 'rs) node \<Rightarrow> ancillary_sender option" where
  "find_ancillary_sender_by_sender_id i s = List.find (\<lambda>v. ns_sender_id v = i) (nd_ancillary_senders s)"

definition remove_ancillary_sender_by_sender_id :: "string \<Rightarrow> ('v, 'rs) node \<Rightarrow> ('v, 'rs) node" where
  "remove_ancillary_sender_by_sender_id i s = s\<lparr> nd_ancillary_senders := filter (\<lambda>v. ns_sender_id v \<noteq> i) (nd_ancillary_senders s) \<rparr>"

definition make_video_receiver_resource_id :: "('v, 'rs, 'y) nmos_lib_scheme \<Rightarrow> string \<Rightarrow> ('v, 'rs) node \<Rightarrow> string" where
  "make_video_receiver_resource_id L i s = make_id L (nd_seed_id s) ''receiver'' port_video i"

definition find_video_receiver_by_id :: "string \<Rightarrow> ('v, 'rs) node \<Rightarrow> video_receiver option" where
  "find_video_receiver_by_id i s = find_by_id vr_id (nd_video_receivers s) i"

definition find_video_receiver_by_resource_id :: "('v, 'rs, 'y) nmos_lib_scheme \<Rightarrow> string \<Rightarrow> ('v, 'rs) node \<Rightarrow> video_receiver option" where
  "find_video_receiver_by_resource_id L i s =
     List.find (\<lambda>v. make_video_receiver_resource_id L (vr_id v) s = i) (nd_video_receivers s)"

definition remove_video_receiver_by_id :: "string \<Rightarrow> ('v, 'rs) node \<Rightarrow> ('v, 'rs) node" where
  "remove_video_receiver_by_id i s = s\<lparr> nd_video_receivers := filter (\<lambda>r. vr_id r \<noteq> i) (nd_video_receivers s) \<rparr>"

definition make_audio_receiver_resource_id :: "('v, 'rs, 'y) nmos_lib_scheme \<Rightarrow> string \<Rightarrow> ('v, 'rs) node \<Rightarrow> string" where
  "make_audio_receiver_resource_id L i s = make_id L (nd_seed_id s) ''receiver'' port_audio i"

definition find_audio_receiver_by_id :: "string \<Rightarrow> ('v, 'rs) node \<Rightarrow> audio_receiver option" where
  "find_audio_receiver_by_id i s = find_by_id ar_id (nd_audio_receivers s) i"

definition find_audio_receiver_by_resource_id :: "('v, 'rs, 'y) nmos_lib_scheme \<Rightarrow> string \<Rightarrow> ('v, 'rs) node \<Rightarrow> audio_receiver option" where
  "find_audio_receiver_by_resource_id L i s =
     List.find (\<lambda>v. make_audio_receiver_resource_id L (ar_id v) s = i) (nd_audio_receivers s)"

definition remove_audio_receiver_by_id :: "string \<Rightarrow> ('v, 'rs) node \<Rightarrow> ('v, 'rs) node" where
  "remove_audio_receiver_by_id i s = s\<lparr> nd_audio_receivers := filter (\<lambda>r. ar_id r \<noteq> i) (nd_audio_receivers s) \<rparr>"

definition make_ancillary_receiver_resource_id :: "('v, 'rs, 'y) nmos_lib_scheme \<Rightarrow> string \<Rightarrow> ('v, 'rs) node \<Rightarrow> string" where
  "make_ancillary_receiver_resource_id L i s = make_id L (nd_seed_id s) ''receiver'' port_data i"

definition find_ancillary_receiver_by_id :: "string \<Rightarrow> ('v, 'rs) node \<Rightarrow> ancillary_receiver option" where
  "find_ancillary_receiver_by_id i s = find_by_id nr_id (nd_ancillary_receivers s) i"

definition find_ancillary_receiver_by_resource_id :: "('v, 'rs, 'y) nmos_lib_scheme \<Rightarrow> string \<Rightarrow> ('v, 'rs) node \<Rightarrow> ancillary_receiver option" where
  "find_ancillary_receiver_by_resource_id L i s =
     List.find (\<lambda>v. make_ancillary_receiver_resource_id L (nr_id v) s = i) (nd_ancillary_receivers s)"

definition remove_ancillary_receiver_by_id :: "string \<Rightarrow> ('v, 'rs) node \<Rightarrow> ('v, 'rs) node" where
  "remove_ancillary_receiver_by_id i s = s\<lparr> nd_ancillary_receivers := filter (\<lambda>r. nr_id r \<noteq> i) (nd_ancillary_receivers s) \<rparr>"

lemmas find_by_id_defs =
  find_video_sender_by_id_def find_video_receiver_by_id_def
  find_audio_sender_by_id_def find_audio_receiver_by_id_def
  find_ancillary_sender_by_id_def find_ancillary_receiver_by_id_def

lemmas find_resource_defs =
  find_video_sender_by_sender_id_def find_video_receiver_by_resource_id_def make_video_receiver_resource_id_def
  find_audio_sender_by_sender_id_def find_audio_receiver_by_resource_id_def make_audio_receiver_resource_id_def
  find_ancillary_sender_by_sender_id_def find_ancillary_receiver_by_resource_id_def make_ancillary_receiver_resource_id_def

lemmas uncache_defs =
  remove_video_sender_by_sender_id_def [abs_def] remove_video_receiver_by_id_def [abs_def]
  remove_audio_sender_by_sender_id_def [abs_def] remove_audio_receiver_by_id_def [abs_def]
  remove_ancillary_sender_by_sender_id_def [abs_def] remove_ancillary_receiver_by_id_def [abs_def]

definition ewhen_cached ::
    "(('v, 'rs) node \<Rightarrow> 'a option) \<Rightarrow> ('v, 'rs, unit) node_eff \<Rightarrow>
     ('v, 'rs, unit) node_eff \<Rightarrow> ('v, 'rs, unit) node_eff" where
  "ewhen_cached found cached not_cached = (\<lambda>s. if found s \<noteq> None then cached s else not_cached s)"

definition add_new_video_sender ::
    "('v, 'x) json_lib_scheme \<Rightarrow> ('v, 'rs, 'y) nmos_lib_scheme \<Rightarrow> video_sender \<Rightarrow> ('v, 'rs, unit) node_eff" where
  "add_new_video_sender J L video =
     add_new_sender J L (\<lambda>env. make_video_sender_resources J L env video)
       (erase_sender_resources L)
       (insert_sender_resources L ''add video sender source failed!'' ''add video sender flow failed!''
          ''add video sender failed!'' ''add video sender connection failed!'')
       (\<lambda>sender_id s. s\<lparr> nd_video_senders := nd_video_senders s @ [video\<lparr> vs_sender_id := sender_id \<rparr>] \<rparr>)"

definition update_existing_video_sender ::
    "('v, 'x) json_lib_scheme \<Rightarrow> ('v, 'rs, 'y) nmos_lib_scheme \<Rightarrow> ('v, 'rs) transportfile \<Rightarrow> video_sender \<Rightarrow>
     ('v, 'rs, unit) node_eff" where
  "update_existing_video_sender J L T video =
     update_existing_sender J L T ''update video sender'' (rd_present (vs_redudancy video))
       (\<lambda>env. make_video_sender_resources J L env video)
       (\<lambda>s. s\<lparr> nd_video_senders := replace_cached_by_id vs_id
                 (video\<lparr> vs_sender_id := make_id L (nd_seed_id s) ''sender'' port_video (vs_id video) \<rparr>)
                 (nd_video_senders s) \<rparr>)"

definition add_video_sender ::
    "('v, 'x) json_lib_scheme \<Rightarrow> ('v, 'rs, 'y) nmos_lib_scheme \<Rightarrow> ('v, 'rs) transportfile \<Rightarrow> video_sender \<Rightarrow>
     ('v, 'rs, unit) node_eff" where
  "add_video_sender J L T video =
     ewhen_cached (find_video_sender_by_id (vs_id video))
       (update_existing_video_sender J L T video) (add_new_video_sender J L video)"

definition update_video_sender ::
    "('v, 'x) json_lib_scheme \<Rightarrow> ('v, 'rs, 'y) nmos_lib_scheme \<Rightarrow> ('v, 'rs) transportfile \<Rightarrow> video_sender \<Rightarrow>
     ('v, 'rs, unit) node_eff" where
  "update_video_sender J L T video =
     ewhen_cached (find_video_sender_by_id (vs_id video))
       (update_existing_video_sender J L T video) (add_new_video_sender J L video)"

definition remove_video_sender ::
    "('v, 'x) json_lib_scheme \<Rightarrow> ('v, 'rs, 'y) nmos_lib_scheme \<Rightarrow> string \<Rightarrow> ('v, 'rs, unit) node_eff" where
  "remove_video_sender J L i =
     ewhen_cached (find_video_sender_by_id i)
       (remove_existing_sender J L port_video i remove_video_sender_by_sender_id)
       (eret ())"

definition add_new_audio_sender ::
    "('v, 'x) json_lib_scheme \<Rightarrow> ('v, 'rs, 'y) nmos_lib_scheme \<Rightarrow> audio_sender \<Rightarrow> ('v, 'rs, unit) node_eff" where
  "add_new_audio_sender J L audio =
     add_new_sender J L (\<lambda>env. make_audio_sender_resources J L env audio)
       (\<lambda>resources. eseq (erase_sender_resources L resources) (erase_sender_resources L resources))
       (insert_sender_resources L ''add audio sender source failed!'' ''add audio sender flow failed!''
          ''insert audio sender failed!'' ''insert audio connection sender failed!'')
       (\<lambda>sender_id s. s\<lparr> nd_audio_senders := nd_audio_senders s @ [audio\<lparr> as_sender_id := sender_id \<rparr>] \<rparr>)"

definition update_existing_audio_sender ::
    "('v, 'x) json_lib_scheme \<Rightarrow> ('v, 'rs, 'y) nmos_lib_scheme \<Rightarrow> ('v, 'rs) transportfile \<Rightarrow> audio_sender \<Rightarrow>
     ('v, 'rs, unit) node_eff" where
  "update_existing_audio_sender J L T audio =
     update_existing_sender J L T ''update audio sender'' (rd_present (as_redudancy audio))
       (\<lambda>env. make_audio_sender_resources J L env audio)
       (\<lambda>s. s\<lparr> nd_audio_senders := replace_cached_by_id as_id
                 (audio\<lparr> as_sender_id := make_id L (nd_seed_id s) ''sender'' port_audio (as_id audio) \<rparr>)
                 (nd_audio_senders s) \<rparr>)"

definition add_audio_sender ::
    "('v, 'x) json_lib_scheme \<Rightarrow> ('v, 'rs, 'y) nmos_lib_scheme \<Rightarrow> ('v, 'rs) transportfile \<Rightarrow> audio_sender \<Rightarrow>
     ('v, 'rs, unit) node_eff" where
  "add_audio_sender J L T audio =
     ewhen_cached (find_audio_sender_by_id (as_id audio))
       (update_existing_audio_sender J L T audio) (add_new_audio_sender J L audio)"

definition update_audio_sender ::
    "('v, 'x) json_lib_scheme \<Rightarrow> ('v, 'rs, 'y) nmos_lib_scheme \<Rightarrow> ('v, 'rs) transportfile \<Rightarrow> audio_sender \<Rightarrow>
     ('v, 'rs, unit) node_eff" where
  "update_audio_sender J L T audio =
     ewhen_cached (find_audio_sender_by_id (as_id audio))
       (update_existing_audio_sender J L T audio) (add_new_audio_sender J L audio)"

definition remove_audio_sender ::
    "('v, 'x) json_lib_scheme \<Rightarrow> ('v, 'rs, 'y) nmos_lib_scheme \<Rightarrow> string \<Rightarrow> ('v, 'rs, unit) node_eff" where
  "remove_audio_sender J L i =
     ewhen_cached (find_audio_sender_by_id i)
       (remove_existing_sender J L port_audio i remove_audio_sender_by_sender_id)
       (eret ())"

text \<open>The ancillary sender is inserted without erasing resources that may be left.\<close>

definition add_new_ancillary_sender ::
    "('v, 'x) json_lib_scheme \<Rightarrow> ('v, 'rs, 'y) nmos_lib_scheme \<Rightarrow> ancillary_sender \<Rightarrow> ('v, 'rs, unit) node_eff" where
  "add_new_ancillary_sender J L ancillary =
     add_new_sender J L (\<lambda>env. make_ancillary_sender_resources J L env ancillary)
       (\<lambda>_. eret ())
       (insert_sender_resources L '' add ancillary sender source failed!'' ''add ancillary sender flow failed!''
          ''add ancillary sender failed!'' ''add ancillary sender connection failed!'')
       (\<lambda>sender_id s. s\<lparr> nd_ancillary_senders :=
           nd_ancillary_senders s @ [ancillary\<lparr> ns_sender_id := sender_id \<rparr>] \<rparr>)"

definition update_existing_ancillary_sender ::
    "('v, 'x) json_lib_scheme \<Rightarrow> ('v, 'rs, 'y) nmos_lib_scheme \<Rightarrow> ('v, 'rs) transportfile \<Rightarrow> ancillary_sender \<Rightarrow>
     ('v, 'rs, unit) node_eff" where
  "update_existing_ancillary_sender J L T ancillary =
     update_existing_sender J L T ''update ancillary sender'' (rd_present (ns_redudancy ancillary))
       (\<lambda>env. make_ancillary_sender_resources J L env ancillary)
       (\<lambda>s. s\<lparr> nd_ancillary_senders := replace_cached_by_id ns_id
                 (ancillary\<lparr> ns_sender_id := make_id L (nd_seed_id s) ''sender'' port_data (ns_id ancillary) \<rparr>)
                 (nd_ancillary_senders s) \<rparr>)"

definition add_ancillary_sender ::
    "('v, 'x) json_lib_scheme \<Rightarrow> ('v, 'rs, 'y) nmos_lib_scheme \<Rightarrow> ('v, 'rs) transportfile \<Rightarrow> ancillary_sender \<Rightarrow>
     ('v, 'rs, unit) node_eff" where
  "add_ancillary_sender J L T ancillary =
     ewhen_cached (find_ancillary_sender_by_id (ns_id ancillary))
       (update_existing_ancillary_sender J L T ancillary) (add_new_ancillary_sender J L ancillary)"

definition update_ancillary_sender ::
    "('v, 'x) json_lib_scheme \<Rightarrow> ('v, 'rs, 'y) nmos_lib_scheme \<Rightarrow> ('v, 'rs) transportfile \<Rightarrow> ancillary_sender \<Rightarrow>
     ('v, 'rs, unit) node_eff" where
  "update_ancillary_sender J L T ancillary =
     ewhen_cached (find_ancillary_sender_by_id (ns_id ancillary))
       (update_existing_ancillary_sender J L T ancillary) (add_new_ancillary_sender J L ancillary)"

definition remove_ancillary_sender ::
    "('v, 'x) json_lib_scheme \<Rightarrow> ('v, 'rs, 'y) nmos_lib_scheme \<Rightarrow> string \<Rightarrow> ('v, 'rs, unit) node_eff" where
  "remove_ancillary_sender J L i =
     ewhen_cached (find_ancillary_sender_by_id i)
       (remove_existing_sender J L port_data i remove_ancillary_sender_by_sender_id)
       (eret ())"

section \<open>Receivers\<close>

definition add_new_receiver ::
    "('v, 'x) json_lib_scheme \<Rightarrow> ('v, 'rs, 'y) nmos_lib_scheme \<Rightarrow>
     ('v node_env \<Rightarrow> exc + 'v receiver_resources) \<Rightarrow> string \<Rightarrow> string \<Rightarrow>
     (('v, 'rs) node \<Rightarrow> ('v, 'rs) node) \<Rightarrow> ('v, 'rs, unit) node_eff" where
  "add_new_receiver J L build receiver_text connection_text cache =
     ebind (eget (\<lambda>s. build (node_env_of s))) (\<lambda>made.
     ebind (elift made) (\<lambda>resources.
     eseq (erase_resource_if_present L Connection_resources (re_id (rr_receiver resources)))
    (eseq (erase_resource_if_present L Node_resources (re_id (rr_receiver resources)))
    (ebind (insert_resource_after L Node_resources (rr_receiver resources)) (\<lambda>ok1.
     if \<not> ok1 then ethrow receiver_text else
     ebind (insert_resource_after L Connection_resources (rr_connection resources)) (\<lambda>ok2.
     if \<not> ok2 then
       eseq (erase_resource_if_present L Node_resources (re_id (rr_receiver resources)))
            (ethrow connection_text)
     else
       eseq (emod cache)
      (eseq (emod (\<lambda>s. s\<lparr> nd_receiver_ids := nd_receiver_ids s @ [re_id (rr_receiver resources)] \<rparr>))
            (update_device_receivers J L))))))))"

definition update_existing_receiver ::
    "('v, 'x) json_lib_scheme \<Rightarrow> ('v, 'rs, 'y) nmos_lib_scheme \<Rightarrow> string \<Rightarrow> bool \<Rightarrow>
     ('v node_env \<Rightarrow> exc + 'v receiver_resources) \<Rightarrow>
     (('v, 'rs) node \<Rightarrow> ('v, 'rs) node) \<Rightarrow> ('v, 'rs, unit) node_eff" where
  "update_existing_receiver J L description st2022_7 build cache =
     ebind (eget (\<lambda>s. build (node_env_of s))) (\<lambda>made.
     ebind (elift made) (\<lambda>resources.
     eseq (replace_receiver_resources J L description resources st2022_7)
          (emod cache)))"

definition remove_existing_receiver ::
    "('v, 'x) json_lib_scheme \<Rightarrow> ('v, 'rs, 'y) nmos_lib_scheme \<Rightarrow> string \<Rightarrow> string \<Rightarrow>
     (('v, 'rs) node \<Rightarrow> ('v, 'rs) node) \<Rightarrow> ('v, 'rs, unit) node_eff" where
  "remove_existing_receiver J L port i uncache =
     ebind (eget (\<lambda>s. make_id L (nd_seed_id s) ''receiver'' port i)) (\<lambda>receiver_id.
     eseq (emod (\<lambda>s. s\<lparr> nd_receiver_ids := remove1 receiver_id (nd_receiver_ids s) \<rparr>))
    (eseq (update_device_receivers J L)
    (eseq (remove_resource_after L Connection_resources receiver_id)
    (eseq (remove_resource_after L Node_resources receiver_id)
          (emod uncache)))))"

definition add_new_video_receiver ::
    "('v, 'x) json_lib_scheme \<Rightarrow> ('v, 'rs, 'y) nmos_lib_scheme \<Rightarrow> video_receiver \<Rightarrow> ('v, 'rs, unit) node_eff" where
  "add_new_video_receiver J L video =
     add_new_receiver J L (\<lambda>env. make_video_receiver_resources J L env video)
       ''insert video receiver failed!'' ''insert video connection receiver failed!''
       (\<lambda>s. s\<lparr> nd_video_receivers := nd_video_receivers s @ [video] \<rparr>)"

definition update_existing_video_receiver ::
    "('v, 'x) json_lib_scheme \<Rightarrow> ('v, 'rs, 'y) nmos_lib_scheme \<Rightarrow> video_receiver \<Rightarrow> ('v, 'rs, unit) node_eff" where
  "update_existing_video_receiver J L video =
     update_existing_receiver J L ''update video receiver'' (rd_present (vr_redudancy video))
       (\<lambda>env. make_video_receiver_resources J L env video)
       (\<lambda>s. s\<lparr> nd_video_receivers := replace_cached_by_id vr_id video (nd_video_receivers s) \<rparr>)"

definition add_video_receiver ::
    "('v, 'x) json_lib_scheme \<Rightarrow> ('v, 'rs, 'y) nmos_lib_scheme \<Rightarrow> video_receiver \<Rightarrow> ('v, 'rs, unit) node_eff" where
  "add_video_receiver J L video =
     ewhen_cached (find_video_receiver_by_id (vr_id video))
       (update_existing_video_receiver J L video) (add_new_video_receiver J L video)"

definition update_video_receiver ::
    "('v, 'x) json_lib_scheme \<Rightarrow> ('v, 'rs, 'y) nmos_lib_scheme \<Rightarrow> video_receiver \<Rightarrow> ('v, 'rs, unit) node_eff" where
  "update_video_receiver J L video =
     ewhen_cached (find_video_receiver_by_id (vr_id video))
       (update_existing_video_receiver J L video) (add_new_video_receiver J L video)"

definition remove_video_receiver ::
    "('v, 'x) json_lib_scheme \<Rightarrow> ('v, 'rs, 'y) nmos_lib_scheme \<Rightarrow> string \<Rightarrow> ('v, 'rs, unit) node_eff" where
  "remove_video_receiver J L i =
     ewhen_cached (find_video_receiver_by_id i)
       (remove_existing_receiver J L port_video i (remove_video_receiver_by_id i))
       (eret ())"

definition add_new_audio_receiver ::
    "('v, 'x) json_lib_scheme \<Rightarrow> ('v, 'rs, 'y) nmos_lib_scheme \<Rightarrow> audio_receiver \<Rightarrow> ('v, 'rs, unit) node_eff" where
  "add_new_audio_receiver J L audio =
     add_new_receiver J L (\<lambda>env. make_audio_receiver_resources J L env audio)
       ''add audio receiver failed!'' ''add audio receiver connection failed!''
       (\<lambda>s. s\<lparr> nd_audio_receivers := nd_audio_receivers s @ [audio] \<rparr>)"

definition update_existing_audio_receiver ::
    "('v, 'x) json_lib_scheme \<Rightarrow> ('v, 'rs, 'y) nmos_lib_scheme \<Rightarrow> audio_receiver \<Rightarrow> ('v, 'rs, unit) node_eff" where
  "update_existing_audio_receiver J L audio =
     update_existing_receiver J L ''update audio receiver'' (rd_present (ar_redudancy audio))
       (\<lambda>env. make_audio_receiver_resources J L env audio)
       (\<lambda>s. s\<lparr> nd_audio_receivers := replace_cached_by_id ar_id audio (nd_audio_receivers s) \<rparr>)"

definition add_audio_receiver ::
    "('v, 'x) json_lib_scheme \<Rightarrow> ('v, 'rs, 'y) nmos_lib_scheme \<Rightarrow> audio_receiver \<Rightarrow> ('v, 'rs, unit) node_eff" where
  "add_audio_receiver J L audio =
     ewhen_cached (find_audio_receiver_by_id (ar_id audio))
       (update_existing_audio_receiver J L audio) (add_new_audio_receiver J L audio)"

definition update_audio_receiver ::
    "('v, 'x) json_lib_scheme \<Rightarrow> ('v, 'rs, 'y) nmos_lib_scheme \<Rightarrow> audio_receiver \<Rightarrow> ('v, 'rs, unit) node_eff" where
  "update_audio_receiver J L audio =
     ewhen_cached (find_audio_receiver_by_id (ar_id audio))
       (update_existing_audio_receiver J L audio) (add_new_audio_receiver J L audio)"

definition remove_audio_receiver ::
    "('v, 'x) json_lib_scheme \<Rightarrow> ('v, 'rs, 'y) nmos_lib_scheme \<Rightarrow> string \<Rightarrow> ('v, 'rs, unit) node_eff" where
  "remove_audio_receiver J L i =
     ewhen_cached (find_audio_receiver_by_id i)
       (remove_existing_receiver J L port_audio i (remove_audio_receiver_by_id i))
       (eret ())"

definition add_new_ancillary_receiver ::
    "('v, 'x) json_lib_scheme \<Rightarrow> ('v, 'rs, 'y) nmos_lib_scheme \<Rightarrow> ancillary_receiver \<Rightarrow> ('v, 'rs, unit) node_eff" where
  "add_new_ancillary_receiver J L ancillary =
     add_new_receiver J L (\<lambda>env. make_ancillary_receiver_resources J L env ancillary)
       ''add ancillary receiver failed!'' ''add ancillary receiver connection failed!''
       (\<lambda>s. s\<lparr> nd_ancillary_receivers := nd_ancillary_receivers s @ [ancillary] \<rparr>)"

definition update_existing_ancillary_receiver ::
    "('v, 'x) json_lib_scheme \<Rightarrow> ('v, 'rs, 'y) nmos_lib_scheme \<Rightarrow> ancillary_receiver \<Rightarrow> ('v, 'rs, unit) node_eff" where
  "update_existing_ancillary_receiver J L ancillary =
     update_existing_receiver J L ''update ancillary receiver'' (rd_present (nr_redudancy ancillary))
       (\<lambda>env. make_ancillary_receiver_resources J L env ancillary)
       (\<lambda>s. s\<lparr> nd_ancillary_receivers := replace_cached_by_id nr_id ancillary (nd_ancillary_receivers s) \<rparr>)"

definition add_ancillary_receiver ::
    "('v, 'x) json_lib_scheme \<Rightarrow> ('v, 'rs, 'y) nmos_lib_scheme \<Rightarrow> ancillary_receiver \<Rightarrow> ('v, 'rs, unit) node_eff" where
  "add_ancillary_receiver J L ancillary =
     ewhen_cached (find_ancillary_receiver_by_id (nr_id ancillary))
       (update_existing_ancillary_receiver J L ancillary) (add_new_ancillary_receiver J L ancillary)"

definition update_ancillary_receiver ::
    "('v, 'x) json_lib_scheme \<Rightarrow> ('v, 'rs, 'y) nmos_lib_scheme \<Rightarrow> ancillary_receiver \<Rightarrow> ('v, 'rs, unit) node_eff" where
  "update_ancillary_receiver J L ancillary =
     ewhen_cached (find_ancillary_receiver_by_id (nr_id ancillary))
       (update_existing_ancillary_receiver J L ancillary) (add_new_ancillary_receiver J L ancillary)"

definition remove_ancillary_receiver ::
    "('v, 'x) json_lib_scheme \<Rightarrow> ('v, 'rs, 'y) nmos_lib_scheme \<Rightarrow> string \<Rightarrow> ('v, 'rs, unit) node_eff" where
  "remove_ancillary_receiver J L i =
     ewhen_cached (find_ancillary_receiver_by_id i)
       (remove_existing_receiver J L port_data i (remove_ancillary_receiver_by_id i))
       (eret ())"

section \<open>The whole node\<close>

text \<open>
  The loop that runs the setter again for every sender of the node; the connection of a sender that
  has no resource is skipped, and \<open>modify_resource\<close> ignores a connection that is missing.
\<close>

definition refresh_transportfiles ::
    "('v, 'x) json_lib_scheme \<Rightarrow> ('v, 'rs, 'y) nmos_lib_scheme \<Rightarrow> ('v, 'rs) transportfile \<Rightarrow> ('v, 'rs, unit) node_eff" where
  "refresh_transportfiles J L T =
     ebind (eget nd_sender_ids) (\<lambda>sender_ids.
     eforeach (\<lambda>sender_id.
       ebind (eget (\<lambda>s. (nl_find L (nd_node_resources s) sender_id ''sender'', T s))) (\<lambda>(found, set_transportfile).
       case found of None \<Rightarrow> eret ()
       | Some sender \<Rightarrow>
           eseq (modify_resource L Connection_resources sender_id (apply_transportfile J set_transportfile sender)) (eret ())))
       sender_ids)"

definition set_ptp_clock ::
    "('v, 'x) json_lib_scheme \<Rightarrow> ('v, 'rs, 'y) nmos_lib_scheme \<Rightarrow> ('v, 'rs) transportfile \<Rightarrow>
     string \<Rightarrow> bool \<Rightarrow> int32 \<Rightarrow> ('v, 'rs, unit) node_eff" where
  "set_ptp_clock J L T gmid locked ptp_domain =
     (let normalized_gmid = normalize_ptp_gmid gmid in
      eseq (emod (\<lambda>s. s\<lparr> nd_ptp_domain_number :=
              (if 0 \<le> sint ptp_domain \<and> sint ptp_domain \<le> 127 then ptp_domain else 127) \<rparr>))
     (eseq (if is_valid_ptp_gmid normalized_gmid
            then ebind (eget nd_node_id) (\<lambda>node_id.
                 eseq (modify_resource L Node_resources node_id
                   (emod (\<lambda>node. node\<lparr> re_data := jset J (re_data node) ''clocks''
                      (jarray_of J [nl_ptp_clock L normalized_gmid locked]) \<rparr>))) (eret ()))
            else eret ())
           (refresh_transportfiles J L T)))"

definition set_runtime_interfaces ::
    "('v, 'x) json_lib_scheme \<Rightarrow> ('v, 'rs, 'y) nmos_lib_scheme \<Rightarrow> ('v, 'rs) transportfile \<Rightarrow>
     host_interface list \<Rightarrow> ('v, 'rs, unit) node_eff" where
  "set_runtime_interfaces J L T interfaces =
     eseq (emod (\<lambda>s. s\<lparr> nd_runtime_interfaces := interfaces \<rparr>))
    (ebind (eget (\<lambda>s. s)) (\<lambda>cached.
     eseq (eforeach (\<lambda>video.
             ebind (eget (\<lambda>s. make_video_sender_resources J L (node_env_of s) video)) (\<lambda>made.
             ebind (elift made) (\<lambda>resources.
             replace_sender_resources J L T ''runtime interfaces update video sender'' resources
               (rd_present (vs_redudancy video))))) (nd_video_senders cached))
    (eseq (eforeach (\<lambda>audio.
             ebind (eget (\<lambda>s. make_audio_sender_resources J L (node_env_of s) audio)) (\<lambda>made.
             ebind (elift made) (\<lambda>resources.
             replace_sender_resources J L T ''runtime interfaces update audio sender'' resources
               (rd_present (as_redudancy audio))))) (nd_audio_senders cached))
    (eseq (eforeach (\<lambda>ancillary.
             ebind (eget (\<lambda>s. make_ancillary_sender_resources J L (node_env_of s) ancillary)) (\<lambda>made.
             ebind (elift made) (\<lambda>resources.
             replace_sender_resources J L T ''runtime interfaces update ancillary sender'' resources
               (rd_present (ns_redudancy ancillary))))) (nd_ancillary_senders cached))
    (eseq (eforeach (\<lambda>video.
             ebind (eget (\<lambda>s. make_video_receiver_resources J L (node_env_of s) video)) (\<lambda>made.
             ebind (elift made) (\<lambda>resources.
             replace_receiver_resources J L ''runtime interfaces update video receiver'' resources
               (rd_present (vr_redudancy video))))) (nd_video_receivers cached))
    (eseq (eforeach (\<lambda>audio.
             ebind (eget (\<lambda>s. make_audio_receiver_resources J L (node_env_of s) audio)) (\<lambda>made.
             ebind (elift made) (\<lambda>resources.
             replace_receiver_resources J L ''runtime interfaces update audio receiver'' resources
               (rd_present (ar_redudancy audio))))) (nd_audio_receivers cached))
    (eseq (eforeach (\<lambda>ancillary.
             ebind (eget (\<lambda>s. make_ancillary_receiver_resources J L (node_env_of s) ancillary)) (\<lambda>made.
             ebind (elift made) (\<lambda>resources.
             replace_receiver_resources J L ''runtime interfaces update ancillary receiver'' resources
               (rd_present (nr_redudancy ancillary))))) (nd_ancillary_receivers cached))
          (refresh_transportfiles J L T))))))))"

definition reset_model_state ::
    "('v, 'x) json_lib_scheme \<Rightarrow> ('v, 'rs, 'y) nmos_lib_scheme \<Rightarrow> ('v, 'rs) node \<Rightarrow> ('v, 'rs) node" where
  "reset_model_state J L s =
     s\<lparr> nd_shutdown := False,
        nd_node_resources := nl_empty L,
        nd_connection_resources := nl_empty L,
        nd_settings := jobject J,
        nd_sender_ids := [], nd_receiver_ids := [], nd_source_ids := [], nd_flow_ids := [] \<rparr>"

text \<open>
  The caches are copied and emptied, then every stream is added again. When one cannot be added, the
  exception ends the function and the streams after it are lost from the caches.
\<close>

definition reinsert_cached_resources ::
    "('v, 'x) json_lib_scheme \<Rightarrow> ('v, 'rs, 'y) nmos_lib_scheme \<Rightarrow> ('v, 'rs) transportfile \<Rightarrow> ('v, 'rs, unit) node_eff" where
  "reinsert_cached_resources J L T =
     ebind (eget (\<lambda>s. s)) (\<lambda>cached.
     let has_senders = nd_video_senders cached \<noteq> [] \<or> nd_audio_senders cached \<noteq> [] \<or> nd_ancillary_senders cached \<noteq> [];
         has_receivers = nd_video_receivers cached \<noteq> [] \<or> nd_audio_receivers cached \<noteq> [] \<or>
                         nd_ancillary_receivers cached \<noteq> []
     in if \<not> has_senders \<and> \<not> has_receivers then eret ()
        else
          eseq (emod (\<lambda>s. s\<lparr> nd_video_senders := [], nd_audio_senders := [], nd_ancillary_senders := [],
                             nd_video_receivers := [], nd_audio_receivers := [], nd_ancillary_receivers := [] \<rparr>))
         (eseq (eforeach (add_video_sender J L T) (nd_video_senders cached))
         (eseq (eforeach (add_audio_sender J L T) (nd_audio_senders cached))
         (eseq (eforeach (add_ancillary_sender J L T) (nd_ancillary_senders cached))
         (eseq (eforeach (add_video_receiver J L) (nd_video_receivers cached))
         (eseq (eforeach (add_audio_receiver J L) (nd_audio_receivers cached))
               (eforeach (add_ancillary_receiver J L) (nd_ancillary_receivers cached))))))))"

end
