(* ===== verification/Reconcile.thy ===== *)
theory Reconcile
  imports Dto_Types
begin

text \<open>
  \<open>ReconcileEngine::reconcile_list\<close> of \<open>daemon/reconcile_engine.cpp\<close>: it turns the streams of one
  kind from the last snapshot into those of the next one by remove, update and add calls. The
  iteration order of \<open>std::unordered_map\<close> is the parameter \<open>ord\<close>, any permutation of the keys in
  insertion order.

  The locale \<open>stream_store\<close> is the contract between the engine and the node: what the three calls
  do to the streams the node holds. Inside it the whole effect of \<open>reconcile_list\<close> is computed once
  for all kinds of streams; the node's operations are shown to meet the contract in
  \<open>Node_Contract\<close>.
\<close>

section \<open>The engine\<close>

type_synonym key_order = "string list \<Rightarrow> string list"

definition iteration_order :: "key_order \<Rightarrow> bool" where
  "iteration_order ord \<longleftrightarrow> (\<forall>ks. mset (ord ks) = mset ks)"

text \<open>The map as the list of its entries in insertion order; \<open>emplace\<close> ignores a second entry.\<close>

definition make_map :: "('a \<Rightarrow> string) \<Rightarrow> 'a list \<Rightarrow> (string \<times> 'a) list" where
  "make_map ident items =
     fold (\<lambda>item m. if map_of m (ident item) = None then m @ [(ident item, item)] else m) items []"

definition reconcile_error :: "string \<Rightarrow> string \<Rightarrow> string \<Rightarrow> exc \<Rightarrow> exc" where
  "reconcile_error resource_type action id' error =
     ''snapshot apply failed, resource='' @ resource_type @ '', action='' @ action @
     '', id='' @ id' @ '', error='' @ error"

text \<open>The bodies of the two loops.\<close>

definition reconcile_current ::
    "string \<Rightarrow> (string \<times> 'a) list \<Rightarrow> (string \<times> 'a) list \<Rightarrow> ('a \<Rightarrow> 'a \<Rightarrow> bool) \<Rightarrow>
     (string \<Rightarrow> ('s, unit) eff) \<Rightarrow> ('a \<Rightarrow> ('s, unit) eff) \<Rightarrow> string \<Rightarrow> ('s, unit) eff" where
  "reconcile_current rtype current_map next_map equivalent remove update id' =
     (case map_of current_map id' of None \<Rightarrow> eret ()
      | Some current_item \<Rightarrow>
          (case map_of next_map id' of
             None \<Rightarrow> erethrow (reconcile_error rtype ''remove'' id') (remove id')
           | Some found \<Rightarrow>
               if \<not> equivalent current_item found
               then erethrow (reconcile_error rtype ''update'' id') (update found)
               else eret ()))"

definition reconcile_next ::
    "string \<Rightarrow> (string \<times> 'a) list \<Rightarrow> (string \<times> 'a) list \<Rightarrow>
     ('a \<Rightarrow> ('s, unit) eff) \<Rightarrow> string \<Rightarrow> ('s, unit) eff" where
  "reconcile_next rtype current_map next_map add id' =
     (case map_of next_map id' of None \<Rightarrow> eret ()
      | Some next_item \<Rightarrow>
          if map_of current_map id' = None
          then erethrow (reconcile_error rtype ''add'' id') (add next_item)
          else eret ())"

definition reconcile_list ::
    "key_order \<Rightarrow> ('a \<Rightarrow> string) \<Rightarrow> string \<Rightarrow> 'a list \<Rightarrow> 'a list \<Rightarrow> ('a \<Rightarrow> 'a \<Rightarrow> bool) \<Rightarrow>
     (string \<Rightarrow> ('s, unit) eff) \<Rightarrow> ('a \<Rightarrow> ('s, unit) eff) \<Rightarrow> ('a \<Rightarrow> ('s, unit) eff) \<Rightarrow> ('s, unit) eff" where
  "reconcile_list ord ident rtype current next' equivalent remove update add =
     eseq (eforeach (reconcile_current rtype (make_map ident current) (make_map ident next')
                       equivalent remove update)
             (ord (map fst (make_map ident current))))
          (eforeach (reconcile_next rtype (make_map ident current) (make_map ident next') add)
             (ord (map fst (make_map ident next'))))"

section \<open>The maps\<close>

lemma make_map_snoc:
  "make_map ident (xs @ [x]) =
     (if map_of (make_map ident xs) (ident x) = None
      then make_map ident xs @ [(ident x, x)] else make_map ident xs)"
  by (simp add: make_map_def)

lemma make_map_keys: "set (map fst (make_map ident xs)) = ident ` set xs"
proof (induction xs rule: rev_induct)
  case Nil
  then show ?case by (simp add: make_map_def)
next
  case (snoc x xs)
  have "map_of (make_map ident xs) (ident x) = None \<longleftrightarrow> ident x \<notin> ident ` set xs"
    using snoc by (simp add: map_of_eq_None_iff)
  with snoc show ?case by (auto simp: make_map_snoc)
qed

lemma make_map_distinct: "distinct (map fst (make_map ident xs))"
proof (induction xs rule: rev_induct)
  case Nil
  then show ?case by (simp add: make_map_def)
next
  case (snoc x xs)
  then show ?case by (auto simp: make_map_snoc map_of_eq_None_iff)
qed

lemma make_map_find: "map_of (make_map ident xs) k = List.find (\<lambda>x. ident x = k) xs"
proof (induction xs rule: rev_induct)
  case Nil
  then show ?case by (simp add: make_map_def)
next
  case (snoc x xs)
  have "List.find (\<lambda>x. ident x = k) (xs @ [x]) =
      (case List.find (\<lambda>x. ident x = k) xs of None \<Rightarrow> if ident x = k then Some x else None | Some y \<Rightarrow> Some y)"
    by (induction xs) auto
  with snoc show ?case
    by (auto simp: make_map_snoc map_of_append_None simp del: map_of_append split: option.splits)
qed

lemma make_map_ident: "map_of (make_map ident xs) k = Some x \<Longrightarrow> ident x = k \<and> x \<in> set xs"
  by (auto simp: make_map_find dest: find_Some_in)

lemma ord_keys:
  assumes "iteration_order ord"
  shows "set (ord (map fst (make_map ident xs))) = ident ` set xs"
    and "distinct (ord (map fst (make_map ident xs)))"
proof -
  from assms have m: "mset (ord (map fst (make_map ident xs))) = mset (map fst (make_map ident xs))"
    by (simp add: iteration_order_def)
  show "set (ord (map fst (make_map ident xs))) = ident ` set xs"
    using mset_eq_setD [OF m] make_map_keys [of ident xs] by simp
  show "distinct (ord (map fst (make_map ident xs)))"
    using mset_eq_imp_distinct_iff [OF m] make_map_distinct [of ident xs] by simp
qed

section \<open>Exceptions\<close>

text \<open>Every exception of the engine names the resource, the action that was due, and the id.\<close>

definition due_action :: "('a \<Rightarrow> 'a \<Rightarrow> bool) \<Rightarrow> (string \<Rightarrow> 'a option) \<Rightarrow> (string \<Rightarrow> 'a option) \<Rightarrow> string \<Rightarrow> string \<Rightarrow> bool" where
  "due_action equivalent c n action i \<longleftrightarrow>
     (case (c i, n i) of
        (Some x, None) \<Rightarrow> action = ''remove''
      | (Some x, Some y) \<Rightarrow> action = ''update'' \<and> \<not> equivalent x y
      | (None, Some y) \<Rightarrow> action = ''add''
      | (None, None) \<Rightarrow> False)"

lemma eforeach_throws:
  assumes "eforeach body xs s = (Inl e, t)"
  shows "\<exists>x u. body x u = (Inl e, t)"
  using assms by (induction xs arbitrary: s) (auto simp: eff_simps split: sum.splits prod.splits)

lemma reconcile_current_error:
  assumes "reconcile_current rtype cm nm equivalent remove update i w = (Inl e, x)"
  shows "\<exists>action d. e = reconcile_error rtype action i d \<and> due_action equivalent (map_of cm) (map_of nm) action i"
  using assms by (auto simp: reconcile_current_def due_action_def eff_simps
      split: option.splits sum.splits prod.splits if_splits)

lemma reconcile_next_error:
  assumes "reconcile_next rtype cm nm add i w = (Inl e, x)"
  shows "\<exists>action d. e = reconcile_error rtype action i d \<and> due_action equivalent (map_of cm) (map_of nm) action i"
  using assms by (auto simp: reconcile_next_def due_action_def eff_simps
      split: option.splits sum.splits prod.splits if_splits)

lemma reconcile_list_error:
  assumes "reconcile_list ord ident rtype current next' equivalent remove update add s = (Inl e, t)"
  shows "\<exists>action i d. e = reconcile_error rtype action i d \<and>
    due_action equivalent (\<lambda>i. List.find (\<lambda>x. ident x = i) current) (\<lambda>i. List.find (\<lambda>x. ident x = i) next') action i"
proof -
  have maps: "map_of (make_map ident xs) = (\<lambda>i. List.find (\<lambda>x. ident x = i) xs)" for xs
    by (simp add: make_map_find fun_eq_iff)
  from assms consider u where "eforeach (reconcile_current rtype (make_map ident current) (make_map ident next')
        equivalent remove update) (ord (map fst (make_map ident current))) s = (Inl e, u)"
    | u where "eforeach (reconcile_next rtype (make_map ident current) (make_map ident next') add)
        (ord (map fst (make_map ident next'))) u = (Inl e, t)"
    by (auto simp: reconcile_list_def eff_simps split: sum.splits prod.splits)
  then show ?thesis
  proof cases
    case 1
    then obtain i v w where "reconcile_current rtype (make_map ident current) (make_map ident next') equivalent remove update i v = (Inl e, w)"
      by (blast dest: eforeach_throws)
    from reconcile_current_error [OF this] show ?thesis unfolding maps by blast
  next
    case 2
    then obtain i v w where "reconcile_next rtype (make_map ident current) (make_map ident next') add i v = (Inl e, w)"
      by (blast dest: eforeach_throws)
    from reconcile_next_error [OF this, of equivalent] show ?thesis unfolding maps by blast
  qed
qed

section \<open>The contract\<close>

text \<open>
  \<open>view\<close> gives the streams the node holds, by their id, in the form \<open>abs\<close> that the comparison of the
  engine sees; \<open>frame\<close> is everything the calls for this kind of stream leave alone. The laws hold in
  states that satisfy the node's invariant \<open>good\<close>. \<open>remove\<close> always succeeds; a failing \<open>update\<close> or
  \<open>add\<close> leaves the streams as they were.
\<close>

locale stream_store =
  fixes ident :: "'a \<Rightarrow> string"
    and abs :: "'a \<Rightarrow> 'b"
    and equivalent :: "'a \<Rightarrow> 'a \<Rightarrow> bool"
    and good :: "'s \<Rightarrow> bool"
    and view :: "'s \<Rightarrow> string \<Rightarrow> 'b option"
    and frame :: "'s \<Rightarrow> 'f"
    and remove :: "string \<Rightarrow> ('s, unit) eff"
    and update add :: "'a \<Rightarrow> ('s, unit) eff"
  assumes equivalent_abs: "equivalent x y \<longleftrightarrow> abs x = abs y"
    and remove_law: "good s \<Longrightarrow> remove i s = (r, t) \<Longrightarrow>
          r = Inr () \<and> good t \<and> frame t = frame s \<and> view t = (view s)(i := None)"
    and update_law: "good s \<Longrightarrow> update x s = (r, t) \<Longrightarrow>
          good t \<and> frame t = frame s \<and>
          view t = (if r = Inr () then (view s)(ident x \<mapsto> abs x) else view s)"
    and add_law: "good s \<Longrightarrow> add x s = (r, t) \<Longrightarrow>
          good t \<and> frame t = frame s \<and>
          view t = (if r = Inr () then (view s)(ident x \<mapsto> abs x) else view s)"
begin

text \<open>What one pass of a loop over distinct ids does when its body only touches its own id.\<close>

lemma keyed_loop:
  assumes body: "\<And>i u r v. i \<in> set is \<Longrightarrow> good u \<Longrightarrow> body i u = (r, v) \<Longrightarrow>
      good v \<and> frame v = frame u \<and>
      view v = (if r = Inr () then (view u)(i := g i (view u i)) else view u)"
    and "distinct is" "good s" "eforeach body is s = (r, t)"
  shows "\<exists>ds. set ds \<subseteq> set is \<and> (r = Inr () \<longrightarrow> set ds = set is) \<and> good t \<and> frame t = frame s \<and>
      view t = (\<lambda>i. if i \<in> set ds then g i (view s i) else view s i)"
  using assms
proof (induction "is" arbitrary: s)
  case Nil
  then show ?case by (auto simp: eff_simps)
next
  case (Cons j js)
  obtain q u where step: "body j s = (q, u)" by (cases "body j s")
  from Cons.prems(1) [OF _ Cons.prems(3) step] have u: "good u" "frame u = frame s"
    "view u = (if q = Inr () then (view s)(j := g j (view s j)) else view s)" by auto
  show ?case
  proof (cases q)
    case (Inl e)
    with step Cons.prems(4) u show ?thesis by (intro exI [of _ "[]"]) (auto simp: eff_simps)
  next
    case (Inr a)
    with step Cons.prems(4) have rest: "eforeach body js u = (r, t)" by (simp add: eff_simps)
    have "\<exists>ds. set ds \<subseteq> set js \<and> (r = Inr () \<longrightarrow> set ds = set js) \<and> good t \<and> frame t = frame u \<and>
        view t = (\<lambda>i. if i \<in> set ds then g i (view u i) else view u i)"
    proof (rule Cons.IH [OF _ _ u(1) rest])
      show "distinct js" using Cons.prems(2) by simp
    next
      fix i w p x
      assume "i \<in> set js" "good w" "body i w = (p, x)"
      then show "good x \<and> frame x = frame w \<and>
          view x = (if p = Inr () then (view w)(i := g i (view w i)) else view w)"
        by (intro Cons.prems(1)) simp_all
    qed
    then obtain ds where
      ds: "set ds \<subseteq> set js" "r = Inr () \<longrightarrow> set ds = set js" "good t" "frame t = frame u"
        "view t = (\<lambda>i. if i \<in> set ds then g i (view u i) else view u i)" by blast
    from Cons.prems(2) ds(1) have "j \<notin> set ds" by auto
    from u(3) Inr have "view u = (view s)(j := g j (view s j))" by simp
    with ds(5) \<open>j \<notin> set ds\<close>
    have "view t = (\<lambda>i. if i \<in> set (j # ds) then g i (view s i) else view s i)"
      by (intro ext) simp
    moreover have "set (j # ds) \<subseteq> set (j # js)" "r = Inr () \<longrightarrow> set (j # ds) = set (j # js)"
      using ds(1,2) by auto
    ultimately show ?thesis using ds(3,4) u(2) by (intro exI [of _ "j # ds"]) simp
  qed
qed

text \<open>The streams after a complete run, and what a run may leave of an id when it fails.\<close>

definition target :: "'a list \<Rightarrow> 'a list \<Rightarrow> (string \<Rightarrow> 'b option) \<Rightarrow> string \<Rightarrow> 'b option" where
  "target current next' v i =
     (case (map_of (make_map ident current) i, map_of (make_map ident next') i) of
        (None, None) \<Rightarrow> v i
      | (Some c, Some n) \<Rightarrow> if abs c = abs n then v i else Some (abs n)
      | (_, n) \<Rightarrow> map_option abs n)"

lemma current_body:
  assumes "good u"
    and "reconcile_current rtype (make_map ident current) (make_map ident next') equivalent remove update i u = (r, v)"
  shows "good v \<and> frame v = frame u \<and>
    view v = (if r = Inr () then (view u)(i :=
       (if map_of (make_map ident current) i = None then view u i else target current next' (view u) i)) else view u)"
proof (cases "map_of (make_map ident current) i")
  case None
  with assms show ?thesis by (auto simp: reconcile_current_def eff_simps)
next
  case c: (Some c)
  show ?thesis
  proof (cases "map_of (make_map ident next') i")
    case None
    with c assms(2) obtain q where q: "remove i u = (q, v)" "r = rethrow (reconcile_error rtype ''remove'' i) q"
      by (auto simp: reconcile_current_def erethrow_iff)
    from remove_law [OF assms(1) q(1)] q(2) c None show ?thesis by (simp add: target_def)
  next
    case n: (Some n)
    then have ident: "ident n = i" by (simp add: make_map_ident)
    show ?thesis
    proof (cases "abs c = abs n")
      case True
      with c n assms show ?thesis
        by (auto simp: reconcile_current_def target_def equivalent_abs eff_simps)
    next
      case False
      with c n assms(2) obtain q where q: "update n u = (q, v)" "r = rethrow (reconcile_error rtype ''update'' i) q"
        by (auto simp: reconcile_current_def equivalent_abs erethrow_iff)
      from update_law [OF assms(1) q(1)] q(2) c n ident False show ?thesis by (simp add: target_def)
    qed
  qed
qed

lemma next_body:
  assumes "good u"
    and "reconcile_next rtype (make_map ident current) (make_map ident next') add i u = (r, v)"
  shows "good v \<and> frame v = frame u \<and>
    view v = (if r = Inr () then (view u)(i :=
       (if map_of (make_map ident current) i = None then target current next' (view u) i else view u i)) else view u)"
proof (cases "map_of (make_map ident next') i")
  case None
  with assms show ?thesis
    by (auto simp: reconcile_next_def eff_simps target_def split: option.split)
next
  case n: (Some n)
  then have ident: "ident n = i" by (simp add: make_map_ident)
  show ?thesis
  proof (cases "map_of (make_map ident current) i")
    case None
    with n assms(2) obtain q where q: "add n u = (q, v)" "r = rethrow (reconcile_error rtype ''add'' i) q"
      by (auto simp: reconcile_next_def erethrow_iff)
    from add_law [OF assms(1) q(1)] q(2) n None ident show ?thesis by (simp add: target_def)
  next
    case (Some c)
    with n assms show ?thesis by (auto simp: reconcile_next_def eff_simps)
  qed
qed

lemma reconcile_list_effect:
  assumes ord: "iteration_order ord" and s: "good s"
    and run: "reconcile_list ord ident rtype current next' equivalent remove update add s = (r, t)"
  shows "good t \<and> frame t = frame s \<and>
    (r = Inr () \<longrightarrow> view t = target current next' (view s)) \<and>
    (\<forall>i. view t i = view s i \<or> view t i = target current next' (view s) i)"
proof -
  let ?cm = "make_map ident current" and ?nm = "make_map ident next'"
  let ?T = "target current next'"
  let ?loop1 = "eforeach (reconcile_current rtype ?cm ?nm equivalent remove update) (ord (map fst ?cm))"
  let ?loop2 = "eforeach (reconcile_next rtype ?cm ?nm add) (ord (map fst ?nm))"
  obtain q u where l1: "?loop1 s = (q, u)" by (cases "?loop1 s")
  have T_local: "?T v i = ?T w i" if "v i = w i" for v w i
    using that by (simp add: target_def split: option.split)
  obtain ds where ds: "set ds \<subseteq> ident ` set current" "q = Inr () \<longrightarrow> set ds = ident ` set current"
    "good u" "frame u = frame s"
    "\<And>i. view u i = (if i \<in> set ds then (if map_of ?cm i = None then view s i else ?T (view s) i) else view s i)"
  proof -
    have "\<exists>ds. set ds \<subseteq> set (ord (map fst ?cm)) \<and> (q = Inr () \<longrightarrow> set ds = set (ord (map fst ?cm))) \<and>
        good u \<and> frame u = frame s \<and>
        view u = (\<lambda>i. if i \<in> set ds then (if map_of ?cm i = None then view s i
           else ?T (\<lambda>_. view s i) i) else view s i)"
    proof (rule keyed_loop [OF _ ord_keys(2) [OF ord] s l1])
      fix i w p v
      assume "good w" "reconcile_current rtype ?cm ?nm equivalent remove update i w = (p, v)"
      from current_body [OF this] T_local [of "view w" i "\<lambda>_. view w i"]
      show "good v \<and> frame v = frame w \<and> view v = (if p = Inr () then (view w)(i :=
          (if map_of ?cm i = None then view w i else ?T (\<lambda>_. view w i) i)) else view w)" by auto
    qed
    then obtain ds where "set ds \<subseteq> ident ` set current" "q = Inr () \<longrightarrow> set ds = ident ` set current"
      "good u" "frame u = frame s"
      "view u = (\<lambda>i. if i \<in> set ds then (if map_of ?cm i = None then view s i
           else ?T (\<lambda>_. view s i) i) else view s i)"
      unfolding ord_keys(1) [OF ord] by blast
    moreover have "?T (\<lambda>_. view s i) i = ?T (view s) i" for i by (rule T_local) simp
    ultimately show ?thesis by (intro that [of ds]) simp_all
  qed
  have cm_None: "map_of ?cm i = None \<longleftrightarrow> i \<notin> ident ` set current" for i
    using make_map_keys [of ident current] by (auto simp: map_of_eq_None_iff)
  have nm_None: "map_of ?nm i = None \<longleftrightarrow> i \<notin> ident ` set next'" for i
    using make_map_keys [of ident next'] by (auto simp: map_of_eq_None_iff)
  show ?thesis
  proof (cases q)
    case (Inl e)
    with l1 run have "r = Inl e" "t = u" by (auto simp: reconcile_list_def eff_simps)
    with ds show ?thesis by auto
  next
    case (Inr a)
    with l1 run have l2: "?loop2 u = (r, t)" by (simp add: reconcile_list_def eff_simps)
    have "\<exists>es. set es \<subseteq> set (ord (map fst ?nm)) \<and> (r = Inr () \<longrightarrow> set es = set (ord (map fst ?nm))) \<and>
        good t \<and> frame t = frame u \<and>
        view t = (\<lambda>i. if i \<in> set es then (if map_of ?cm i = None then ?T (\<lambda>_. view u i) i
           else view u i) else view u i)"
    proof (rule keyed_loop [OF _ ord_keys(2) [OF ord] ds(3) l2])
      fix i w p v
      assume "good w" "reconcile_next rtype ?cm ?nm add i w = (p, v)"
      from next_body [OF this] T_local [of "view w" i "\<lambda>_. view w i"]
      show "good v \<and> frame v = frame w \<and> view v = (if p = Inr () then (view w)(i :=
          (if map_of ?cm i = None then ?T (\<lambda>_. view w i) i else view w i)) else view w)" by auto
    qed
    then obtain es where es: "set es \<subseteq> ident ` set next'" "r = Inr () \<longrightarrow> set es = ident ` set next'"
      "good t" "frame t = frame u"
      "view t = (\<lambda>i. if i \<in> set es then (if map_of ?cm i = None then ?T (\<lambda>_. view u i) i
           else view u i) else view u i)"
      unfolding ord_keys(1) [OF ord] by blast
    have u: "view u i = (if map_of ?cm i = None then view s i else ?T (view s) i)" for i
      using ds Inr cm_None [of i] by auto
    have t: "view t i = (if i \<in> set es \<or> map_of ?cm i \<noteq> None then ?T (view s) i else view s i)" for i
      using u [of i] T_local [of "\<lambda>_. view u i" i "view s"] by (auto simp: es(5))
    have "?T (view s) i = view s i" if "i \<notin> ident ` set next'" "map_of ?cm i = None" for i
      using that nm_None [of i] by (simp add: target_def)
    with t es ds show ?thesis by (auto simp: fun_eq_iff)
  qed
qed

lemma reconcile_list_reaches:
  assumes "iteration_order ord" "good s" "view s = map_option abs \<circ> map_of (make_map ident current)"
    and "reconcile_list ord ident rtype current next' equivalent remove update add s = (Inr (), t)"
  shows "good t \<and> frame t = frame s \<and> view t = map_option abs \<circ> map_of (make_map ident next')"
  using reconcile_list_effect [OF assms(1,2,4)] assms(3)
  by (auto simp: target_def fun_eq_iff split: option.splits)

end

end
