(* ===== verification/Node_Contract.thy ===== *)
theory Node_Contract
  imports Node_Streams Reconcile
begin

text \<open>
  The node meets the contract of the reconcile engine. Of all a node operation does, the engine only
  sees the cached streams; \<open>node_core\<close> is that part, with the seed its identities are made from.
  \<open>keeps\<close> says that an effect leaves it alone, whatever it does to the NMOS resources. From this the
  laws of \<open>stream_store\<close> follow for the six kinds of streams, as six interpretations.
\<close>

named_theorems keeps_intros \<open>effects that keep the cached streams\<close>

section \<open>The part of the state the engine sees\<close>

definition node_core ::
    "('v, 'rs) node \<Rightarrow> string \<times> video_sender list \<times> audio_sender list \<times> ancillary_sender list \<times>
       video_receiver list \<times> audio_receiver list \<times> ancillary_receiver list" where
  "node_core s =
     (nd_seed_id s, nd_video_senders s, nd_audio_senders s, nd_ancillary_senders s,
      nd_video_receivers s, nd_audio_receivers s, nd_ancillary_receivers s)"

definition keeps :: "('v, 'rs, 'a) node_eff \<Rightarrow> bool" where
  "keeps m \<longleftrightarrow> (\<forall>s. node_core (snd (m s)) = node_core s)"

lemma keepsD: "keeps m \<Longrightarrow> m s = (r, t) \<Longrightarrow> node_core t = node_core s"
  unfolding keeps_def by (metis snd_conv)

lemma keeps_eret [keeps_intros]: "keeps (eret a)"
  by (simp add: keeps_def eff_simps)

lemma keeps_ethrow [keeps_intros]: "keeps (ethrow e)"
  by (simp add: keeps_def eff_simps)

lemma keeps_elift [keeps_intros]: "keeps (elift r)"
  by (simp add: keeps_def eff_simps)

lemma keeps_eget [keeps_intros]: "keeps (eget f)"
  by (simp add: keeps_def eff_simps)

lemma keeps_ebind [keeps_intros]:
  assumes "keeps m" "\<And>a. keeps (f a)"
  shows "keeps (ebind m f)"
  unfolding keeps_def
proof
  fix s
  obtain r t where m: "m s = (r, t)" by (cases "m s")
  with keepsD [OF assms(1)] have "node_core t = node_core s" .
  with m assms(2) show "node_core (snd (ebind m f s)) = node_core s"
    by (cases r) (simp_all add: eff_simps keeps_def)
qed

lemma keeps_eseq [keeps_intros]: "keeps m \<Longrightarrow> keeps n \<Longrightarrow> keeps (eseq m n)"
  unfolding eseq_def by (rule keeps_ebind)

lemma keeps_if [keeps_intros]: "keeps m \<Longrightarrow> keeps n \<Longrightarrow> keeps (if b then m else n)"
  by simp

lemma keeps_eforeach [keeps_intros]:
  assumes "\<And>x. keeps (body x)"
  shows "keeps (eforeach body xs)"
  unfolding keeps_def
proof
  fix s
  show "node_core (snd (eforeach body xs s)) = node_core s"
    using eforeach_invariant [of xs "\<lambda>t. node_core t = node_core s" body s] assms
    by (simp add: keeps_def)
qed

lemma node_core_set_resources [simp]: "node_core (set_resources c rs s) = node_core s"
  by (cases c) (simp_all add: node_core_def)

lemma keeps_insert [keeps_intros]: "keeps (insert_resource_after L c r)"
  by (simp add: keeps_def insert_resource_after_def split: prod.split)

lemma keeps_remove [keeps_intros]: "keeps (remove_resource_after L c i)"
  by (simp add: keeps_def remove_resource_after_def split: prod.split)

lemma keeps_erase [keeps_intros]: "keeps (erase_resource_if_present L c i)"
  by (simp add: keeps_def erase_resource_if_present_def eff_simps)

lemma keeps_modify [keeps_intros]: "keeps (modify_resource L c i f)"
  by (simp add: keeps_def modify_resource_def split: prod.split)

lemma keeps_replace [keeps_intros]: "keeps (replace_resource L c r)"
  by (simp add: replace_resource_def keeps_intros)

lemma keeps_sender_ids [keeps_intros]:
  "keeps (emod (\<lambda>s. s\<lparr> nd_sender_ids := f s, nd_source_ids := g s, nd_flow_ids := h s \<rparr>))"
  by (simp add: keeps_def node_core_def eff_simps)

lemma keeps_receiver_ids [keeps_intros]: "keeps (emod (\<lambda>s. s\<lparr> nd_receiver_ids := f s \<rparr>))"
  by (simp add: keeps_def node_core_def eff_simps)

lemma keeps_interfaces [keeps_intros]: "keeps (emod (\<lambda>s. s\<lparr> nd_runtime_interfaces := is \<rparr>))"
  by (simp add: keeps_def node_core_def eff_simps)

lemma keeps_ptp_domain [keeps_intros]: "keeps (emod (\<lambda>s. s\<lparr> nd_ptp_domain_number := d \<rparr>))"
  by (simp add: keeps_def node_core_def eff_simps)

lemma keeps_option_case [keeps_intros]:
  "keeps m \<Longrightarrow> (\<And>x. keeps (f x)) \<Longrightarrow> keeps (case o' of None \<Rightarrow> m | Some x \<Rightarrow> f x)"
  by (cases o') simp_all

lemma keeps_pair_case [keeps_intros]: "(\<And>x y. keeps (f x y)) \<Longrightarrow> keeps (case p of (x, y) \<Rightarrow> f x y)"
  by (cases p) simp

lemma keeps_device_senders [keeps_intros]: "keeps (update_device_senders J L)"
  by (auto simp: update_device_senders_def intro!: keeps_intros split: prod.split)

lemma keeps_device_receivers [keeps_intros]: "keeps (update_device_receivers J L)"
  by (auto simp: update_device_receivers_def intro!: keeps_intros split: prod.split)

lemma keeps_replace_sender [keeps_intros]: "keeps (replace_sender_resources J L T d r b)"
  unfolding replace_sender_resources_def by (intro keeps_intros)

lemma keeps_replace_receiver [keeps_intros]: "keeps (replace_receiver_resources J L d r b)"
  unfolding replace_receiver_resources_def by (intro keeps_intros)

lemma keeps_erase_sender [keeps_intros]: "keeps (erase_sender_resources L r)"
  unfolding erase_sender_resources_def by (intro keeps_intros)

lemma keeps_insert_sender [keeps_intros]: "keeps (insert_sender_resources L t1 t2 t3 t4 r)"
  unfolding insert_sender_resources_def by (intro keeps_intros)

lemma keeps_refresh [keeps_intros]: "keeps (refresh_transportfiles J L T)"
  unfolding refresh_transportfiles_def by (intro keeps_intros)

text \<open>The node-wide operations do not touch the streams at all.\<close>

lemma set_ptp_clock_keeps: "keeps (set_ptp_clock J L T g b d)"
  unfolding set_ptp_clock_def Let_def by (intro keeps_intros)

lemma set_runtime_interfaces_keeps: "keeps (set_runtime_interfaces J L T is)"
  unfolding set_runtime_interfaces_def by (intro keeps_intros)

section \<open>Caches\<close>

text \<open>
  The streams of a kind as the engine sees them, and the invariant of a cache: its ids differ, and
  every stream carries what the node itself wrote into it (\<open>own\<close>).
\<close>

definition cached_view :: "('a \<Rightarrow> string) \<Rightarrow> ('a \<Rightarrow> 'b) \<Rightarrow> 'a list \<Rightarrow> string \<Rightarrow> 'b option" where
  "cached_view ident obs streams i = map_option obs (find_by_id ident streams i)"

definition cache_good :: "('a \<Rightarrow> string) \<Rightarrow> ('a \<Rightarrow> bool) \<Rightarrow> 'a list \<Rightarrow> bool" where
  "cache_good ident own streams \<longleftrightarrow> distinct (map ident streams) \<and> list_all own streams"

lemma find_by_id_None: "find_by_id ident xs i = None \<longleftrightarrow> i \<notin> ident ` set xs"
  by (auto simp: find_by_id_def find_None_all)

lemma find_by_id_push:
  "find_by_id ident xs (ident x) = None \<Longrightarrow>
   find_by_id ident (xs @ [x]) = (find_by_id ident xs)(ident x \<mapsto> x)"
  unfolding find_by_id_def by (induction xs) (auto simp: fun_eq_iff split: if_splits)

lemma find_by_id_replace:
  "find_by_id ident xs (ident x) \<noteq> None \<Longrightarrow>
   find_by_id ident (replace_cached_by_id ident x xs) = (find_by_id ident xs)(ident x \<mapsto> x)"
  unfolding find_by_id_def by (induction xs) (auto simp: fun_eq_iff)

lemma find_by_id_filter:
  "find_by_id ident (filter (\<lambda>x. ident x \<noteq> i) xs) = (find_by_id ident xs)(i := None)"
  unfolding find_by_id_def by (induction xs) (auto simp: fun_eq_iff)

lemma map_ident_replace [simp]: "map ident (replace_cached_by_id ident x xs) = map ident xs"
  by (induction xs) auto

lemma set_replace: "y \<in> set (replace_cached_by_id ident x xs) \<Longrightarrow> y = x \<or> y \<in> set xs"
  by (induction xs) (auto split: if_splits)

lemma cache_push:
  assumes "cache_good ident own xs" "find_by_id ident xs (ident x) = None" "own x"
  shows "cache_good ident own (xs @ [x]) \<and>
         cached_view ident obs (xs @ [x]) = (cached_view ident obs xs)(ident x \<mapsto> obs x)"
proof -
  have "cached_view ident obs (xs @ [x]) = (cached_view ident obs xs)(ident x \<mapsto> obs x)"
    by (rule ext) (simp add: cached_view_def find_by_id_push [OF assms(2)])
  with assms show ?thesis by (auto simp: cache_good_def find_by_id_None)
qed

lemma cache_replace:
  assumes "cache_good ident own xs" "find_by_id ident xs (ident x) \<noteq> None" "own x"
  shows "cache_good ident own (replace_cached_by_id ident x xs) \<and>
         cached_view ident obs (replace_cached_by_id ident x xs) = (cached_view ident obs xs)(ident x \<mapsto> obs x)"
proof -
  have "cached_view ident obs (replace_cached_by_id ident x xs) = (cached_view ident obs xs)(ident x \<mapsto> obs x)"
    by (rule ext) (simp add: cached_view_def find_by_id_replace [OF assms(2)])
  with assms show ?thesis by (auto simp: cache_good_def list_all_iff dest: set_replace)
qed

lemma cache_filter:
  assumes "cache_good ident own xs"
  shows "cache_good ident own (filter (\<lambda>x. ident x \<noteq> i) xs) \<and>
         cached_view ident obs (filter (\<lambda>x. ident x \<noteq> i) xs) = (cached_view ident obs xs)(i := None)"
proof -
  have "cached_view ident obs (filter (\<lambda>x. ident x \<noteq> i) xs) = (cached_view ident obs xs)(i := None)"
    by (rule ext) (simp add: cached_view_def find_by_id_filter)
  with assms show ?thesis by (auto simp: cache_good_def list_all_iff distinct_map inj_on_def)
qed

lemma view_absent:
  "find_by_id ident xs i = None \<Longrightarrow> (cached_view ident obs xs)(i := None) = cached_view ident obs xs"
  by (auto simp: cached_view_def fun_eq_iff)

section \<open>Identities of the resources made\<close>

lemma label_keeps_id: "set_label_description J port name r = Inr r' \<Longrightarrow> re_id r' = re_id r"
  by (auto simp: set_label_description_def rbind_Inr_iff)

lemma hint_keeps_id: "insert_group_hint J L port i name r = Inr r' \<Longrightarrow> re_id r' = re_id r"
  by (auto simp: insert_group_hint_def rbind_Inr_iff)

context resource_store
begin

lemma make_id_inj:
  "make_id L seed ty port i = make_id L seed ty port j \<longleftrightarrow> i = j"
  by (simp add: make_id_def id_inj)

lemma finish_sender_ids:
  "finish_sender_resources J L env port i name src en red sid fid = Inr (a, b) \<Longrightarrow> re_id a = sid \<and> re_id b = sid"
  by (auto simp: finish_sender_resources_def Let_def rbind_Inr_iff made_ids
      dest!: label_keeps_id hint_keeps_id)

lemma video_sender_ids:
  "make_video_sender_resources J L env v = Inr res \<Longrightarrow>
   re_id (sr_source res) = make_id L (ne_seed_id env) ''source'' port_video (vs_id v) \<and>
   re_id (sr_flow res) = make_id L (ne_seed_id env) ''flow'' port_video (vs_id v) \<and>
   re_id (sr_sender res) = make_id L (ne_seed_id env) ''sender'' port_video (vs_id v) \<and>
   re_id (sr_connection res) = make_id L (ne_seed_id env) ''sender'' port_video (vs_id v)"
  by (auto simp: make_video_sender_resources_def Let_def rbind_Inr_iff made_ids split: if_splits
      dest!: label_keeps_id finish_sender_ids)

lemma audio_sender_ids:
  "make_audio_sender_resources J L env v = Inr res \<Longrightarrow>
   re_id (sr_source res) = make_id L (ne_seed_id env) ''source'' port_audio (as_id v) \<and>
   re_id (sr_flow res) = make_id L (ne_seed_id env) ''flow'' port_audio (as_id v) \<and>
   re_id (sr_sender res) = make_id L (ne_seed_id env) ''sender'' port_audio (as_id v) \<and>
   re_id (sr_connection res) = make_id L (ne_seed_id env) ''sender'' port_audio (as_id v)"
  by (auto simp: make_audio_sender_resources_def Let_def rbind_Inr_iff made_ids split: if_splits
      dest!: label_keeps_id finish_sender_ids)

lemma ancillary_sender_ids:
  "make_ancillary_sender_resources J L env v = Inr res \<Longrightarrow>
   re_id (sr_source res) = make_id L (ne_seed_id env) ''source'' port_data (ns_id v) \<and>
   re_id (sr_flow res) = make_id L (ne_seed_id env) ''flow'' port_data (ns_id v) \<and>
   re_id (sr_sender res) = make_id L (ne_seed_id env) ''sender'' port_data (ns_id v) \<and>
   re_id (sr_connection res) = make_id L (ne_seed_id env) ''sender'' port_data (ns_id v)"
  by (auto simp: make_ancillary_sender_resources_def Let_def rbind_Inr_iff made_ids split: if_splits
      dest!: label_keeps_id finish_sender_ids)

end

section \<open>Effects of the shared bodies\<close>

definition core_fun :: "(('v, 'rs) node \<Rightarrow> ('v, 'rs) node) \<Rightarrow> bool" where
  "core_fun f \<longleftrightarrow> (\<forall>u v. node_core u = node_core v \<longrightarrow> node_core (f u) = node_core (f v))"

lemma core_funD: "core_fun f \<Longrightarrow> node_core u = node_core v \<Longrightarrow> node_core (f u) = node_core (f v)"
  unfolding core_fun_def by blast

context resource_store
begin

lemma modify_total: "\<exists>b t. modify_resource L c i (emod g) s = (Inr b, t)"
proof -
  have "\<exists>b rs'. nl_modify L i (emod g) (resources_of c s) = (Inr b, rs')"
    by (rule modify_safe) (simp add: eff_simps)
  then show ?thesis by (auto simp: modify_resource_def)
qed

lemma modify_then: "\<exists>t. eseq (modify_resource L c i (emod g)) (eret ()) s = (Inr (), t)"
  using modify_total [of c i g s] by (auto simp: eff_simps)

lemma device_senders_total: "\<exists>t. update_device_senders J L s = (Inr (), t)"
  using modify_then by (simp add: update_device_senders_def ebind_apply eget_apply)

lemma device_receivers_total: "\<exists>t. update_device_receivers J L s = (Inr (), t)"
  using modify_then by (simp add: update_device_receivers_def ebind_apply eget_apply)

text \<open>Either the operation fails and the caches are as before, or the cache of the kind is edited.\<close>

lemma add_new_sender_effect:
  assumes run: "add_new_sender J L build erase_first insert_resources cache s = (r, t)"
    and "\<And>x. keeps (erase_first x)" "\<And>x. keeps (insert_resources x)" "\<And>i. core_fun (cache i)"
  shows "(\<exists>e. r = Inl e) \<and> node_core t = node_core s \<or>
    r = Inr () \<and> (\<exists>res. build (node_env_of s) = Inr res \<and> node_core t = node_core (cache (re_id (sr_sender res)) s))"
proof (cases "build (node_env_of s)")
  case (Inl e)
  with run show ?thesis by (auto simp: add_new_sender_def eff_simps)
next
  case (Inr res)
  obtain q u where u: "erase_first res s = (q, u)" by (cases "erase_first res s")
  then have cu: "node_core u = node_core s" by (rule keepsD [OF assms(2)])
  show ?thesis
  proof (cases q)
    case (Inl e)
    with run Inr u cu show ?thesis by (auto simp: add_new_sender_def eff_simps)
  next
    case q: (Inr a)
    obtain p v where v: "insert_resources res u = (p, v)" by (cases "insert_resources res u")
    then have cv: "node_core v = node_core u" by (rule keepsD [OF assms(3)])
    show ?thesis
    proof (cases p)
      case (Inl e)
      with run Inr u cu q v cv show ?thesis by (auto simp: add_new_sender_def eff_simps)
    next
      case p: (Inr b)
      let ?w = "cache (re_id (sr_sender res)) v"
      let ?x = "?w\<lparr> nd_sender_ids := nd_sender_ids ?w @ [re_id (sr_sender res)],
                   nd_source_ids := nd_source_ids ?w @ [re_id (sr_source res)],
                   nd_flow_ids := nd_flow_ids ?w @ [re_id (sr_flow res)] \<rparr>"
      from run Inr u q v p have dev: "update_device_senders J L ?x = (r, t)"
        by (simp add: add_new_sender_def eff_simps)
      obtain y where "update_device_senders J L ?x = (Inr (), y)"
        using device_senders_total by blast
      with dev have "r = Inr ()" by simp
      moreover have "node_core t = node_core ?x" by (rule keepsD [OF keeps_device_senders dev])
      moreover have "node_core ?x = node_core ?w" by (simp add: node_core_def)
      moreover have "node_core ?w = node_core (cache (re_id (sr_sender res)) s)"
        by (rule core_funD [OF assms(4)]) (simp add: cu cv)
      ultimately show ?thesis using Inr by simp
    qed
  qed
qed

lemma update_existing_sender_effect:
  assumes "update_existing_sender J L T d b build cache s = (r, t)" "core_fun cache"
  shows "(\<exists>e. r = Inl e) \<and> node_core t = node_core s \<or> r = Inr () \<and> node_core t = node_core (cache s)"
proof (cases "build (node_env_of s)")
  case (Inl e)
  with assms(1) show ?thesis by (auto simp: update_existing_sender_def eff_simps)
next
  case (Inr res)
  obtain q u where u: "replace_sender_resources J L T d res b s = (q, u)"
    by (cases "replace_sender_resources J L T d res b s")
  then have cu: "node_core u = node_core s" by (rule keepsD [OF keeps_replace_sender])
  have cc: "node_core (cache u) = node_core (cache s)" by (rule core_funD [OF assms(2) cu])
  show ?thesis
  proof (cases q)
    case (Inl e)
    with assms(1) Inr u cu show ?thesis by (simp add: update_existing_sender_def eff_simps) blast
  next
    case q: (Inr a)
    with assms(1) Inr u have "r = Inr ()" "t = cache u"
      by (simp_all add: update_existing_sender_def eff_simps)
    with cc show ?thesis by simp
  qed
qed

lemma remove_resource_total: "\<exists>b t. remove_resource_after L c i s = (Inr b, t) \<and> node_core t = node_core s"
  by (auto simp: remove_resource_after_def split: prod.split)

lemma remove_then:
  assumes "eseq (remove_resource_after L c i) m s = (r, t)"
  obtains u where "node_core u = node_core s" "m u = (r, t)"
  using remove_resource_total [of c i s] assms by (auto simp: eff_simps)

lemma remove_existing_sender_effect:
  assumes run: "remove_existing_sender J L port i uncache s = (r, t)" and "\<And>j. core_fun (uncache j)"
  shows "r = Inr () \<and> node_core t = node_core (uncache (make_id L (nd_seed_id s) ''sender'' port i) s)"
proof -
  let ?id = "\<lambda>ty. make_id L (nd_seed_id s) ty port i"
  from run have "eseq (remove_resource_after L Node_resources (?id ''sender''))
    (eseq (remove_resource_after L Connection_resources (?id ''sender''))
    (eseq (remove_resource_after L Node_resources (?id ''source''))
    (eseq (remove_resource_after L Node_resources (?id ''flow''))
    (eseq (emod (uncache (?id ''sender'')))
    (eseq (emod (\<lambda>s. s\<lparr> nd_sender_ids := remove1 (?id ''sender'') (nd_sender_ids s),
                         nd_source_ids := remove1 (?id ''source'') (nd_source_ids s),
                         nd_flow_ids := remove1 (?id ''flow'') (nd_flow_ids s) \<rparr>))
          (update_device_senders J L)))))) s = (r, t)"
    by (simp add: remove_existing_sender_def ebind_apply eget_apply)
  then obtain u where u: "node_core u = node_core s"
    "eseq (emod (uncache (?id ''sender'')))
    (eseq (emod (\<lambda>s. s\<lparr> nd_sender_ids := remove1 (?id ''sender'') (nd_sender_ids s),
                         nd_source_ids := remove1 (?id ''source'') (nd_source_ids s),
                         nd_flow_ids := remove1 (?id ''flow'') (nd_flow_ids s) \<rparr>))
          (update_device_senders J L)) u = (r, t)"
    by (elim remove_then) auto
  let ?w = "uncache (?id ''sender'') u"
  let ?x = "?w\<lparr> nd_sender_ids := remove1 (?id ''sender'') (nd_sender_ids ?w),
               nd_source_ids := remove1 (?id ''source'') (nd_source_ids ?w),
               nd_flow_ids := remove1 (?id ''flow'') (nd_flow_ids ?w) \<rparr>"
  from u(2) have dev: "update_device_senders J L ?x = (r, t)" by (simp add: eff_simps)
  obtain y where "update_device_senders J L ?x = (Inr (), y)"
    using device_senders_total by blast
  with dev have "r = Inr ()" by simp
  moreover have "node_core t = node_core ?x" by (rule keepsD [OF keeps_device_senders dev])
  moreover have "node_core ?x = node_core ?w" by (simp add: node_core_def)
  moreover have "node_core ?w = node_core (uncache (?id ''sender'') s)"
    by (rule core_funD [OF assms(2) u(1)])
  ultimately show ?thesis by simp
qed

lemma insert_resource_total: "\<exists>b t. insert_resource_after L c x s = (Inr b, t)"
  by (auto simp: insert_resource_after_def split: prod.split)

lemma add_new_receiver_effect:
  assumes run: "add_new_receiver J L build t1 t2 cache s = (r, t)" and cache: "core_fun cache"
  shows "(\<exists>e. r = Inl e) \<and> node_core t = node_core s \<or> r = Inr () \<and> node_core t = node_core (cache s)"
proof (cases "build (node_env_of s)")
  case (Inl e)
  with run show ?thesis by (auto simp: add_new_receiver_def eff_simps)
next
  case (Inr res)
  let ?tail = "eseq (emod cache)
      (eseq (emod (\<lambda>s. s\<lparr> nd_receiver_ids := nd_receiver_ids s @ [re_id (rr_receiver res)] \<rparr>))
            (update_device_receivers J L))"
  let ?fail = "eseq (erase_resource_if_present L Node_resources (re_id (rr_receiver res))) (ethrow t2)"
  obtain u where u: "node_core u = node_core s"
    "ebind (insert_resource_after L Node_resources (rr_receiver res)) (\<lambda>ok1.
       if \<not> ok1 then ethrow t1 else
       ebind (insert_resource_after L Connection_resources (rr_connection res)) (\<lambda>ok2.
       if \<not> ok2 then ?fail else ?tail)) u = (r, t)"
  proof
    show "node_core (set_resources Node_resources
       (snd (nl_erase L (re_id (rr_receiver res)) (resources_of Node_resources
         (set_resources Connection_resources (snd (nl_erase L (re_id (rr_receiver res)) (nd_connection_resources s))) s))))
       (set_resources Connection_resources (snd (nl_erase L (re_id (rr_receiver res)) (nd_connection_resources s))) s))
        = node_core s" by (simp add: node_core_def)
  qed (use run Inr in \<open>simp add: add_new_receiver_def erase_resource_if_present_def eff_simps\<close>)
  obtain ok1 v where v: "insert_resource_after L Node_resources (rr_receiver res) u = (Inr ok1, v)"
    using insert_resource_total by blast
  then have cv: "node_core v = node_core u" by (rule keepsD [OF keeps_insert])
  obtain ok2 w where w: "insert_resource_after L Connection_resources (rr_connection res) v = (Inr ok2, w)"
    using insert_resource_total by blast
  then have cw: "node_core w = node_core v" by (rule keepsD [OF keeps_insert])
  show ?thesis
  proof (cases "ok1 \<and> ok2")
    case False
    with u(2) v w have "(\<exists>e. r = Inl e) \<and> (t = v \<or> ?fail w = (r, t))"
      by (auto simp: ebind_apply ethrow_apply eseq_apply erase_resource_if_present_def emod_apply split: if_splits)
    then show ?thesis using cv cw u(1) keepsD [of ?fail w r t]
      by (auto intro: keeps_intros)
  next
    case True
    let ?x = "(cache w)\<lparr> nd_receiver_ids := nd_receiver_ids (cache w) @ [re_id (rr_receiver res)] \<rparr>"
    from True u(2) v w have dev: "update_device_receivers J L ?x = (r, t)" by (simp add: eff_simps)
    obtain y where "update_device_receivers J L ?x = (Inr (), y)"
      using device_receivers_total by blast
    with dev have "r = Inr ()" by simp
    moreover have "node_core t = node_core ?x" by (rule keepsD [OF keeps_device_receivers dev])
    moreover have "node_core ?x = node_core (cache w)" by (simp add: node_core_def)
    moreover have "node_core (cache w) = node_core (cache s)"
      by (rule core_funD [OF cache]) (simp add: u(1) cv cw)
    ultimately show ?thesis by simp
  qed
qed

lemma update_existing_receiver_effect:
  assumes "update_existing_receiver J L d b build cache s = (r, t)" "core_fun cache"
  shows "(\<exists>e. r = Inl e) \<and> node_core t = node_core s \<or> r = Inr () \<and> node_core t = node_core (cache s)"
proof (cases "build (node_env_of s)")
  case (Inl e)
  with assms(1) show ?thesis by (auto simp: update_existing_receiver_def eff_simps)
next
  case (Inr res)
  obtain q u where u: "replace_receiver_resources J L d res b s = (q, u)"
    by (cases "replace_receiver_resources J L d res b s")
  then have cu: "node_core u = node_core s" by (rule keepsD [OF keeps_replace_receiver])
  have cc: "node_core (cache u) = node_core (cache s)" by (rule core_funD [OF assms(2) cu])
  show ?thesis
  proof (cases q)
    case (Inl e)
    with assms(1) Inr u cu show ?thesis by (simp add: update_existing_receiver_def eff_simps) blast
  next
    case q: (Inr a)
    with assms(1) Inr u have "r = Inr ()" "t = cache u"
      by (simp_all add: update_existing_receiver_def eff_simps)
    with cc show ?thesis by simp
  qed
qed

lemma remove_existing_receiver_effect:
  assumes run: "remove_existing_receiver J L port i uncache s = (r, t)" and "core_fun uncache"
  shows "r = Inr () \<and> node_core t = node_core (uncache s)"
proof -
  let ?id = "make_id L (nd_seed_id s) ''receiver'' port i"
  let ?u = "s\<lparr> nd_receiver_ids := remove1 ?id (nd_receiver_ids s) \<rparr>"
  obtain v where dev: "update_device_receivers J L ?u = (Inr (), v)"
    using device_receivers_total by blast
  then have "node_core v = node_core ?u" by (rule keepsD [OF keeps_device_receivers])
  then have cv: "node_core v = node_core s" by (simp add: node_core_def)
  from run dev have "eseq (remove_resource_after L Connection_resources ?id)
      (eseq (remove_resource_after L Node_resources ?id) (emod uncache)) v = (r, t)"
    by (simp add: remove_existing_receiver_def eff_simps)
  then obtain w where w: "node_core w = node_core v" "emod uncache w = (r, t)"
    by (elim remove_then) auto
  then have "r = Inr ()" "t = uncache w" by (simp_all add: eff_simps)
  moreover have "node_core (uncache w) = node_core (uncache s)"
    by (rule core_funD [OF assms(2)]) (simp add: w(1) cv)
  ultimately show ?thesis by simp
qed

end

section \<open>The invariant and the laws\<close>

definition node_good :: "('v, 'rs, 'y) nmos_lib_scheme \<Rightarrow> ('v, 'rs) node \<Rightarrow> bool" where
  "node_good L s \<longleftrightarrow>
     cache_good vs_id (\<lambda>v. vs_sender_id v = make_id L (nd_seed_id s) ''sender'' port_video (vs_id v)) (nd_video_senders s) \<and>
     cache_good as_id (\<lambda>v. as_sender_id v = make_id L (nd_seed_id s) ''sender'' port_audio (as_id v)) (nd_audio_senders s) \<and>
     cache_good ns_id (\<lambda>v. ns_sender_id v = make_id L (nd_seed_id s) ''sender'' port_data (ns_id v)) (nd_ancillary_senders s) \<and>
     cache_good vr_id (\<lambda>_. True) (nd_video_receivers s) \<and>
     cache_good ar_id (\<lambda>_. True) (nd_audio_receivers s) \<and>
     cache_good nr_id (\<lambda>_. True) (nd_ancillary_receivers s)"

lemma node_good_core: "node_core s = node_core t \<Longrightarrow> node_good L s = node_good L t"
  by (simp add: node_good_def node_core_def)

definition vs_obs :: "video_sender \<Rightarrow> video_sender" where "vs_obs v = v\<lparr> vs_sender_id := [] \<rparr>"
definition as_obs :: "audio_sender \<Rightarrow> audio_sender" where "as_obs v = v\<lparr> as_sender_id := [] \<rparr>"
definition ns_obs :: "ancillary_sender \<Rightarrow> ancillary_sender" where "ns_obs v = v\<lparr> ns_sender_id := [] \<rparr>"

lemmas obs_defs = vs_obs_def as_obs_def ns_obs_def

definition vs_view :: "('v, 'rs) node \<Rightarrow> string \<Rightarrow> video_sender option" where
  "vs_view s = cached_view vs_id vs_obs (nd_video_senders s)"

definition as_view :: "('v, 'rs) node \<Rightarrow> string \<Rightarrow> audio_sender option" where
  "as_view s = cached_view as_id as_obs (nd_audio_senders s)"

definition ns_view :: "('v, 'rs) node \<Rightarrow> string \<Rightarrow> ancillary_sender option" where
  "ns_view s = cached_view ns_id ns_obs (nd_ancillary_senders s)"

definition vr_view :: "('v, 'rs) node \<Rightarrow> string \<Rightarrow> video_receiver option" where
  "vr_view s = cached_view vr_id (\<lambda>x. x) (nd_video_receivers s)"

definition ar_view :: "('v, 'rs) node \<Rightarrow> string \<Rightarrow> audio_receiver option" where
  "ar_view s = cached_view ar_id (\<lambda>x. x) (nd_audio_receivers s)"

definition nr_view :: "('v, 'rs) node \<Rightarrow> string \<Rightarrow> ancillary_receiver option" where
  "nr_view s = cached_view nr_id (\<lambda>x. x) (nd_ancillary_receivers s)"

definition vs_frame ::
    "('v, 'rs) node \<Rightarrow> string \<times> (string \<Rightarrow> audio_sender option) \<times> (string \<Rightarrow> ancillary_sender option) \<times> (string \<Rightarrow> video_receiver option) \<times> (string \<Rightarrow> audio_receiver option) \<times> (string \<Rightarrow> ancillary_receiver option)" where
  "vs_frame s = (nd_seed_id s, as_view s, ns_view s, vr_view s, ar_view s, nr_view s)"

definition as_frame ::
    "('v, 'rs) node \<Rightarrow> string \<times> (string \<Rightarrow> video_sender option) \<times> (string \<Rightarrow> ancillary_sender option) \<times> (string \<Rightarrow> video_receiver option) \<times> (string \<Rightarrow> audio_receiver option) \<times> (string \<Rightarrow> ancillary_receiver option)" where
  "as_frame s = (nd_seed_id s, vs_view s, ns_view s, vr_view s, ar_view s, nr_view s)"

definition ns_frame ::
    "('v, 'rs) node \<Rightarrow> string \<times> (string \<Rightarrow> video_sender option) \<times> (string \<Rightarrow> audio_sender option) \<times> (string \<Rightarrow> video_receiver option) \<times> (string \<Rightarrow> audio_receiver option) \<times> (string \<Rightarrow> ancillary_receiver option)" where
  "ns_frame s = (nd_seed_id s, vs_view s, as_view s, vr_view s, ar_view s, nr_view s)"

definition vr_frame ::
    "('v, 'rs) node \<Rightarrow> string \<times> (string \<Rightarrow> video_sender option) \<times> (string \<Rightarrow> audio_sender option) \<times> (string \<Rightarrow> ancillary_sender option) \<times> (string \<Rightarrow> audio_receiver option) \<times> (string \<Rightarrow> ancillary_receiver option)" where
  "vr_frame s = (nd_seed_id s, vs_view s, as_view s, ns_view s, ar_view s, nr_view s)"

definition ar_frame ::
    "('v, 'rs) node \<Rightarrow> string \<times> (string \<Rightarrow> video_sender option) \<times> (string \<Rightarrow> audio_sender option) \<times> (string \<Rightarrow> ancillary_sender option) \<times> (string \<Rightarrow> video_receiver option) \<times> (string \<Rightarrow> ancillary_receiver option)" where
  "ar_frame s = (nd_seed_id s, vs_view s, as_view s, ns_view s, vr_view s, nr_view s)"

definition nr_frame ::
    "('v, 'rs) node \<Rightarrow> string \<times> (string \<Rightarrow> video_sender option) \<times> (string \<Rightarrow> audio_sender option) \<times> (string \<Rightarrow> ancillary_sender option) \<times> (string \<Rightarrow> video_receiver option) \<times> (string \<Rightarrow> audio_receiver option)" where
  "nr_frame s = (nd_seed_id s, vs_view s, as_view s, ns_view s, vr_view s, ar_view s)"

lemmas view_defs = vs_view_def as_view_def ns_view_def vr_view_def ar_view_def nr_view_def
lemmas frame_defs = vs_frame_def as_frame_def ns_frame_def vr_frame_def ar_frame_def nr_frame_def

lemma views_core:
  assumes "node_core s = node_core t"
  shows "vs_view s = vs_view t"
    and "as_view s = as_view t"
    and "ns_view s = ns_view t"
    and "vr_view s = vr_view t"
    and "ar_view s = ar_view t"
    and "nr_view s = nr_view t"
  using assms by (simp_all add: view_defs node_core_def)

lemma frames_core:
  assumes "node_core s = node_core t"
  shows "vs_frame s = vs_frame t"
    and "as_frame s = as_frame t"
    and "ns_frame s = ns_frame t"
    and "vr_frame s = vr_frame t"
    and "ar_frame s = ar_frame t"
    and "nr_frame s = nr_frame t"
  using assms by (simp_all add: frame_defs view_defs node_core_def)

context resource_store
begin

lemma vs_upsert:
  assumes good: "node_good L s"
    and run: "ewhen_cached (find_video_sender_by_id (vs_id x)) (update_existing_video_sender J L T x)
      (add_new_video_sender J L x) s = (r, t)"
  shows "node_good L t \<and> vs_frame t = vs_frame s \<and>
    vs_view t = (if r = Inr () then (vs_view s)(vs_id x \<mapsto> vs_obs x) else vs_view s)"
proof -
  let ?own = "\<lambda>v. vs_sender_id v = make_id L (nd_seed_id s) ''sender'' port_video (vs_id v)"
  let ?x = "x\<lparr> vs_sender_id := make_id L (nd_seed_id s) ''sender'' port_video (vs_id x) \<rparr>"
  have cache: "cache_good vs_id ?own (nd_video_senders s)"
    using good by (simp add: node_good_def)
  have edit: "node_good L u \<and> vs_frame u = vs_frame s \<and> vs_view u = (vs_view s)(vs_id x \<mapsto> vs_obs x)"
    if "u = s\<lparr> nd_video_senders := ys \<rparr>" "cache_good vs_id ?own ys"
      "cached_view vs_id vs_obs ys = (cached_view vs_id vs_obs (nd_video_senders s))(vs_id ?x \<mapsto> vs_obs ?x)" for u ys
    using that good by (simp add: node_good_def frame_defs view_defs vs_obs_def)
  have same: ?thesis if "r \<noteq> Inr ()" "node_core t = node_core s"
    using that good node_good_core [of t s L] views_core [of t s] frames_core [of t s] by simp
  have changed: ?thesis if "r = Inr ()" "node_core t = node_core u"
      "node_good L u \<and> vs_frame u = vs_frame s \<and> vs_view u = (vs_view s)(vs_id x \<mapsto> vs_obs x)" for u
    using that node_good_core [of t u L] views_core [of t u] frames_core [of t u] by simp
  show ?thesis
  proof (cases "find_by_id vs_id (nd_video_senders s) (vs_id x) = None")
    case True
    with run have "add_new_video_sender J L x s = (r, t)" by (simp add: ewhen_cached_def find_by_id_defs)
    then have "(\<exists>e. r = Inl e) \<and> node_core t = node_core s \<or>
        r = Inr () \<and> (\<exists>res. make_video_sender_resources J L (node_env_of s) x = Inr res \<and>
          node_core t = node_core (s\<lparr> nd_video_senders := nd_video_senders s @ [x\<lparr> vs_sender_id := re_id (sr_sender res) \<rparr>] \<rparr>))"
      unfolding add_new_video_sender_def
      by (rule add_new_sender_effect) (auto intro: keeps_intros simp: core_fun_def node_core_def)
    then have "(\<exists>e. r = Inl e) \<and> node_core t = node_core s \<or>
        r = Inr () \<and> node_core t = node_core (s\<lparr> nd_video_senders := nd_video_senders s @ [?x] \<rparr>)"
      by (auto simp: node_env_of_def dest: video_sender_ids)
    then consider (err) e where "r = Inl e" "node_core t = node_core s"
      | (ok) "r = Inr ()" "node_core t = node_core (s\<lparr> nd_video_senders := nd_video_senders s @ [?x] \<rparr>)" by blast
    then show ?thesis
    proof cases
      case err
      then show ?thesis by (intro same) simp_all
    next
      case ok
      have "find_by_id vs_id (nd_video_senders s) (vs_id ?x) = None" "?own ?x" using True by simp_all
      then have c: "cache_good vs_id ?own (nd_video_senders s @ [?x]) \<and>
          cached_view vs_id vs_obs (nd_video_senders s @ [?x])
            = (cached_view vs_id vs_obs (nd_video_senders s))(vs_id ?x \<mapsto> vs_obs ?x)"
        by (rule cache_push [OF cache])
      show ?thesis by (rule changed [OF ok edit [OF refl conjunct1 [OF c] conjunct2 [OF c]]])
    qed
  next
    case False
    with run have "update_existing_video_sender J L T x s = (r, t)" by (simp add: ewhen_cached_def find_by_id_defs)
    then have "(\<exists>e. r = Inl e) \<and> node_core t = node_core s \<or>
        r = Inr () \<and> node_core t = node_core (s\<lparr> nd_video_senders := replace_cached_by_id vs_id ?x (nd_video_senders s) \<rparr>)"
      unfolding update_existing_video_sender_def
      by (rule update_existing_sender_effect) (simp add: core_fun_def node_core_def)
    then consider (err) e where "r = Inl e" "node_core t = node_core s"
      | (ok) "r = Inr ()" "node_core t = node_core (s\<lparr> nd_video_senders := replace_cached_by_id vs_id ?x (nd_video_senders s) \<rparr>)"
      by blast
    then show ?thesis
    proof cases
      case err
      then show ?thesis by (intro same) simp_all
    next
      case ok
      have "find_by_id vs_id (nd_video_senders s) (vs_id ?x) \<noteq> None" "?own ?x" using False by simp_all
      then have c: "cache_good vs_id ?own (replace_cached_by_id vs_id ?x (nd_video_senders s)) \<and>
          cached_view vs_id vs_obs (replace_cached_by_id vs_id ?x (nd_video_senders s))
            = (cached_view vs_id vs_obs (nd_video_senders s))(vs_id ?x \<mapsto> vs_obs ?x)"
        by (rule cache_replace [OF cache])
      show ?thesis by (rule changed [OF ok edit [OF refl conjunct1 [OF c] conjunct2 [OF c]]])
    qed
  qed
qed

lemma vs_remove:
  assumes good: "node_good L s" and run: "remove_video_sender J L i s = (r, t)"
  shows "r = Inr () \<and> node_good L t \<and> vs_frame t = vs_frame s \<and> vs_view t = (vs_view s)(i := None)"
proof -
  let ?own = "\<lambda>v. vs_sender_id v = make_id L (nd_seed_id s) ''sender'' port_video (vs_id v)"
  have cache: "cache_good vs_id ?own (nd_video_senders s)"
    using good by (simp add: node_good_def)
  let ?u = "s\<lparr> nd_video_senders := filter (\<lambda>v. vs_id v \<noteq> i) (nd_video_senders s) \<rparr>"
  show ?thesis
  proof (cases "find_by_id vs_id (nd_video_senders s) i = None")
    case True
    with run good show ?thesis
      by (simp add: remove_video_sender_def ewhen_cached_def find_by_id_defs eret_apply vs_view_def view_absent)
  next
    case False
    have "filter (\<lambda>v. vs_sender_id v \<noteq> make_id L (nd_seed_id s) ''sender'' port_video i) (nd_video_senders s)
        = filter (\<lambda>v. vs_id v \<noteq> i) (nd_video_senders s)"
      using cache by (intro filter_cong) (auto simp: cache_good_def list_all_iff make_id_inj)
    moreover from run False have "r = Inr () \<and> node_core t = node_core (s\<lparr> nd_video_senders :=
        filter (\<lambda>v. vs_sender_id v \<noteq> make_id L (nd_seed_id s) ''sender'' port_video i) (nd_video_senders s) \<rparr>)"
      unfolding remove_video_sender_def uncache_defs
      by (intro remove_existing_sender_effect [where s = s]) (auto simp: ewhen_cached_def find_by_id_defs core_fun_def node_core_def)
    ultimately have "r = Inr ()" "node_core t = node_core ?u" by simp_all
    moreover have "node_good L ?u \<and> vs_frame ?u = vs_frame s \<and> vs_view ?u = (vs_view s)(i := None)"
      using cache_filter [OF cache, of i vs_obs] good by (simp add: node_good_def frame_defs view_defs)
    ultimately show ?thesis
      using node_good_core [of t ?u L] views_core [of t ?u] frames_core [of t ?u] by simp
  qed
qed

lemma as_upsert:
  assumes good: "node_good L s"
    and run: "ewhen_cached (find_audio_sender_by_id (as_id x)) (update_existing_audio_sender J L T x)
      (add_new_audio_sender J L x) s = (r, t)"
  shows "node_good L t \<and> as_frame t = as_frame s \<and>
    as_view t = (if r = Inr () then (as_view s)(as_id x \<mapsto> as_obs x) else as_view s)"
proof -
  let ?own = "\<lambda>v. as_sender_id v = make_id L (nd_seed_id s) ''sender'' port_audio (as_id v)"
  let ?x = "x\<lparr> as_sender_id := make_id L (nd_seed_id s) ''sender'' port_audio (as_id x) \<rparr>"
  have cache: "cache_good as_id ?own (nd_audio_senders s)"
    using good by (simp add: node_good_def)
  have edit: "node_good L u \<and> as_frame u = as_frame s \<and> as_view u = (as_view s)(as_id x \<mapsto> as_obs x)"
    if "u = s\<lparr> nd_audio_senders := ys \<rparr>" "cache_good as_id ?own ys"
      "cached_view as_id as_obs ys = (cached_view as_id as_obs (nd_audio_senders s))(as_id ?x \<mapsto> as_obs ?x)" for u ys
    using that good by (simp add: node_good_def frame_defs view_defs as_obs_def)
  have same: ?thesis if "r \<noteq> Inr ()" "node_core t = node_core s"
    using that good node_good_core [of t s L] views_core [of t s] frames_core [of t s] by simp
  have changed: ?thesis if "r = Inr ()" "node_core t = node_core u"
      "node_good L u \<and> as_frame u = as_frame s \<and> as_view u = (as_view s)(as_id x \<mapsto> as_obs x)" for u
    using that node_good_core [of t u L] views_core [of t u] frames_core [of t u] by simp
  show ?thesis
  proof (cases "find_by_id as_id (nd_audio_senders s) (as_id x) = None")
    case True
    with run have "add_new_audio_sender J L x s = (r, t)" by (simp add: ewhen_cached_def find_by_id_defs)
    then have "(\<exists>e. r = Inl e) \<and> node_core t = node_core s \<or>
        r = Inr () \<and> (\<exists>res. make_audio_sender_resources J L (node_env_of s) x = Inr res \<and>
          node_core t = node_core (s\<lparr> nd_audio_senders := nd_audio_senders s @ [x\<lparr> as_sender_id := re_id (sr_sender res) \<rparr>] \<rparr>))"
      unfolding add_new_audio_sender_def
      by (rule add_new_sender_effect) (auto intro: keeps_intros simp: core_fun_def node_core_def)
    then have "(\<exists>e. r = Inl e) \<and> node_core t = node_core s \<or>
        r = Inr () \<and> node_core t = node_core (s\<lparr> nd_audio_senders := nd_audio_senders s @ [?x] \<rparr>)"
      by (auto simp: node_env_of_def dest: audio_sender_ids)
    then consider (err) e where "r = Inl e" "node_core t = node_core s"
      | (ok) "r = Inr ()" "node_core t = node_core (s\<lparr> nd_audio_senders := nd_audio_senders s @ [?x] \<rparr>)" by blast
    then show ?thesis
    proof cases
      case err
      then show ?thesis by (intro same) simp_all
    next
      case ok
      have "find_by_id as_id (nd_audio_senders s) (as_id ?x) = None" "?own ?x" using True by simp_all
      then have c: "cache_good as_id ?own (nd_audio_senders s @ [?x]) \<and>
          cached_view as_id as_obs (nd_audio_senders s @ [?x])
            = (cached_view as_id as_obs (nd_audio_senders s))(as_id ?x \<mapsto> as_obs ?x)"
        by (rule cache_push [OF cache])
      show ?thesis by (rule changed [OF ok edit [OF refl conjunct1 [OF c] conjunct2 [OF c]]])
    qed
  next
    case False
    with run have "update_existing_audio_sender J L T x s = (r, t)" by (simp add: ewhen_cached_def find_by_id_defs)
    then have "(\<exists>e. r = Inl e) \<and> node_core t = node_core s \<or>
        r = Inr () \<and> node_core t = node_core (s\<lparr> nd_audio_senders := replace_cached_by_id as_id ?x (nd_audio_senders s) \<rparr>)"
      unfolding update_existing_audio_sender_def
      by (rule update_existing_sender_effect) (simp add: core_fun_def node_core_def)
    then consider (err) e where "r = Inl e" "node_core t = node_core s"
      | (ok) "r = Inr ()" "node_core t = node_core (s\<lparr> nd_audio_senders := replace_cached_by_id as_id ?x (nd_audio_senders s) \<rparr>)"
      by blast
    then show ?thesis
    proof cases
      case err
      then show ?thesis by (intro same) simp_all
    next
      case ok
      have "find_by_id as_id (nd_audio_senders s) (as_id ?x) \<noteq> None" "?own ?x" using False by simp_all
      then have c: "cache_good as_id ?own (replace_cached_by_id as_id ?x (nd_audio_senders s)) \<and>
          cached_view as_id as_obs (replace_cached_by_id as_id ?x (nd_audio_senders s))
            = (cached_view as_id as_obs (nd_audio_senders s))(as_id ?x \<mapsto> as_obs ?x)"
        by (rule cache_replace [OF cache])
      show ?thesis by (rule changed [OF ok edit [OF refl conjunct1 [OF c] conjunct2 [OF c]]])
    qed
  qed
qed

lemma as_remove:
  assumes good: "node_good L s" and run: "remove_audio_sender J L i s = (r, t)"
  shows "r = Inr () \<and> node_good L t \<and> as_frame t = as_frame s \<and> as_view t = (as_view s)(i := None)"
proof -
  let ?own = "\<lambda>v. as_sender_id v = make_id L (nd_seed_id s) ''sender'' port_audio (as_id v)"
  have cache: "cache_good as_id ?own (nd_audio_senders s)"
    using good by (simp add: node_good_def)
  let ?u = "s\<lparr> nd_audio_senders := filter (\<lambda>v. as_id v \<noteq> i) (nd_audio_senders s) \<rparr>"
  show ?thesis
  proof (cases "find_by_id as_id (nd_audio_senders s) i = None")
    case True
    with run good show ?thesis
      by (simp add: remove_audio_sender_def ewhen_cached_def find_by_id_defs eret_apply as_view_def view_absent)
  next
    case False
    have "filter (\<lambda>v. as_sender_id v \<noteq> make_id L (nd_seed_id s) ''sender'' port_audio i) (nd_audio_senders s)
        = filter (\<lambda>v. as_id v \<noteq> i) (nd_audio_senders s)"
      using cache by (intro filter_cong) (auto simp: cache_good_def list_all_iff make_id_inj)
    moreover from run False have "r = Inr () \<and> node_core t = node_core (s\<lparr> nd_audio_senders :=
        filter (\<lambda>v. as_sender_id v \<noteq> make_id L (nd_seed_id s) ''sender'' port_audio i) (nd_audio_senders s) \<rparr>)"
      unfolding remove_audio_sender_def uncache_defs
      by (intro remove_existing_sender_effect [where s = s]) (auto simp: ewhen_cached_def find_by_id_defs core_fun_def node_core_def)
    ultimately have "r = Inr ()" "node_core t = node_core ?u" by simp_all
    moreover have "node_good L ?u \<and> as_frame ?u = as_frame s \<and> as_view ?u = (as_view s)(i := None)"
      using cache_filter [OF cache, of i as_obs] good by (simp add: node_good_def frame_defs view_defs)
    ultimately show ?thesis
      using node_good_core [of t ?u L] views_core [of t ?u] frames_core [of t ?u] by simp
  qed
qed

lemma ns_upsert:
  assumes good: "node_good L s"
    and run: "ewhen_cached (find_ancillary_sender_by_id (ns_id x)) (update_existing_ancillary_sender J L T x)
      (add_new_ancillary_sender J L x) s = (r, t)"
  shows "node_good L t \<and> ns_frame t = ns_frame s \<and>
    ns_view t = (if r = Inr () then (ns_view s)(ns_id x \<mapsto> ns_obs x) else ns_view s)"
proof -
  let ?own = "\<lambda>v. ns_sender_id v = make_id L (nd_seed_id s) ''sender'' port_data (ns_id v)"
  let ?x = "x\<lparr> ns_sender_id := make_id L (nd_seed_id s) ''sender'' port_data (ns_id x) \<rparr>"
  have cache: "cache_good ns_id ?own (nd_ancillary_senders s)"
    using good by (simp add: node_good_def)
  have edit: "node_good L u \<and> ns_frame u = ns_frame s \<and> ns_view u = (ns_view s)(ns_id x \<mapsto> ns_obs x)"
    if "u = s\<lparr> nd_ancillary_senders := ys \<rparr>" "cache_good ns_id ?own ys"
      "cached_view ns_id ns_obs ys = (cached_view ns_id ns_obs (nd_ancillary_senders s))(ns_id ?x \<mapsto> ns_obs ?x)" for u ys
    using that good by (simp add: node_good_def frame_defs view_defs ns_obs_def)
  have same: ?thesis if "r \<noteq> Inr ()" "node_core t = node_core s"
    using that good node_good_core [of t s L] views_core [of t s] frames_core [of t s] by simp
  have changed: ?thesis if "r = Inr ()" "node_core t = node_core u"
      "node_good L u \<and> ns_frame u = ns_frame s \<and> ns_view u = (ns_view s)(ns_id x \<mapsto> ns_obs x)" for u
    using that node_good_core [of t u L] views_core [of t u] frames_core [of t u] by simp
  show ?thesis
  proof (cases "find_by_id ns_id (nd_ancillary_senders s) (ns_id x) = None")
    case True
    with run have "add_new_ancillary_sender J L x s = (r, t)" by (simp add: ewhen_cached_def find_by_id_defs)
    then have "(\<exists>e. r = Inl e) \<and> node_core t = node_core s \<or>
        r = Inr () \<and> (\<exists>res. make_ancillary_sender_resources J L (node_env_of s) x = Inr res \<and>
          node_core t = node_core (s\<lparr> nd_ancillary_senders := nd_ancillary_senders s @ [x\<lparr> ns_sender_id := re_id (sr_sender res) \<rparr>] \<rparr>))"
      unfolding add_new_ancillary_sender_def
      by (rule add_new_sender_effect) (auto intro: keeps_intros simp: core_fun_def node_core_def)
    then have "(\<exists>e. r = Inl e) \<and> node_core t = node_core s \<or>
        r = Inr () \<and> node_core t = node_core (s\<lparr> nd_ancillary_senders := nd_ancillary_senders s @ [?x] \<rparr>)"
      by (auto simp: node_env_of_def dest: ancillary_sender_ids)
    then consider (err) e where "r = Inl e" "node_core t = node_core s"
      | (ok) "r = Inr ()" "node_core t = node_core (s\<lparr> nd_ancillary_senders := nd_ancillary_senders s @ [?x] \<rparr>)" by blast
    then show ?thesis
    proof cases
      case err
      then show ?thesis by (intro same) simp_all
    next
      case ok
      have "find_by_id ns_id (nd_ancillary_senders s) (ns_id ?x) = None" "?own ?x" using True by simp_all
      then have c: "cache_good ns_id ?own (nd_ancillary_senders s @ [?x]) \<and>
          cached_view ns_id ns_obs (nd_ancillary_senders s @ [?x])
            = (cached_view ns_id ns_obs (nd_ancillary_senders s))(ns_id ?x \<mapsto> ns_obs ?x)"
        by (rule cache_push [OF cache])
      show ?thesis by (rule changed [OF ok edit [OF refl conjunct1 [OF c] conjunct2 [OF c]]])
    qed
  next
    case False
    with run have "update_existing_ancillary_sender J L T x s = (r, t)" by (simp add: ewhen_cached_def find_by_id_defs)
    then have "(\<exists>e. r = Inl e) \<and> node_core t = node_core s \<or>
        r = Inr () \<and> node_core t = node_core (s\<lparr> nd_ancillary_senders := replace_cached_by_id ns_id ?x (nd_ancillary_senders s) \<rparr>)"
      unfolding update_existing_ancillary_sender_def
      by (rule update_existing_sender_effect) (simp add: core_fun_def node_core_def)
    then consider (err) e where "r = Inl e" "node_core t = node_core s"
      | (ok) "r = Inr ()" "node_core t = node_core (s\<lparr> nd_ancillary_senders := replace_cached_by_id ns_id ?x (nd_ancillary_senders s) \<rparr>)"
      by blast
    then show ?thesis
    proof cases
      case err
      then show ?thesis by (intro same) simp_all
    next
      case ok
      have "find_by_id ns_id (nd_ancillary_senders s) (ns_id ?x) \<noteq> None" "?own ?x" using False by simp_all
      then have c: "cache_good ns_id ?own (replace_cached_by_id ns_id ?x (nd_ancillary_senders s)) \<and>
          cached_view ns_id ns_obs (replace_cached_by_id ns_id ?x (nd_ancillary_senders s))
            = (cached_view ns_id ns_obs (nd_ancillary_senders s))(ns_id ?x \<mapsto> ns_obs ?x)"
        by (rule cache_replace [OF cache])
      show ?thesis by (rule changed [OF ok edit [OF refl conjunct1 [OF c] conjunct2 [OF c]]])
    qed
  qed
qed

lemma ns_remove:
  assumes good: "node_good L s" and run: "remove_ancillary_sender J L i s = (r, t)"
  shows "r = Inr () \<and> node_good L t \<and> ns_frame t = ns_frame s \<and> ns_view t = (ns_view s)(i := None)"
proof -
  let ?own = "\<lambda>v. ns_sender_id v = make_id L (nd_seed_id s) ''sender'' port_data (ns_id v)"
  have cache: "cache_good ns_id ?own (nd_ancillary_senders s)"
    using good by (simp add: node_good_def)
  let ?u = "s\<lparr> nd_ancillary_senders := filter (\<lambda>v. ns_id v \<noteq> i) (nd_ancillary_senders s) \<rparr>"
  show ?thesis
  proof (cases "find_by_id ns_id (nd_ancillary_senders s) i = None")
    case True
    with run good show ?thesis
      by (simp add: remove_ancillary_sender_def ewhen_cached_def find_by_id_defs eret_apply ns_view_def view_absent)
  next
    case False
    have "filter (\<lambda>v. ns_sender_id v \<noteq> make_id L (nd_seed_id s) ''sender'' port_data i) (nd_ancillary_senders s)
        = filter (\<lambda>v. ns_id v \<noteq> i) (nd_ancillary_senders s)"
      using cache by (intro filter_cong) (auto simp: cache_good_def list_all_iff make_id_inj)
    moreover from run False have "r = Inr () \<and> node_core t = node_core (s\<lparr> nd_ancillary_senders :=
        filter (\<lambda>v. ns_sender_id v \<noteq> make_id L (nd_seed_id s) ''sender'' port_data i) (nd_ancillary_senders s) \<rparr>)"
      unfolding remove_ancillary_sender_def uncache_defs
      by (intro remove_existing_sender_effect [where s = s]) (auto simp: ewhen_cached_def find_by_id_defs core_fun_def node_core_def)
    ultimately have "r = Inr ()" "node_core t = node_core ?u" by simp_all
    moreover have "node_good L ?u \<and> ns_frame ?u = ns_frame s \<and> ns_view ?u = (ns_view s)(i := None)"
      using cache_filter [OF cache, of i ns_obs] good by (simp add: node_good_def frame_defs view_defs)
    ultimately show ?thesis
      using node_good_core [of t ?u L] views_core [of t ?u] frames_core [of t ?u] by simp
  qed
qed

lemma vr_upsert:
  assumes good: "node_good L s"
    and run: "ewhen_cached (find_video_receiver_by_id (vr_id x)) (update_existing_video_receiver J L x)
      (add_new_video_receiver J L x) s = (r, t)"
  shows "node_good L t \<and> vr_frame t = vr_frame s \<and>
    vr_view t = (if r = Inr () then (vr_view s)(vr_id x \<mapsto> x) else vr_view s)"
proof -
  have cache: "cache_good vr_id (\<lambda>_. True) (nd_video_receivers s)"
    using good by (simp add: node_good_def)
  have edit: "node_good L u \<and> vr_frame u = vr_frame s \<and> vr_view u = (vr_view s)(vr_id x \<mapsto> x)"
    if "u = s\<lparr> nd_video_receivers := ys \<rparr>" "cache_good vr_id (\<lambda>_. True) ys"
      "cached_view vr_id (\<lambda>x. x) ys = (cached_view vr_id (\<lambda>x. x) (nd_video_receivers s))(vr_id x \<mapsto> x)" for u ys
    using that good by (simp add: node_good_def frame_defs view_defs)
  have same: ?thesis if "r \<noteq> Inr ()" "node_core t = node_core s"
    using that good node_good_core [of t s L] views_core [of t s] frames_core [of t s] by simp
  have changed: ?thesis if "r = Inr ()" "node_core t = node_core u"
      "node_good L u \<and> vr_frame u = vr_frame s \<and> vr_view u = (vr_view s)(vr_id x \<mapsto> x)" for u
    using that node_good_core [of t u L] views_core [of t u] frames_core [of t u] by simp
  show ?thesis
  proof (cases "find_by_id vr_id (nd_video_receivers s) (vr_id x) = None")
    case True
    with run have "add_new_video_receiver J L x s = (r, t)" by (simp add: ewhen_cached_def find_by_id_defs)
    then have "(\<exists>e. r = Inl e) \<and> node_core t = node_core s \<or>
        r = Inr () \<and> node_core t = node_core (s\<lparr> nd_video_receivers := nd_video_receivers s @ [x] \<rparr>)"
      unfolding add_new_video_receiver_def
      by (rule add_new_receiver_effect) (simp add: core_fun_def node_core_def)
    then consider (err) e where "r = Inl e" "node_core t = node_core s"
      | (ok) "r = Inr ()" "node_core t = node_core (s\<lparr> nd_video_receivers := nd_video_receivers s @ [x] \<rparr>)" by blast
    then show ?thesis
    proof cases
      case err
      then show ?thesis by (intro same) simp_all
    next
      case ok
      from cache_push [OF cache True TrueI]
      have c: "cache_good vr_id (\<lambda>_. True) (nd_video_receivers s @ [x]) \<and>
          cached_view vr_id (\<lambda>x. x) (nd_video_receivers s @ [x])
            = (cached_view vr_id (\<lambda>x. x) (nd_video_receivers s))(vr_id x \<mapsto> x)" .
      show ?thesis by (rule changed [OF ok edit [OF refl conjunct1 [OF c] conjunct2 [OF c]]])
    qed
  next
    case False
    with run have "update_existing_video_receiver J L x s = (r, t)" by (simp add: ewhen_cached_def find_by_id_defs)
    then have "(\<exists>e. r = Inl e) \<and> node_core t = node_core s \<or>
        r = Inr () \<and> node_core t = node_core (s\<lparr> nd_video_receivers := replace_cached_by_id vr_id x (nd_video_receivers s) \<rparr>)"
      unfolding update_existing_video_receiver_def
      by (rule update_existing_receiver_effect) (simp add: core_fun_def node_core_def)
    then consider (err) e where "r = Inl e" "node_core t = node_core s"
      | (ok) "r = Inr ()" "node_core t = node_core (s\<lparr> nd_video_receivers := replace_cached_by_id vr_id x (nd_video_receivers s) \<rparr>)"
      by blast
    then show ?thesis
    proof cases
      case err
      then show ?thesis by (intro same) simp_all
    next
      case ok
      from cache_replace [OF cache False TrueI]
      have c: "cache_good vr_id (\<lambda>_. True) (replace_cached_by_id vr_id x (nd_video_receivers s)) \<and>
          cached_view vr_id (\<lambda>x. x) (replace_cached_by_id vr_id x (nd_video_receivers s))
            = (cached_view vr_id (\<lambda>x. x) (nd_video_receivers s))(vr_id x \<mapsto> x)" .
      show ?thesis by (rule changed [OF ok edit [OF refl conjunct1 [OF c] conjunct2 [OF c]]])
    qed
  qed
qed

lemma vr_remove:
  assumes good: "node_good L s" and run: "remove_video_receiver J L i s = (r, t)"
  shows "r = Inr () \<and> node_good L t \<and> vr_frame t = vr_frame s \<and> vr_view t = (vr_view s)(i := None)"
proof -
  have cache: "cache_good vr_id (\<lambda>_. True) (nd_video_receivers s)"
    using good by (simp add: node_good_def)
  let ?u = "s\<lparr> nd_video_receivers := filter (\<lambda>v. vr_id v \<noteq> i) (nd_video_receivers s) \<rparr>"
  show ?thesis
  proof (cases "find_by_id vr_id (nd_video_receivers s) i = None")
    case True
    with run good show ?thesis
      by (simp add: remove_video_receiver_def ewhen_cached_def find_by_id_defs eret_apply vr_view_def view_absent)
  next
    case False
    with run have "r = Inr () \<and> node_core t = node_core ?u"
      unfolding remove_video_receiver_def uncache_defs
      by (intro remove_existing_receiver_effect [where s = s]) (auto simp: ewhen_cached_def find_by_id_defs core_fun_def node_core_def)
    moreover have "node_good L ?u \<and> vr_frame ?u = vr_frame s \<and> vr_view ?u = (vr_view s)(i := None)"
      using cache_filter [OF cache, of i "\<lambda>x. x"] good by (simp add: node_good_def frame_defs view_defs)
    ultimately show ?thesis
      using node_good_core [of t ?u L] views_core [of t ?u] frames_core [of t ?u] by simp
  qed
qed

lemma ar_upsert:
  assumes good: "node_good L s"
    and run: "ewhen_cached (find_audio_receiver_by_id (ar_id x)) (update_existing_audio_receiver J L x)
      (add_new_audio_receiver J L x) s = (r, t)"
  shows "node_good L t \<and> ar_frame t = ar_frame s \<and>
    ar_view t = (if r = Inr () then (ar_view s)(ar_id x \<mapsto> x) else ar_view s)"
proof -
  have cache: "cache_good ar_id (\<lambda>_. True) (nd_audio_receivers s)"
    using good by (simp add: node_good_def)
  have edit: "node_good L u \<and> ar_frame u = ar_frame s \<and> ar_view u = (ar_view s)(ar_id x \<mapsto> x)"
    if "u = s\<lparr> nd_audio_receivers := ys \<rparr>" "cache_good ar_id (\<lambda>_. True) ys"
      "cached_view ar_id (\<lambda>x. x) ys = (cached_view ar_id (\<lambda>x. x) (nd_audio_receivers s))(ar_id x \<mapsto> x)" for u ys
    using that good by (simp add: node_good_def frame_defs view_defs)
  have same: ?thesis if "r \<noteq> Inr ()" "node_core t = node_core s"
    using that good node_good_core [of t s L] views_core [of t s] frames_core [of t s] by simp
  have changed: ?thesis if "r = Inr ()" "node_core t = node_core u"
      "node_good L u \<and> ar_frame u = ar_frame s \<and> ar_view u = (ar_view s)(ar_id x \<mapsto> x)" for u
    using that node_good_core [of t u L] views_core [of t u] frames_core [of t u] by simp
  show ?thesis
  proof (cases "find_by_id ar_id (nd_audio_receivers s) (ar_id x) = None")
    case True
    with run have "add_new_audio_receiver J L x s = (r, t)" by (simp add: ewhen_cached_def find_by_id_defs)
    then have "(\<exists>e. r = Inl e) \<and> node_core t = node_core s \<or>
        r = Inr () \<and> node_core t = node_core (s\<lparr> nd_audio_receivers := nd_audio_receivers s @ [x] \<rparr>)"
      unfolding add_new_audio_receiver_def
      by (rule add_new_receiver_effect) (simp add: core_fun_def node_core_def)
    then consider (err) e where "r = Inl e" "node_core t = node_core s"
      | (ok) "r = Inr ()" "node_core t = node_core (s\<lparr> nd_audio_receivers := nd_audio_receivers s @ [x] \<rparr>)" by blast
    then show ?thesis
    proof cases
      case err
      then show ?thesis by (intro same) simp_all
    next
      case ok
      from cache_push [OF cache True TrueI]
      have c: "cache_good ar_id (\<lambda>_. True) (nd_audio_receivers s @ [x]) \<and>
          cached_view ar_id (\<lambda>x. x) (nd_audio_receivers s @ [x])
            = (cached_view ar_id (\<lambda>x. x) (nd_audio_receivers s))(ar_id x \<mapsto> x)" .
      show ?thesis by (rule changed [OF ok edit [OF refl conjunct1 [OF c] conjunct2 [OF c]]])
    qed
  next
    case False
    with run have "update_existing_audio_receiver J L x s = (r, t)" by (simp add: ewhen_cached_def find_by_id_defs)
    then have "(\<exists>e. r = Inl e) \<and> node_core t = node_core s \<or>
        r = Inr () \<and> node_core t = node_core (s\<lparr> nd_audio_receivers := replace_cached_by_id ar_id x (nd_audio_receivers s) \<rparr>)"
      unfolding update_existing_audio_receiver_def
      by (rule update_existing_receiver_effect) (simp add: core_fun_def node_core_def)
    then consider (err) e where "r = Inl e" "node_core t = node_core s"
      | (ok) "r = Inr ()" "node_core t = node_core (s\<lparr> nd_audio_receivers := replace_cached_by_id ar_id x (nd_audio_receivers s) \<rparr>)"
      by blast
    then show ?thesis
    proof cases
      case err
      then show ?thesis by (intro same) simp_all
    next
      case ok
      from cache_replace [OF cache False TrueI]
      have c: "cache_good ar_id (\<lambda>_. True) (replace_cached_by_id ar_id x (nd_audio_receivers s)) \<and>
          cached_view ar_id (\<lambda>x. x) (replace_cached_by_id ar_id x (nd_audio_receivers s))
            = (cached_view ar_id (\<lambda>x. x) (nd_audio_receivers s))(ar_id x \<mapsto> x)" .
      show ?thesis by (rule changed [OF ok edit [OF refl conjunct1 [OF c] conjunct2 [OF c]]])
    qed
  qed
qed

lemma ar_remove:
  assumes good: "node_good L s" and run: "remove_audio_receiver J L i s = (r, t)"
  shows "r = Inr () \<and> node_good L t \<and> ar_frame t = ar_frame s \<and> ar_view t = (ar_view s)(i := None)"
proof -
  have cache: "cache_good ar_id (\<lambda>_. True) (nd_audio_receivers s)"
    using good by (simp add: node_good_def)
  let ?u = "s\<lparr> nd_audio_receivers := filter (\<lambda>v. ar_id v \<noteq> i) (nd_audio_receivers s) \<rparr>"
  show ?thesis
  proof (cases "find_by_id ar_id (nd_audio_receivers s) i = None")
    case True
    with run good show ?thesis
      by (simp add: remove_audio_receiver_def ewhen_cached_def find_by_id_defs eret_apply ar_view_def view_absent)
  next
    case False
    with run have "r = Inr () \<and> node_core t = node_core ?u"
      unfolding remove_audio_receiver_def uncache_defs
      by (intro remove_existing_receiver_effect [where s = s]) (auto simp: ewhen_cached_def find_by_id_defs core_fun_def node_core_def)
    moreover have "node_good L ?u \<and> ar_frame ?u = ar_frame s \<and> ar_view ?u = (ar_view s)(i := None)"
      using cache_filter [OF cache, of i "\<lambda>x. x"] good by (simp add: node_good_def frame_defs view_defs)
    ultimately show ?thesis
      using node_good_core [of t ?u L] views_core [of t ?u] frames_core [of t ?u] by simp
  qed
qed

lemma nr_upsert:
  assumes good: "node_good L s"
    and run: "ewhen_cached (find_ancillary_receiver_by_id (nr_id x)) (update_existing_ancillary_receiver J L x)
      (add_new_ancillary_receiver J L x) s = (r, t)"
  shows "node_good L t \<and> nr_frame t = nr_frame s \<and>
    nr_view t = (if r = Inr () then (nr_view s)(nr_id x \<mapsto> x) else nr_view s)"
proof -
  have cache: "cache_good nr_id (\<lambda>_. True) (nd_ancillary_receivers s)"
    using good by (simp add: node_good_def)
  have edit: "node_good L u \<and> nr_frame u = nr_frame s \<and> nr_view u = (nr_view s)(nr_id x \<mapsto> x)"
    if "u = s\<lparr> nd_ancillary_receivers := ys \<rparr>" "cache_good nr_id (\<lambda>_. True) ys"
      "cached_view nr_id (\<lambda>x. x) ys = (cached_view nr_id (\<lambda>x. x) (nd_ancillary_receivers s))(nr_id x \<mapsto> x)" for u ys
    using that good by (simp add: node_good_def frame_defs view_defs)
  have same: ?thesis if "r \<noteq> Inr ()" "node_core t = node_core s"
    using that good node_good_core [of t s L] views_core [of t s] frames_core [of t s] by simp
  have changed: ?thesis if "r = Inr ()" "node_core t = node_core u"
      "node_good L u \<and> nr_frame u = nr_frame s \<and> nr_view u = (nr_view s)(nr_id x \<mapsto> x)" for u
    using that node_good_core [of t u L] views_core [of t u] frames_core [of t u] by simp
  show ?thesis
  proof (cases "find_by_id nr_id (nd_ancillary_receivers s) (nr_id x) = None")
    case True
    with run have "add_new_ancillary_receiver J L x s = (r, t)" by (simp add: ewhen_cached_def find_by_id_defs)
    then have "(\<exists>e. r = Inl e) \<and> node_core t = node_core s \<or>
        r = Inr () \<and> node_core t = node_core (s\<lparr> nd_ancillary_receivers := nd_ancillary_receivers s @ [x] \<rparr>)"
      unfolding add_new_ancillary_receiver_def
      by (rule add_new_receiver_effect) (simp add: core_fun_def node_core_def)
    then consider (err) e where "r = Inl e" "node_core t = node_core s"
      | (ok) "r = Inr ()" "node_core t = node_core (s\<lparr> nd_ancillary_receivers := nd_ancillary_receivers s @ [x] \<rparr>)" by blast
    then show ?thesis
    proof cases
      case err
      then show ?thesis by (intro same) simp_all
    next
      case ok
      from cache_push [OF cache True TrueI]
      have c: "cache_good nr_id (\<lambda>_. True) (nd_ancillary_receivers s @ [x]) \<and>
          cached_view nr_id (\<lambda>x. x) (nd_ancillary_receivers s @ [x])
            = (cached_view nr_id (\<lambda>x. x) (nd_ancillary_receivers s))(nr_id x \<mapsto> x)" .
      show ?thesis by (rule changed [OF ok edit [OF refl conjunct1 [OF c] conjunct2 [OF c]]])
    qed
  next
    case False
    with run have "update_existing_ancillary_receiver J L x s = (r, t)" by (simp add: ewhen_cached_def find_by_id_defs)
    then have "(\<exists>e. r = Inl e) \<and> node_core t = node_core s \<or>
        r = Inr () \<and> node_core t = node_core (s\<lparr> nd_ancillary_receivers := replace_cached_by_id nr_id x (nd_ancillary_receivers s) \<rparr>)"
      unfolding update_existing_ancillary_receiver_def
      by (rule update_existing_receiver_effect) (simp add: core_fun_def node_core_def)
    then consider (err) e where "r = Inl e" "node_core t = node_core s"
      | (ok) "r = Inr ()" "node_core t = node_core (s\<lparr> nd_ancillary_receivers := replace_cached_by_id nr_id x (nd_ancillary_receivers s) \<rparr>)"
      by blast
    then show ?thesis
    proof cases
      case err
      then show ?thesis by (intro same) simp_all
    next
      case ok
      from cache_replace [OF cache False TrueI]
      have c: "cache_good nr_id (\<lambda>_. True) (replace_cached_by_id nr_id x (nd_ancillary_receivers s)) \<and>
          cached_view nr_id (\<lambda>x. x) (replace_cached_by_id nr_id x (nd_ancillary_receivers s))
            = (cached_view nr_id (\<lambda>x. x) (nd_ancillary_receivers s))(nr_id x \<mapsto> x)" .
      show ?thesis by (rule changed [OF ok edit [OF refl conjunct1 [OF c] conjunct2 [OF c]]])
    qed
  qed
qed

lemma nr_remove:
  assumes good: "node_good L s" and run: "remove_ancillary_receiver J L i s = (r, t)"
  shows "r = Inr () \<and> node_good L t \<and> nr_frame t = nr_frame s \<and> nr_view t = (nr_view s)(i := None)"
proof -
  have cache: "cache_good nr_id (\<lambda>_. True) (nd_ancillary_receivers s)"
    using good by (simp add: node_good_def)
  let ?u = "s\<lparr> nd_ancillary_receivers := filter (\<lambda>v. nr_id v \<noteq> i) (nd_ancillary_receivers s) \<rparr>"
  show ?thesis
  proof (cases "find_by_id nr_id (nd_ancillary_receivers s) i = None")
    case True
    with run good show ?thesis
      by (simp add: remove_ancillary_receiver_def ewhen_cached_def find_by_id_defs eret_apply nr_view_def view_absent)
  next
    case False
    with run have "r = Inr () \<and> node_core t = node_core ?u"
      unfolding remove_ancillary_receiver_def uncache_defs
      by (intro remove_existing_receiver_effect [where s = s]) (auto simp: ewhen_cached_def find_by_id_defs core_fun_def node_core_def)
    moreover have "node_good L ?u \<and> nr_frame ?u = nr_frame s \<and> nr_view ?u = (nr_view s)(i := None)"
      using cache_filter [OF cache, of i "\<lambda>x. x"] good by (simp add: node_good_def frame_defs view_defs)
    ultimately show ?thesis
      using node_good_core [of t ?u L] views_core [of t ?u] frames_core [of t ?u] by simp
  qed
qed

end

section \<open>The six kinds of streams meet the contract\<close>

sublocale resource_store \<subseteq> vs: stream_store vs_id vs_obs vs_equivalent "node_good L" vs_view vs_frame
    "remove_video_sender J L" "update_video_sender J L T" "add_video_sender J L T" for J T
proof
  show "vs_equivalent x y \<longleftrightarrow> vs_obs x = vs_obs y" for x y
    by (simp add: vs_equivalent_iff vs_obs_def)
qed (unfold update_video_sender_def add_video_sender_def, rule vs_remove, assumption+, rule vs_upsert, assumption+, rule vs_upsert, assumption+)

sublocale resource_store \<subseteq> as: stream_store as_id as_obs as_equivalent "node_good L" as_view as_frame
    "remove_audio_sender J L" "update_audio_sender J L T" "add_audio_sender J L T" for J T
proof
  show "as_equivalent x y \<longleftrightarrow> as_obs x = as_obs y" for x y
    by (simp add: as_equivalent_iff as_obs_def)
qed (unfold update_audio_sender_def add_audio_sender_def, rule as_remove, assumption+, rule as_upsert, assumption+, rule as_upsert, assumption+)

sublocale resource_store \<subseteq> ns: stream_store ns_id ns_obs ns_equivalent "node_good L" ns_view ns_frame
    "remove_ancillary_sender J L" "update_ancillary_sender J L T" "add_ancillary_sender J L T" for J T
proof
  show "ns_equivalent x y \<longleftrightarrow> ns_obs x = ns_obs y" for x y
    by (simp add: ns_equivalent_iff ns_obs_def)
qed (unfold update_ancillary_sender_def add_ancillary_sender_def, rule ns_remove, assumption+, rule ns_upsert, assumption+, rule ns_upsert, assumption+)

sublocale resource_store \<subseteq> vr: stream_store vr_id "\<lambda>x. x" vr_equivalent "node_good L" vr_view vr_frame
    "remove_video_receiver J L" "update_video_receiver J L" "add_video_receiver J L" for J
proof
  show "vr_equivalent x y \<longleftrightarrow> x = y" for x y
    by (simp add: vr_equivalent_iff)
qed (unfold update_video_receiver_def add_video_receiver_def, rule vr_remove, assumption+, rule vr_upsert, assumption+, rule vr_upsert, assumption+)

sublocale resource_store \<subseteq> ar: stream_store ar_id "\<lambda>x. x" ar_equivalent "node_good L" ar_view ar_frame
    "remove_audio_receiver J L" "update_audio_receiver J L" "add_audio_receiver J L" for J
proof
  show "ar_equivalent x y \<longleftrightarrow> x = y" for x y
    by (simp add: ar_equivalent_iff)
qed (unfold update_audio_receiver_def add_audio_receiver_def, rule ar_remove, assumption+, rule ar_upsert, assumption+, rule ar_upsert, assumption+)

sublocale resource_store \<subseteq> nr: stream_store nr_id "\<lambda>x. x" nr_equivalent "node_good L" nr_view nr_frame
    "remove_ancillary_receiver J L" "update_ancillary_receiver J L" "add_ancillary_receiver J L" for J
proof
  show "nr_equivalent x y \<longleftrightarrow> x = y" for x y
    by (simp add: nr_equivalent_iff)
qed (unfold update_ancillary_receiver_def add_ancillary_receiver_def, rule nr_remove, assumption+, rule nr_upsert, assumption+, rule nr_upsert, assumption+)

end
