(* ===== verification/Reconcile_Engine.thy ===== *)
theory Reconcile_Engine
  imports Node_Contract
begin

text \<open>
  \<open>NodeRuntime\<close> (\<open>daemon/node_runtime.cpp\<close>), the calls of the daemon into the node, and
  \<open>ReconcileEngine::apply_snapshot\<close> and \<open>drain_all\<close> (\<open>daemon/reconcile_engine.cpp\<close>). The abstract
  specification sees the node as a table of streams by kind and id: where two snapshots agree on an
  entry, applying the second leaves the table alone, where they differ it takes the entry of the
  second. The six interpretations of \<open>stream_store\<close> are joined by one lemma about a sequence of
  phases that each edit one kind.
\<close>

section \<open>The node runtime\<close>

definition device_to_interface :: "device_dto \<Rightarrow> host_interface" where
  "device_to_interface device =
     (let addresses = (if dv_sip device \<noteq> [] then [dv_sip device] else [])
      in \<lparr> hi_index = dv_id device, hi_name = dv_display_name device, hi_physical_address = dv_device device,
           hi_addresses = addresses, hi_domain = ''.'' \<rparr>)"

definition runtime_set_ptp_clock ::
    "('v, 'x) json_lib_scheme \<Rightarrow> ('v, 'rs, 'y) nmos_lib_scheme \<Rightarrow> ('v, 'rs) transportfile \<Rightarrow> ptp_clock_dto \<Rightarrow> ('v, 'rs, unit) node_eff" where
  "runtime_set_ptp_clock J L T ptp_clock =
     set_ptp_clock J L T (effective_gmid ptp_clock) (effective_locked ptp_clock) (effective_ptp_domain ptp_clock)"

definition set_runtime_devices ::
    "('v, 'x) json_lib_scheme \<Rightarrow> ('v, 'rs, 'y) nmos_lib_scheme \<Rightarrow> ('v, 'rs) transportfile \<Rightarrow> device_dto list \<Rightarrow> ('v, 'rs, unit) node_eff" where
  "set_runtime_devices J L T devices = set_runtime_interfaces J L T (map device_to_interface devices)"

definition runtime_apply_video_sender ::
    "('v, 'x) json_lib_scheme \<Rightarrow> ('v, 'rs, 'y) nmos_lib_scheme \<Rightarrow> ('v, 'rs) transportfile \<Rightarrow> video_sender \<Rightarrow> ('v, 'rs, unit) node_eff" where
  "runtime_apply_video_sender J L T sender = add_video_sender J L T sender"

definition runtime_apply_audio_sender ::
    "('v, 'x) json_lib_scheme \<Rightarrow> ('v, 'rs, 'y) nmos_lib_scheme \<Rightarrow> ('v, 'rs) transportfile \<Rightarrow> audio_sender \<Rightarrow> ('v, 'rs, unit) node_eff" where
  "runtime_apply_audio_sender J L T sender = add_audio_sender J L T sender"

definition runtime_apply_ancillary_sender ::
    "('v, 'x) json_lib_scheme \<Rightarrow> ('v, 'rs, 'y) nmos_lib_scheme \<Rightarrow> ('v, 'rs) transportfile \<Rightarrow> ancillary_sender \<Rightarrow> ('v, 'rs, unit) node_eff" where
  "runtime_apply_ancillary_sender J L T sender = add_ancillary_sender J L T sender"

definition runtime_apply_video_receiver ::
    "('v, 'x) json_lib_scheme \<Rightarrow> ('v, 'rs, 'y) nmos_lib_scheme \<Rightarrow> video_receiver \<Rightarrow> ('v, 'rs, unit) node_eff" where
  "runtime_apply_video_receiver J L receiver = add_video_receiver J L receiver"

definition runtime_apply_audio_receiver ::
    "('v, 'x) json_lib_scheme \<Rightarrow> ('v, 'rs, 'y) nmos_lib_scheme \<Rightarrow> audio_receiver \<Rightarrow> ('v, 'rs, unit) node_eff" where
  "runtime_apply_audio_receiver J L receiver = add_audio_receiver J L receiver"

definition runtime_apply_ancillary_receiver ::
    "('v, 'x) json_lib_scheme \<Rightarrow> ('v, 'rs, 'y) nmos_lib_scheme \<Rightarrow> ancillary_receiver \<Rightarrow> ('v, 'rs, unit) node_eff" where
  "runtime_apply_ancillary_receiver J L receiver = add_ancillary_receiver J L receiver"

definition runtime_update_video_sender ::
    "('v, 'x) json_lib_scheme \<Rightarrow> ('v, 'rs, 'y) nmos_lib_scheme \<Rightarrow> ('v, 'rs) transportfile \<Rightarrow> video_sender \<Rightarrow> ('v, 'rs, unit) node_eff" where
  "runtime_update_video_sender J L T sender = update_video_sender J L T sender"

definition runtime_update_audio_sender ::
    "('v, 'x) json_lib_scheme \<Rightarrow> ('v, 'rs, 'y) nmos_lib_scheme \<Rightarrow> ('v, 'rs) transportfile \<Rightarrow> audio_sender \<Rightarrow> ('v, 'rs, unit) node_eff" where
  "runtime_update_audio_sender J L T sender = update_audio_sender J L T sender"

definition runtime_update_ancillary_sender ::
    "('v, 'x) json_lib_scheme \<Rightarrow> ('v, 'rs, 'y) nmos_lib_scheme \<Rightarrow> ('v, 'rs) transportfile \<Rightarrow> ancillary_sender \<Rightarrow> ('v, 'rs, unit) node_eff" where
  "runtime_update_ancillary_sender J L T sender = update_ancillary_sender J L T sender"

definition runtime_update_video_receiver ::
    "('v, 'x) json_lib_scheme \<Rightarrow> ('v, 'rs, 'y) nmos_lib_scheme \<Rightarrow> video_receiver \<Rightarrow> ('v, 'rs, unit) node_eff" where
  "runtime_update_video_receiver J L receiver = update_video_receiver J L receiver"

definition runtime_update_audio_receiver ::
    "('v, 'x) json_lib_scheme \<Rightarrow> ('v, 'rs, 'y) nmos_lib_scheme \<Rightarrow> audio_receiver \<Rightarrow> ('v, 'rs, unit) node_eff" where
  "runtime_update_audio_receiver J L receiver = update_audio_receiver J L receiver"

definition runtime_update_ancillary_receiver ::
    "('v, 'x) json_lib_scheme \<Rightarrow> ('v, 'rs, 'y) nmos_lib_scheme \<Rightarrow> ancillary_receiver \<Rightarrow> ('v, 'rs, unit) node_eff" where
  "runtime_update_ancillary_receiver J L receiver = update_ancillary_receiver J L receiver"

definition runtime_remove_video_sender ::
    "('v, 'x) json_lib_scheme \<Rightarrow> ('v, 'rs, 'y) nmos_lib_scheme \<Rightarrow> string \<Rightarrow> ('v, 'rs, unit) node_eff" where
  "runtime_remove_video_sender J L i = remove_video_sender J L i"

definition runtime_remove_audio_sender ::
    "('v, 'x) json_lib_scheme \<Rightarrow> ('v, 'rs, 'y) nmos_lib_scheme \<Rightarrow> string \<Rightarrow> ('v, 'rs, unit) node_eff" where
  "runtime_remove_audio_sender J L i = remove_audio_sender J L i"

definition runtime_remove_ancillary_sender ::
    "('v, 'x) json_lib_scheme \<Rightarrow> ('v, 'rs, 'y) nmos_lib_scheme \<Rightarrow> string \<Rightarrow> ('v, 'rs, unit) node_eff" where
  "runtime_remove_ancillary_sender J L i = remove_ancillary_sender J L i"

definition runtime_remove_video_receiver ::
    "('v, 'x) json_lib_scheme \<Rightarrow> ('v, 'rs, 'y) nmos_lib_scheme \<Rightarrow> string \<Rightarrow> ('v, 'rs, unit) node_eff" where
  "runtime_remove_video_receiver J L i = remove_video_receiver J L i"

definition runtime_remove_audio_receiver ::
    "('v, 'x) json_lib_scheme \<Rightarrow> ('v, 'rs, 'y) nmos_lib_scheme \<Rightarrow> string \<Rightarrow> ('v, 'rs, unit) node_eff" where
  "runtime_remove_audio_receiver J L i = remove_audio_receiver J L i"

definition runtime_remove_ancillary_receiver ::
    "('v, 'x) json_lib_scheme \<Rightarrow> ('v, 'rs, 'y) nmos_lib_scheme \<Rightarrow> string \<Rightarrow> ('v, 'rs, unit) node_eff" where
  "runtime_remove_ancillary_receiver J L i = remove_ancillary_receiver J L i"

lemmas runtime_defs =
  runtime_apply_video_sender_def
  runtime_apply_audio_sender_def
  runtime_apply_ancillary_sender_def
  runtime_apply_video_receiver_def
  runtime_apply_audio_receiver_def
  runtime_apply_ancillary_receiver_def
  runtime_update_video_sender_def
  runtime_update_audio_sender_def
  runtime_update_ancillary_sender_def
  runtime_update_video_receiver_def
  runtime_update_audio_receiver_def
  runtime_update_ancillary_receiver_def
  runtime_remove_video_sender_def
  runtime_remove_audio_sender_def
  runtime_remove_ancillary_sender_def
  runtime_remove_video_receiver_def
  runtime_remove_audio_receiver_def
  runtime_remove_ancillary_receiver_def

section \<open>The engine\<close>

definition reconcile_video_receivers ::
    "('v, 'x) json_lib_scheme \<Rightarrow> ('v, 'rs, 'y) nmos_lib_scheme \<Rightarrow> key_order \<Rightarrow>
     snapshot_dto \<Rightarrow> snapshot_dto \<Rightarrow> ('v, 'rs, unit) node_eff" where
  "reconcile_video_receivers J L ord current new =
     reconcile_list ord vr_id ''video_receiver'' (sn_video_receivers current) (sn_video_receivers new) vr_equivalent
       (runtime_remove_video_receiver J L) (runtime_update_video_receiver J L) (runtime_apply_video_receiver J L)"

definition reconcile_audio_receivers ::
    "('v, 'x) json_lib_scheme \<Rightarrow> ('v, 'rs, 'y) nmos_lib_scheme \<Rightarrow> key_order \<Rightarrow>
     snapshot_dto \<Rightarrow> snapshot_dto \<Rightarrow> ('v, 'rs, unit) node_eff" where
  "reconcile_audio_receivers J L ord current new =
     reconcile_list ord ar_id ''audio_receiver'' (sn_audio_receivers current) (sn_audio_receivers new) ar_equivalent
       (runtime_remove_audio_receiver J L) (runtime_update_audio_receiver J L) (runtime_apply_audio_receiver J L)"

definition reconcile_ancillary_receivers ::
    "('v, 'x) json_lib_scheme \<Rightarrow> ('v, 'rs, 'y) nmos_lib_scheme \<Rightarrow> key_order \<Rightarrow>
     snapshot_dto \<Rightarrow> snapshot_dto \<Rightarrow> ('v, 'rs, unit) node_eff" where
  "reconcile_ancillary_receivers J L ord current new =
     reconcile_list ord nr_id ''ancillary_receiver'' (sn_ancillary_receivers current) (sn_ancillary_receivers new) nr_equivalent
       (runtime_remove_ancillary_receiver J L) (runtime_update_ancillary_receiver J L) (runtime_apply_ancillary_receiver J L)"

definition reconcile_video_senders ::
    "('v, 'x) json_lib_scheme \<Rightarrow> ('v, 'rs, 'y) nmos_lib_scheme \<Rightarrow> ('v, 'rs) transportfile \<Rightarrow> key_order \<Rightarrow>
     snapshot_dto \<Rightarrow> snapshot_dto \<Rightarrow> ('v, 'rs, unit) node_eff" where
  "reconcile_video_senders J L T ord current new =
     reconcile_list ord vs_id ''video_sender'' (sn_video_senders current) (sn_video_senders new) vs_equivalent
       (runtime_remove_video_sender J L) (runtime_update_video_sender J L T) (runtime_apply_video_sender J L T)"

definition reconcile_audio_senders ::
    "('v, 'x) json_lib_scheme \<Rightarrow> ('v, 'rs, 'y) nmos_lib_scheme \<Rightarrow> ('v, 'rs) transportfile \<Rightarrow> key_order \<Rightarrow>
     snapshot_dto \<Rightarrow> snapshot_dto \<Rightarrow> ('v, 'rs, unit) node_eff" where
  "reconcile_audio_senders J L T ord current new =
     reconcile_list ord as_id ''audio_sender'' (sn_audio_senders current) (sn_audio_senders new) as_equivalent
       (runtime_remove_audio_sender J L) (runtime_update_audio_sender J L T) (runtime_apply_audio_sender J L T)"

definition reconcile_ancillary_senders ::
    "('v, 'x) json_lib_scheme \<Rightarrow> ('v, 'rs, 'y) nmos_lib_scheme \<Rightarrow> ('v, 'rs) transportfile \<Rightarrow> key_order \<Rightarrow>
     snapshot_dto \<Rightarrow> snapshot_dto \<Rightarrow> ('v, 'rs, unit) node_eff" where
  "reconcile_ancillary_senders J L T ord current new =
     reconcile_list ord ns_id ''ancillary_sender'' (sn_ancillary_senders current) (sn_ancillary_senders new) ns_equivalent
       (runtime_remove_ancillary_sender J L) (runtime_update_ancillary_sender J L T) (runtime_apply_ancillary_sender J L T)"

definition apply_snapshot ::
    "('v, 'x) json_lib_scheme \<Rightarrow> ('v, 'rs, 'y) nmos_lib_scheme \<Rightarrow> ('v, 'rs) transportfile \<Rightarrow> key_order \<Rightarrow>
     snapshot_dto option \<Rightarrow> snapshot_dto \<Rightarrow> ('v, 'rs, unit) node_eff" where
  "apply_snapshot J L T ord current_snapshot new_snapshot =
     (let current = (case current_snapshot of None \<Rightarrow> snapshot_default | Some c \<Rightarrow> c) in
      eseq (if \<not> ptp_equivalent (sn_ptp_clock current) (sn_ptp_clock new_snapshot)
            then runtime_set_ptp_clock J L T (sn_ptp_clock new_snapshot) else eret ())
     (eseq (if \<not> list_all2 dv_equivalent (sn_devices current) (sn_devices new_snapshot)
            then set_runtime_devices J L T (sn_devices new_snapshot) else eret ())
     (eseq (reconcile_video_receivers J L ord current new_snapshot)
     (eseq (reconcile_audio_receivers J L ord current new_snapshot)
     (eseq (reconcile_ancillary_receivers J L ord current new_snapshot)
     (eseq (reconcile_video_senders J L T ord current new_snapshot)
     (eseq (reconcile_audio_senders J L T ord current new_snapshot)
           (reconcile_ancillary_senders J L T ord current new_snapshot))))))))"

definition drain_all ::
    "('v, 'x) json_lib_scheme \<Rightarrow> ('v, 'rs, 'y) nmos_lib_scheme \<Rightarrow> snapshot_dto option \<Rightarrow> ('v, 'rs, unit) node_eff" where
  "drain_all J L current_snapshot =
     (case current_snapshot of None \<Rightarrow> eret ()
      | Some sn \<Rightarrow>
          eseq (eforeach (\<lambda>receiver. runtime_remove_video_receiver J L (vr_id receiver)) (sn_video_receivers sn))
         (eseq (eforeach (\<lambda>receiver. runtime_remove_audio_receiver J L (ar_id receiver)) (sn_audio_receivers sn))
         (eseq (eforeach (\<lambda>receiver. runtime_remove_ancillary_receiver J L (nr_id receiver)) (sn_ancillary_receivers sn))
         (eseq (eforeach (\<lambda>sender. runtime_remove_video_sender J L (vs_id sender)) (sn_video_senders sn))
         (eseq (eforeach (\<lambda>sender. runtime_remove_audio_sender J L (as_id sender)) (sn_audio_senders sn))
               (eforeach (\<lambda>sender. runtime_remove_ancillary_sender J L (ns_id sender)) (sn_ancillary_senders sn)))))))"

section \<open>The specification\<close>

text \<open>Streams of all kinds in one type, and the tables a snapshot and a node hold.\<close>

datatype stream_kind =
    Video_receiver | Audio_receiver | Ancillary_receiver | Video_sender | Audio_sender | Ancillary_sender

datatype stream =
    VR video_receiver | AR audio_receiver | NR ancillary_receiver
  | VS video_sender | AS audio_sender | NS ancillary_sender

type_synonym stream_table = "stream_kind \<Rightarrow> string \<Rightarrow> stream option"

fun node_stream :: "('v, 'rs) node \<Rightarrow> stream_table" where
  "node_stream s Video_receiver i = map_option VR (vr_view s i)"
| "node_stream s Audio_receiver i = map_option AR (ar_view s i)"
| "node_stream s Ancillary_receiver i = map_option NR (nr_view s i)"
| "node_stream s Video_sender i = map_option VS (vs_view s i)"
| "node_stream s Audio_sender i = map_option AS (as_view s i)"
| "node_stream s Ancillary_sender i = map_option NS (ns_view s i)"

fun snapshot_stream :: "snapshot_dto \<Rightarrow> stream_table" where
  "snapshot_stream sn Video_receiver i = map_option (VR) (find_by_id vr_id (sn_video_receivers sn) i)"
| "snapshot_stream sn Audio_receiver i = map_option (AR) (find_by_id ar_id (sn_audio_receivers sn) i)"
| "snapshot_stream sn Ancillary_receiver i = map_option (NR) (find_by_id nr_id (sn_ancillary_receivers sn) i)"
| "snapshot_stream sn Video_sender i = map_option (VS \<circ> vs_obs) (find_by_id vs_id (sn_video_senders sn) i)"
| "snapshot_stream sn Audio_sender i = map_option (AS \<circ> as_obs) (find_by_id as_id (sn_audio_senders sn) i)"
| "snapshot_stream sn Ancillary_sender i = map_option (NS \<circ> ns_obs) (find_by_id ns_id (sn_ancillary_senders sn) i)"

text \<open>The table of the snapshot that was applied last; before the first one nothing is held.\<close>

fun held :: "snapshot_dto option \<Rightarrow> stream_table" where
  "held None k i = None"
| "held (Some sn) k i = snapshot_stream sn k i"

definition reconciled :: "stream_table \<Rightarrow> stream_table \<Rightarrow> stream_table \<Rightarrow> stream_table" where
  "reconciled current new table k i = (if current k i = new k i then table k i else new k i)"

definition drained :: "snapshot_dto \<Rightarrow> stream_table \<Rightarrow> stream_table" where
  "drained sn table k i = (if snapshot_stream sn k i = None then table k i else None)"

text \<open>The names the engine gives the kinds in its errors, and the action two snapshots ask for.\<close>

fun kind_name :: "stream_kind \<Rightarrow> string" where
  "kind_name Video_receiver = ''video_receiver''"
| "kind_name Audio_receiver = ''audio_receiver''"
| "kind_name Ancillary_receiver = ''ancillary_receiver''"
| "kind_name Video_sender = ''video_sender''"
| "kind_name Audio_sender = ''audio_sender''"
| "kind_name Ancillary_sender = ''ancillary_sender''"

definition due :: "stream_table \<Rightarrow> stream_table \<Rightarrow> stream_kind \<Rightarrow> string \<Rightarrow> string \<Rightarrow> bool" where
  "due current new k action i \<longleftrightarrow> current k i \<noteq> new k i \<and>
     action = (if new k i = None then ''remove'' else if current k i = None then ''add'' else ''update'')"

text \<open>The state after \<open>n\<close> calls, whatever they returned.\<close>

fun after_attempts :: "('s, 'a) eff \<Rightarrow> nat \<Rightarrow> 's \<Rightarrow> 's" where
  "after_attempts m 0 s = s"
| "after_attempts m (Suc n) s = after_attempts m n (snd (m s))"

section \<open>Effects that edit the table\<close>

context stream_store
begin

lemma target_find:
  "target current next' v i =
     (if map_option abs (List.find (\<lambda>x. ident x = i) current) = map_option abs (List.find (\<lambda>x. ident x = i) next')
      then v i else map_option abs (List.find (\<lambda>x. ident x = i) next'))"
  by (simp add: target_def make_map_find split: option.split)

lemma removals:
  assumes "good s" "eforeach (\<lambda>x. remove (ident x)) xs s = (r, t)"
  shows "r = Inr () \<and> good t \<and> frame t = frame s \<and>
    view t = (\<lambda>i. if List.find (\<lambda>x. ident x = i) xs = None then view s i else None)"
  using assms
proof (induction xs arbitrary: s)
  case Nil
  then show ?case by (simp add: eff_simps)
next
  case (Cons x xs)
  obtain q u where u: "remove (ident x) s = (q, u)" by (cases "remove (ident x) s")
  from remove_law [OF Cons.prems(1) u] have q: "q = Inr ()" and
    gu: "good u" "frame u = frame s" "view u = (view s)(ident x := None)" by simp_all
  from u q Cons.prems(2) have "eforeach (\<lambda>x. remove (ident x)) xs u = (r, t)" by (simp add: eff_simps)
  from Cons.IH [OF gu(1) this] gu(2,3) show ?case by (auto simp: fun_eq_iff)
qed

end

text \<open>
  \<open>edits L F K m\<close>: the effect changes the table only at the kinds \<open>K\<close>, every entry to what \<open>F\<close> says or
  not at all, and when it succeeds every entry of \<open>K\<close> is as \<open>F\<close> says.
\<close>

definition edits ::
    "('v, 'rs, 'y) nmos_lib_scheme \<Rightarrow> (stream_table \<Rightarrow> stream_table) \<Rightarrow> stream_kind set \<Rightarrow>
     ('v, 'rs, unit) node_eff \<Rightarrow> bool" where
  "edits L F K m \<longleftrightarrow> (\<forall>s r t. node_good L s \<longrightarrow> m s = (r, t) \<longrightarrow>
     node_good L t \<and> nd_seed_id t = nd_seed_id s \<and>
     (\<forall>k i. node_stream t k i = node_stream s k i \<or> k \<in> K \<and> node_stream t k i = F (node_stream s) k i) \<and>
     (r = Inr () \<longrightarrow> (\<forall>k i. k \<in> K \<longrightarrow> node_stream t k i = F (node_stream s) k i)))"

lemma editsD:
  assumes "edits L F K m" "node_good L s" "m s = (r, t)"
  shows "node_good L t" "nd_seed_id t = nd_seed_id s"
    "node_stream t k i = node_stream s k i \<or> k \<in> K \<and> node_stream t k i = F (node_stream s) k i"
    "r = Inr () \<Longrightarrow> k \<in> K \<Longrightarrow> node_stream t k i = F (node_stream s) k i"
  using assms unfolding edits_def by blast+

lemma edits_eseq:
  assumes m: "edits L F A m" and n: "edits L F B n" and disj: "A \<inter> B = {}"
    and local: "\<And>a b k i. a k i = b k i \<Longrightarrow> F a k i = F b k i"
  shows "edits L F (A \<union> B) (eseq m n)"
  unfolding edits_def
proof (intro allI impI)
  fix s r t
  assume s: "node_good L s" and run: "eseq m n s = (r, t)"
  obtain q u where u: "m s = (q, u)" by (cases "m s")
  note mD = editsD [OF m s u]
  show "node_good L t \<and> nd_seed_id t = nd_seed_id s \<and>
     (\<forall>k i. node_stream t k i = node_stream s k i \<or> k \<in> A \<union> B \<and> node_stream t k i = F (node_stream s) k i) \<and>
     (r = Inr () \<longrightarrow> (\<forall>k i. k \<in> A \<union> B \<longrightarrow> node_stream t k i = F (node_stream s) k i))"
  proof (cases q)
    case (Inl e)
    with run u have "r = Inl e" "t = u" by (auto simp: eff_simps)
    with mD show ?thesis by auto
  next
    case (Inr x)
    with run u have "n u = (r, t)" by (simp add: eff_simps)
    note nD = editsD [OF n mD(1) this]
    have notB: "node_stream u k i = node_stream s k i" if "k \<in> B" for k i
      using mD(3) [of k i] that disj by auto
    have F: "F (node_stream u) k i = F (node_stream s) k i" if "k \<in> B" for k i
      by (rule local) (rule notB [OF that])
    have inA: "node_stream t k i = node_stream u k i" if "k \<in> A" for k i
      using nD(3) [of k i] that disj by auto
    have "node_stream t k i = node_stream s k i \<or> k \<in> A \<union> B \<and> node_stream t k i = F (node_stream s) k i" for k i
      using nD(3) [of k i] mD(3) [of k i] F [of k i] notB [of k i] by auto
    moreover have "node_stream t k i = F (node_stream s) k i" if "r = Inr ()" "k \<in> A \<union> B" for k i
      using that nD(4) [of k i] mD(4) [of k i] F [of k i] inA [of k i] Inr by auto
    ultimately show ?thesis using nD(1,2) mD(2) by auto
  qed
qed

lemma edits_single:
  assumes "\<And>s r t. node_good L s \<Longrightarrow> m s = (r, t) \<Longrightarrow>
     node_good L t \<and> nd_seed_id t = nd_seed_id s \<and>
     (\<forall>k i. k \<noteq> K \<longrightarrow> node_stream t k i = node_stream s k i) \<and>
     (\<forall>i. node_stream t K i = node_stream s K i \<or> node_stream t K i = F (node_stream s) K i) \<and>
     (r = Inr () \<longrightarrow> (\<forall>i. node_stream t K i = F (node_stream s) K i))"
  shows "edits L F {K} m"
  unfolding edits_def
proof (intro allI impI)
  fix s r t
  assume "node_good L s" "m s = (r, t)"
  note a = assms [OF this]
  have "node_stream t k i = node_stream s k i \<or> k \<in> {K} \<and> node_stream t k i = F (node_stream s) k i" for k i
    using a by (cases "k = K") blast+
  with a show "node_good L t \<and> nd_seed_id t = nd_seed_id s \<and>
     (\<forall>k i. node_stream t k i = node_stream s k i \<or> k \<in> {K} \<and> node_stream t k i = F (node_stream s) k i) \<and>
     (r = Inr () \<longrightarrow> (\<forall>k i. k \<in> {K} \<longrightarrow> node_stream t k i = F (node_stream s) k i))"
    by blast
qed


definition succeeds :: "('v, 'rs, 'y) nmos_lib_scheme \<Rightarrow> ('v, 'rs, unit) node_eff \<Rightarrow> bool" where
  "succeeds L m \<longleftrightarrow> (\<forall>s r t. node_good L s \<longrightarrow> m s = (r, t) \<longrightarrow> r = Inr ())"

lemma succeedsI: "(\<And>s r t. node_good L s \<Longrightarrow> m s = (r, t) \<Longrightarrow> r = Inr ()) \<Longrightarrow> succeeds L m"
  unfolding succeeds_def by blast

lemma succeeds_eseq: "edits L F K m \<Longrightarrow> succeeds L m \<Longrightarrow> succeeds L n \<Longrightarrow> succeeds L (eseq m n)"
proof (rule succeedsI)
  fix s r t
  assume m: "edits L F K m" "succeeds L m" and n: "succeeds L n" and s: "node_good L s"
    and run: "eseq m n s = (r, t)"
  obtain q u where u: "m s = (q, u)" by (cases "m s")
  with m(2) s have "q = Inr ()" by (simp add: succeeds_def)
  with u run have "n u = (r, t)" by (simp add: eff_simps)
  with n editsD(1) [OF m(1) s u] show "r = Inr ()" by (simp add: succeeds_def)
qed

lemma all_kinds:
  "{Ancillary_sender, Audio_sender, Video_sender, Ancillary_receiver, Audio_receiver, Video_receiver} = UNIV"
proof -
  have "k \<in> {Ancillary_sender, Audio_sender, Video_sender, Ancillary_receiver, Audio_receiver, Video_receiver}"
    for k by (cases k) simp_all
  then show ?thesis by blast
qed

lemma reconciled_local: "a k i = b k i \<Longrightarrow> reconciled c n a k i = reconciled c n b k i"
  by (simp add: reconciled_def)

lemma drained_local: "a k i = b k i \<Longrightarrow> drained sn a k i = drained sn b k i"
  by (simp add: drained_def)

lemma held_eq: "snapshot_stream (case current of None \<Rightarrow> snapshot_default | Some c \<Rightarrow> c) = held current"
proof (cases current)
  case None
  have "snapshot_stream snapshot_default k i = None" for k i
    by (cases k) (simp_all add: snapshot_default_def find_by_id_def)
  with None show ?thesis by (simp add: fun_eq_iff)
qed (simp add: fun_eq_iff)

lemma node_stream_core: "node_core s = node_core t \<Longrightarrow> node_stream s = node_stream t"
  using views_core [of s t] by (intro ext) (rename_tac k i, case_tac k, simp_all)

lemma edits_keeps: "keeps m \<Longrightarrow> edits L F {} m"
  unfolding edits_def
proof (intro allI impI)
  fix s r t
  assume "keeps m" "node_good L s" "m s = (r, t)"
  then have c: "node_core t = node_core s" by (auto dest: keepsD)
  with node_good_core [OF c, of L] node_stream_core [OF c] \<open>node_good L s\<close>
  show "node_good L t \<and> nd_seed_id t = nd_seed_id s \<and>
     (\<forall>k i. node_stream t k i = node_stream s k i \<or> k \<in> {} \<and> node_stream t k i = F (node_stream s) k i) \<and>
     (r = Inr () \<longrightarrow> (\<forall>k i. k \<in> {} \<longrightarrow> node_stream t k i = F (node_stream s) k i))"
    by (simp add: node_core_def)
qed

lemma reconciled_lift:
  assumes "inj C"
  shows "(if map_option (C \<circ> obs) a = map_option (C \<circ> obs) b then map_option C v else map_option (C \<circ> obs) b)
    = map_option C (if map_option obs a = map_option obs b then v else map_option obs b)"
  by (cases a; cases b) (auto simp: inj_eq [OF assms])

lemma reconciled_lift_id:
  assumes "inj C"
  shows "(if map_option C a = map_option C b then map_option C v else map_option C b)
    = map_option C (if map_option (\<lambda>x. x) a = map_option (\<lambda>x. x) b then v else map_option (\<lambda>x. x) b)"
  by (cases a; cases b) (auto simp: inj_eq [OF assms])

lemma runtime_eqs:
  "runtime_apply_video_sender = add_video_sender"
  "runtime_apply_audio_sender = add_audio_sender"
  "runtime_apply_ancillary_sender = add_ancillary_sender"
  "runtime_apply_video_receiver = add_video_receiver"
  "runtime_apply_audio_receiver = add_audio_receiver"
  "runtime_apply_ancillary_receiver = add_ancillary_receiver"
  "runtime_update_video_sender = update_video_sender"
  "runtime_update_audio_sender = update_audio_sender"
  "runtime_update_ancillary_sender = update_ancillary_sender"
  "runtime_update_video_receiver = update_video_receiver"
  "runtime_update_audio_receiver = update_audio_receiver"
  "runtime_update_ancillary_receiver = update_ancillary_receiver"
  "runtime_remove_video_sender = remove_video_sender"
  "runtime_remove_audio_sender = remove_audio_sender"
  "runtime_remove_ancillary_sender = remove_ancillary_sender"
  "runtime_remove_video_receiver = remove_video_receiver"
  "runtime_remove_audio_receiver = remove_audio_receiver"
  "runtime_remove_ancillary_receiver = remove_ancillary_receiver"
  by (intro ext, simp add: runtime_defs)+

context resource_store
begin

lemma edits_video_receivers:
  assumes ord: "iteration_order ord"
  shows "edits L (reconciled (snapshot_stream current) (snapshot_stream new)) {Video_receiver}
    (reconcile_video_receivers J L ord current new)"
proof (rule edits_single)
  let ?F = "reconciled (snapshot_stream current) (snapshot_stream new)"
  fix s r t
  assume s: "node_good L s" and run: "reconcile_video_receivers J L ord current new s = (r, t)"
  have spec: "map_option VR (vr.target (sn_video_receivers current) (sn_video_receivers new) (vr_view s) i)
      = ?F (node_stream s) Video_receiver i" for i
    unfolding vr.target_find reconciled_def snapshot_stream.simps node_stream.simps find_by_id_def
    by (rule reconciled_lift_id [symmetric]) (simp add: inj_on_def)
  from vr.reconcile_list_effect [OF ord s run [unfolded reconcile_video_receivers_def runtime_eqs]]
  have e: "node_good L t" "vr_frame t = vr_frame s"
    "r = Inr () \<Longrightarrow> vr_view t = vr.target (sn_video_receivers current) (sn_video_receivers new) (vr_view s)"
    "\<And>i. vr_view t i = vr_view s i \<or>
       vr_view t i = vr.target (sn_video_receivers current) (sn_video_receivers new) (vr_view s) i" by blast+
  have this_kind: "node_stream t Video_receiver i = node_stream s Video_receiver i \<or>
      node_stream t Video_receiver i = ?F (node_stream s) Video_receiver i" for i
    using e(4) [of i] spec [of i] by auto
  have success: "node_stream t Video_receiver i = ?F (node_stream s) Video_receiver i" if "r = Inr ()" for i
    using e(3) [OF that] spec [of i] by simp
  have others: "node_stream t k i = node_stream s k i" if "k \<noteq> Video_receiver" for k i
    using that e(2) by (cases k) (simp_all add: frame_defs)
  show "node_good L t \<and> nd_seed_id t = nd_seed_id s \<and>
     (\<forall>k i. k \<noteq> Video_receiver \<longrightarrow> node_stream t k i = node_stream s k i) \<and>
     (\<forall>i. node_stream t Video_receiver i = node_stream s Video_receiver i \<or> node_stream t Video_receiver i = ?F (node_stream s) Video_receiver i) \<and>
     (r = Inr () \<longrightarrow> (\<forall>i. node_stream t Video_receiver i = ?F (node_stream s) Video_receiver i))"
    using e(1,2) this_kind success others by (simp add: frame_defs)
qed

lemma edits_audio_receivers:
  assumes ord: "iteration_order ord"
  shows "edits L (reconciled (snapshot_stream current) (snapshot_stream new)) {Audio_receiver}
    (reconcile_audio_receivers J L ord current new)"
proof (rule edits_single)
  let ?F = "reconciled (snapshot_stream current) (snapshot_stream new)"
  fix s r t
  assume s: "node_good L s" and run: "reconcile_audio_receivers J L ord current new s = (r, t)"
  have spec: "map_option AR (ar.target (sn_audio_receivers current) (sn_audio_receivers new) (ar_view s) i)
      = ?F (node_stream s) Audio_receiver i" for i
    unfolding ar.target_find reconciled_def snapshot_stream.simps node_stream.simps find_by_id_def
    by (rule reconciled_lift_id [symmetric]) (simp add: inj_on_def)
  from ar.reconcile_list_effect [OF ord s run [unfolded reconcile_audio_receivers_def runtime_eqs]]
  have e: "node_good L t" "ar_frame t = ar_frame s"
    "r = Inr () \<Longrightarrow> ar_view t = ar.target (sn_audio_receivers current) (sn_audio_receivers new) (ar_view s)"
    "\<And>i. ar_view t i = ar_view s i \<or>
       ar_view t i = ar.target (sn_audio_receivers current) (sn_audio_receivers new) (ar_view s) i" by blast+
  have this_kind: "node_stream t Audio_receiver i = node_stream s Audio_receiver i \<or>
      node_stream t Audio_receiver i = ?F (node_stream s) Audio_receiver i" for i
    using e(4) [of i] spec [of i] by auto
  have success: "node_stream t Audio_receiver i = ?F (node_stream s) Audio_receiver i" if "r = Inr ()" for i
    using e(3) [OF that] spec [of i] by simp
  have others: "node_stream t k i = node_stream s k i" if "k \<noteq> Audio_receiver" for k i
    using that e(2) by (cases k) (simp_all add: frame_defs)
  show "node_good L t \<and> nd_seed_id t = nd_seed_id s \<and>
     (\<forall>k i. k \<noteq> Audio_receiver \<longrightarrow> node_stream t k i = node_stream s k i) \<and>
     (\<forall>i. node_stream t Audio_receiver i = node_stream s Audio_receiver i \<or> node_stream t Audio_receiver i = ?F (node_stream s) Audio_receiver i) \<and>
     (r = Inr () \<longrightarrow> (\<forall>i. node_stream t Audio_receiver i = ?F (node_stream s) Audio_receiver i))"
    using e(1,2) this_kind success others by (simp add: frame_defs)
qed

lemma edits_ancillary_receivers:
  assumes ord: "iteration_order ord"
  shows "edits L (reconciled (snapshot_stream current) (snapshot_stream new)) {Ancillary_receiver}
    (reconcile_ancillary_receivers J L ord current new)"
proof (rule edits_single)
  let ?F = "reconciled (snapshot_stream current) (snapshot_stream new)"
  fix s r t
  assume s: "node_good L s" and run: "reconcile_ancillary_receivers J L ord current new s = (r, t)"
  have spec: "map_option NR (nr.target (sn_ancillary_receivers current) (sn_ancillary_receivers new) (nr_view s) i)
      = ?F (node_stream s) Ancillary_receiver i" for i
    unfolding nr.target_find reconciled_def snapshot_stream.simps node_stream.simps find_by_id_def
    by (rule reconciled_lift_id [symmetric]) (simp add: inj_on_def)
  from nr.reconcile_list_effect [OF ord s run [unfolded reconcile_ancillary_receivers_def runtime_eqs]]
  have e: "node_good L t" "nr_frame t = nr_frame s"
    "r = Inr () \<Longrightarrow> nr_view t = nr.target (sn_ancillary_receivers current) (sn_ancillary_receivers new) (nr_view s)"
    "\<And>i. nr_view t i = nr_view s i \<or>
       nr_view t i = nr.target (sn_ancillary_receivers current) (sn_ancillary_receivers new) (nr_view s) i" by blast+
  have this_kind: "node_stream t Ancillary_receiver i = node_stream s Ancillary_receiver i \<or>
      node_stream t Ancillary_receiver i = ?F (node_stream s) Ancillary_receiver i" for i
    using e(4) [of i] spec [of i] by auto
  have success: "node_stream t Ancillary_receiver i = ?F (node_stream s) Ancillary_receiver i" if "r = Inr ()" for i
    using e(3) [OF that] spec [of i] by simp
  have others: "node_stream t k i = node_stream s k i" if "k \<noteq> Ancillary_receiver" for k i
    using that e(2) by (cases k) (simp_all add: frame_defs)
  show "node_good L t \<and> nd_seed_id t = nd_seed_id s \<and>
     (\<forall>k i. k \<noteq> Ancillary_receiver \<longrightarrow> node_stream t k i = node_stream s k i) \<and>
     (\<forall>i. node_stream t Ancillary_receiver i = node_stream s Ancillary_receiver i \<or> node_stream t Ancillary_receiver i = ?F (node_stream s) Ancillary_receiver i) \<and>
     (r = Inr () \<longrightarrow> (\<forall>i. node_stream t Ancillary_receiver i = ?F (node_stream s) Ancillary_receiver i))"
    using e(1,2) this_kind success others by (simp add: frame_defs)
qed

lemma edits_video_senders:
  assumes ord: "iteration_order ord"
  shows "edits L (reconciled (snapshot_stream current) (snapshot_stream new)) {Video_sender}
    (reconcile_video_senders J L T ord current new)"
proof (rule edits_single)
  let ?F = "reconciled (snapshot_stream current) (snapshot_stream new)"
  fix s r t
  assume s: "node_good L s" and run: "reconcile_video_senders J L T ord current new s = (r, t)"
  have spec: "map_option VS (vs.target (sn_video_senders current) (sn_video_senders new) (vs_view s) i)
      = ?F (node_stream s) Video_sender i" for i
    unfolding vs.target_find reconciled_def snapshot_stream.simps node_stream.simps find_by_id_def
    by (rule reconciled_lift [symmetric]) (simp add: inj_on_def)
  from vs.reconcile_list_effect [OF ord s run [unfolded reconcile_video_senders_def runtime_eqs]]
  have e: "node_good L t" "vs_frame t = vs_frame s"
    "r = Inr () \<Longrightarrow> vs_view t = vs.target (sn_video_senders current) (sn_video_senders new) (vs_view s)"
    "\<And>i. vs_view t i = vs_view s i \<or>
       vs_view t i = vs.target (sn_video_senders current) (sn_video_senders new) (vs_view s) i" by blast+
  have this_kind: "node_stream t Video_sender i = node_stream s Video_sender i \<or>
      node_stream t Video_sender i = ?F (node_stream s) Video_sender i" for i
    using e(4) [of i] spec [of i] by auto
  have success: "node_stream t Video_sender i = ?F (node_stream s) Video_sender i" if "r = Inr ()" for i
    using e(3) [OF that] spec [of i] by simp
  have others: "node_stream t k i = node_stream s k i" if "k \<noteq> Video_sender" for k i
    using that e(2) by (cases k) (simp_all add: frame_defs)
  show "node_good L t \<and> nd_seed_id t = nd_seed_id s \<and>
     (\<forall>k i. k \<noteq> Video_sender \<longrightarrow> node_stream t k i = node_stream s k i) \<and>
     (\<forall>i. node_stream t Video_sender i = node_stream s Video_sender i \<or> node_stream t Video_sender i = ?F (node_stream s) Video_sender i) \<and>
     (r = Inr () \<longrightarrow> (\<forall>i. node_stream t Video_sender i = ?F (node_stream s) Video_sender i))"
    using e(1,2) this_kind success others by (simp add: frame_defs)
qed

lemma edits_audio_senders:
  assumes ord: "iteration_order ord"
  shows "edits L (reconciled (snapshot_stream current) (snapshot_stream new)) {Audio_sender}
    (reconcile_audio_senders J L T ord current new)"
proof (rule edits_single)
  let ?F = "reconciled (snapshot_stream current) (snapshot_stream new)"
  fix s r t
  assume s: "node_good L s" and run: "reconcile_audio_senders J L T ord current new s = (r, t)"
  have spec: "map_option AS (as.target (sn_audio_senders current) (sn_audio_senders new) (as_view s) i)
      = ?F (node_stream s) Audio_sender i" for i
    unfolding as.target_find reconciled_def snapshot_stream.simps node_stream.simps find_by_id_def
    by (rule reconciled_lift [symmetric]) (simp add: inj_on_def)
  from as.reconcile_list_effect [OF ord s run [unfolded reconcile_audio_senders_def runtime_eqs]]
  have e: "node_good L t" "as_frame t = as_frame s"
    "r = Inr () \<Longrightarrow> as_view t = as.target (sn_audio_senders current) (sn_audio_senders new) (as_view s)"
    "\<And>i. as_view t i = as_view s i \<or>
       as_view t i = as.target (sn_audio_senders current) (sn_audio_senders new) (as_view s) i" by blast+
  have this_kind: "node_stream t Audio_sender i = node_stream s Audio_sender i \<or>
      node_stream t Audio_sender i = ?F (node_stream s) Audio_sender i" for i
    using e(4) [of i] spec [of i] by auto
  have success: "node_stream t Audio_sender i = ?F (node_stream s) Audio_sender i" if "r = Inr ()" for i
    using e(3) [OF that] spec [of i] by simp
  have others: "node_stream t k i = node_stream s k i" if "k \<noteq> Audio_sender" for k i
    using that e(2) by (cases k) (simp_all add: frame_defs)
  show "node_good L t \<and> nd_seed_id t = nd_seed_id s \<and>
     (\<forall>k i. k \<noteq> Audio_sender \<longrightarrow> node_stream t k i = node_stream s k i) \<and>
     (\<forall>i. node_stream t Audio_sender i = node_stream s Audio_sender i \<or> node_stream t Audio_sender i = ?F (node_stream s) Audio_sender i) \<and>
     (r = Inr () \<longrightarrow> (\<forall>i. node_stream t Audio_sender i = ?F (node_stream s) Audio_sender i))"
    using e(1,2) this_kind success others by (simp add: frame_defs)
qed

lemma edits_ancillary_senders:
  assumes ord: "iteration_order ord"
  shows "edits L (reconciled (snapshot_stream current) (snapshot_stream new)) {Ancillary_sender}
    (reconcile_ancillary_senders J L T ord current new)"
proof (rule edits_single)
  let ?F = "reconciled (snapshot_stream current) (snapshot_stream new)"
  fix s r t
  assume s: "node_good L s" and run: "reconcile_ancillary_senders J L T ord current new s = (r, t)"
  have spec: "map_option NS (ns.target (sn_ancillary_senders current) (sn_ancillary_senders new) (ns_view s) i)
      = ?F (node_stream s) Ancillary_sender i" for i
    unfolding ns.target_find reconciled_def snapshot_stream.simps node_stream.simps find_by_id_def
    by (rule reconciled_lift [symmetric]) (simp add: inj_on_def)
  from ns.reconcile_list_effect [OF ord s run [unfolded reconcile_ancillary_senders_def runtime_eqs]]
  have e: "node_good L t" "ns_frame t = ns_frame s"
    "r = Inr () \<Longrightarrow> ns_view t = ns.target (sn_ancillary_senders current) (sn_ancillary_senders new) (ns_view s)"
    "\<And>i. ns_view t i = ns_view s i \<or>
       ns_view t i = ns.target (sn_ancillary_senders current) (sn_ancillary_senders new) (ns_view s) i" by blast+
  have this_kind: "node_stream t Ancillary_sender i = node_stream s Ancillary_sender i \<or>
      node_stream t Ancillary_sender i = ?F (node_stream s) Ancillary_sender i" for i
    using e(4) [of i] spec [of i] by auto
  have success: "node_stream t Ancillary_sender i = ?F (node_stream s) Ancillary_sender i" if "r = Inr ()" for i
    using e(3) [OF that] spec [of i] by simp
  have others: "node_stream t k i = node_stream s k i" if "k \<noteq> Ancillary_sender" for k i
    using that e(2) by (cases k) (simp_all add: frame_defs)
  show "node_good L t \<and> nd_seed_id t = nd_seed_id s \<and>
     (\<forall>k i. k \<noteq> Ancillary_sender \<longrightarrow> node_stream t k i = node_stream s k i) \<and>
     (\<forall>i. node_stream t Ancillary_sender i = node_stream s Ancillary_sender i \<or> node_stream t Ancillary_sender i = ?F (node_stream s) Ancillary_sender i) \<and>
     (r = Inr () \<longrightarrow> (\<forall>i. node_stream t Ancillary_sender i = ?F (node_stream s) Ancillary_sender i))"
    using e(1,2) this_kind success others by (simp add: frame_defs)
qed

lemma drains_video_receivers:
  "edits L (drained sn) {Video_receiver} (eforeach (\<lambda>x. runtime_remove_video_receiver J L (vr_id x)) (sn_video_receivers sn)) \<and>
   succeeds L (eforeach (\<lambda>x. runtime_remove_video_receiver J L (vr_id x)) (sn_video_receivers sn))"
proof -
  have step: "r = Inr () \<and> node_good L t \<and> vr_frame t = vr_frame s \<and>
      (\<forall>i. node_stream t Video_receiver i = drained sn (node_stream s) Video_receiver i)"
    if "node_good L s" "eforeach (\<lambda>x. runtime_remove_video_receiver J L (vr_id x)) (sn_video_receivers sn) s = (r, t)" for s r t
    using vr.removals [OF that [unfolded runtime_eqs]] by (simp add: drained_def find_by_id_def)
  have "node_stream t k i = node_stream s k i" if "k \<noteq> Video_receiver" "vr_frame t = vr_frame s"
    for k i and s t :: "('v, 'rs) node"
    using that by (cases k) (simp_all add: frame_defs)
  moreover have "nd_seed_id t = nd_seed_id s" if "vr_frame t = vr_frame s" for s t :: "('v, 'rs) node"
    using that by (simp add: frame_defs)
  ultimately have "edits L (drained sn) {Video_receiver} (eforeach (\<lambda>x. runtime_remove_video_receiver J L (vr_id x)) (sn_video_receivers sn))"
    by (intro edits_single) (blast dest: step)
  then show ?thesis by (blast intro: succeedsI dest: step)
qed

lemma drains_audio_receivers:
  "edits L (drained sn) {Audio_receiver} (eforeach (\<lambda>x. runtime_remove_audio_receiver J L (ar_id x)) (sn_audio_receivers sn)) \<and>
   succeeds L (eforeach (\<lambda>x. runtime_remove_audio_receiver J L (ar_id x)) (sn_audio_receivers sn))"
proof -
  have step: "r = Inr () \<and> node_good L t \<and> ar_frame t = ar_frame s \<and>
      (\<forall>i. node_stream t Audio_receiver i = drained sn (node_stream s) Audio_receiver i)"
    if "node_good L s" "eforeach (\<lambda>x. runtime_remove_audio_receiver J L (ar_id x)) (sn_audio_receivers sn) s = (r, t)" for s r t
    using ar.removals [OF that [unfolded runtime_eqs]] by (simp add: drained_def find_by_id_def)
  have "node_stream t k i = node_stream s k i" if "k \<noteq> Audio_receiver" "ar_frame t = ar_frame s"
    for k i and s t :: "('v, 'rs) node"
    using that by (cases k) (simp_all add: frame_defs)
  moreover have "nd_seed_id t = nd_seed_id s" if "ar_frame t = ar_frame s" for s t :: "('v, 'rs) node"
    using that by (simp add: frame_defs)
  ultimately have "edits L (drained sn) {Audio_receiver} (eforeach (\<lambda>x. runtime_remove_audio_receiver J L (ar_id x)) (sn_audio_receivers sn))"
    by (intro edits_single) (blast dest: step)
  then show ?thesis by (blast intro: succeedsI dest: step)
qed

lemma drains_ancillary_receivers:
  "edits L (drained sn) {Ancillary_receiver} (eforeach (\<lambda>x. runtime_remove_ancillary_receiver J L (nr_id x)) (sn_ancillary_receivers sn)) \<and>
   succeeds L (eforeach (\<lambda>x. runtime_remove_ancillary_receiver J L (nr_id x)) (sn_ancillary_receivers sn))"
proof -
  have step: "r = Inr () \<and> node_good L t \<and> nr_frame t = nr_frame s \<and>
      (\<forall>i. node_stream t Ancillary_receiver i = drained sn (node_stream s) Ancillary_receiver i)"
    if "node_good L s" "eforeach (\<lambda>x. runtime_remove_ancillary_receiver J L (nr_id x)) (sn_ancillary_receivers sn) s = (r, t)" for s r t
    using nr.removals [OF that [unfolded runtime_eqs]] by (simp add: drained_def find_by_id_def)
  have "node_stream t k i = node_stream s k i" if "k \<noteq> Ancillary_receiver" "nr_frame t = nr_frame s"
    for k i and s t :: "('v, 'rs) node"
    using that by (cases k) (simp_all add: frame_defs)
  moreover have "nd_seed_id t = nd_seed_id s" if "nr_frame t = nr_frame s" for s t :: "('v, 'rs) node"
    using that by (simp add: frame_defs)
  ultimately have "edits L (drained sn) {Ancillary_receiver} (eforeach (\<lambda>x. runtime_remove_ancillary_receiver J L (nr_id x)) (sn_ancillary_receivers sn))"
    by (intro edits_single) (blast dest: step)
  then show ?thesis by (blast intro: succeedsI dest: step)
qed

lemma drains_video_senders:
  "edits L (drained sn) {Video_sender} (eforeach (\<lambda>x. runtime_remove_video_sender J L (vs_id x)) (sn_video_senders sn)) \<and>
   succeeds L (eforeach (\<lambda>x. runtime_remove_video_sender J L (vs_id x)) (sn_video_senders sn))"
proof -
  have step: "r = Inr () \<and> node_good L t \<and> vs_frame t = vs_frame s \<and>
      (\<forall>i. node_stream t Video_sender i = drained sn (node_stream s) Video_sender i)"
    if "node_good L s" "eforeach (\<lambda>x. runtime_remove_video_sender J L (vs_id x)) (sn_video_senders sn) s = (r, t)" for s r t
    using vs.removals [OF that [unfolded runtime_eqs]] by (simp add: drained_def find_by_id_def)
  have "node_stream t k i = node_stream s k i" if "k \<noteq> Video_sender" "vs_frame t = vs_frame s"
    for k i and s t :: "('v, 'rs) node"
    using that by (cases k) (simp_all add: frame_defs)
  moreover have "nd_seed_id t = nd_seed_id s" if "vs_frame t = vs_frame s" for s t :: "('v, 'rs) node"
    using that by (simp add: frame_defs)
  ultimately have "edits L (drained sn) {Video_sender} (eforeach (\<lambda>x. runtime_remove_video_sender J L (vs_id x)) (sn_video_senders sn))"
    by (intro edits_single) (blast dest: step)
  then show ?thesis by (blast intro: succeedsI dest: step)
qed

lemma drains_audio_senders:
  "edits L (drained sn) {Audio_sender} (eforeach (\<lambda>x. runtime_remove_audio_sender J L (as_id x)) (sn_audio_senders sn)) \<and>
   succeeds L (eforeach (\<lambda>x. runtime_remove_audio_sender J L (as_id x)) (sn_audio_senders sn))"
proof -
  have step: "r = Inr () \<and> node_good L t \<and> as_frame t = as_frame s \<and>
      (\<forall>i. node_stream t Audio_sender i = drained sn (node_stream s) Audio_sender i)"
    if "node_good L s" "eforeach (\<lambda>x. runtime_remove_audio_sender J L (as_id x)) (sn_audio_senders sn) s = (r, t)" for s r t
    using as.removals [OF that [unfolded runtime_eqs]] by (simp add: drained_def find_by_id_def)
  have "node_stream t k i = node_stream s k i" if "k \<noteq> Audio_sender" "as_frame t = as_frame s"
    for k i and s t :: "('v, 'rs) node"
    using that by (cases k) (simp_all add: frame_defs)
  moreover have "nd_seed_id t = nd_seed_id s" if "as_frame t = as_frame s" for s t :: "('v, 'rs) node"
    using that by (simp add: frame_defs)
  ultimately have "edits L (drained sn) {Audio_sender} (eforeach (\<lambda>x. runtime_remove_audio_sender J L (as_id x)) (sn_audio_senders sn))"
    by (intro edits_single) (blast dest: step)
  then show ?thesis by (blast intro: succeedsI dest: step)
qed

lemma drains_ancillary_senders:
  "edits L (drained sn) {Ancillary_sender} (eforeach (\<lambda>x. runtime_remove_ancillary_sender J L (ns_id x)) (sn_ancillary_senders sn)) \<and>
   succeeds L (eforeach (\<lambda>x. runtime_remove_ancillary_sender J L (ns_id x)) (sn_ancillary_senders sn))"
proof -
  have step: "r = Inr () \<and> node_good L t \<and> ns_frame t = ns_frame s \<and>
      (\<forall>i. node_stream t Ancillary_sender i = drained sn (node_stream s) Ancillary_sender i)"
    if "node_good L s" "eforeach (\<lambda>x. runtime_remove_ancillary_sender J L (ns_id x)) (sn_ancillary_senders sn) s = (r, t)" for s r t
    using ns.removals [OF that [unfolded runtime_eqs]] by (simp add: drained_def find_by_id_def)
  have "node_stream t k i = node_stream s k i" if "k \<noteq> Ancillary_sender" "ns_frame t = ns_frame s"
    for k i and s t :: "('v, 'rs) node"
    using that by (cases k) (simp_all add: frame_defs)
  moreover have "nd_seed_id t = nd_seed_id s" if "ns_frame t = ns_frame s" for s t :: "('v, 'rs) node"
    using that by (simp add: frame_defs)
  ultimately have "edits L (drained sn) {Ancillary_sender} (eforeach (\<lambda>x. runtime_remove_ancillary_sender J L (ns_id x)) (sn_ancillary_senders sn))"
    by (intro edits_single) (blast dest: step)
  then show ?thesis by (blast intro: succeedsI dest: step)
qed

lemma apply_snapshot_edits:
  assumes ord: "iteration_order ord"
  shows "edits L (reconciled (held current) (snapshot_stream new)) UNIV (apply_snapshot J L T ord current new)"
proof -
  let ?c = "case current of None \<Rightarrow> snapshot_default | Some c \<Rightarrow> c"
  have "edits L (reconciled (snapshot_stream ?c) (snapshot_stream new))
     ({} \<union> ({} \<union> ({Video_receiver} \<union> ({Audio_receiver} \<union> ({Ancillary_receiver} \<union>
       ({Video_sender} \<union> ({Audio_sender} \<union> {Ancillary_sender})))))))
     (apply_snapshot J L T ord current new)"
    unfolding apply_snapshot_def Let_def runtime_set_ptp_clock_def set_runtime_devices_def
    by (intro edits_eseq edits_keeps keeps_if keeps_eret set_ptp_clock_keeps set_runtime_interfaces_keeps
        edits_video_receivers edits_audio_receivers edits_ancillary_receivers
        edits_video_senders edits_audio_senders edits_ancillary_senders ord reconciled_local) auto
  then show ?thesis by (simp add: all_kinds held_eq)
qed

lemma drain_all_edits:
  "edits L (drained sn) UNIV (drain_all J L (Some sn)) \<and> succeeds L (drain_all J L (Some sn))"
proof -
  note e = drains_video_receivers [THEN conjunct1] drains_audio_receivers [THEN conjunct1]
    drains_ancillary_receivers [THEN conjunct1] drains_video_senders [THEN conjunct1]
    drains_audio_senders [THEN conjunct1] drains_ancillary_senders [THEN conjunct1]
  note t = drains_video_receivers [THEN conjunct2] drains_audio_receivers [THEN conjunct2]
    drains_ancillary_receivers [THEN conjunct2] drains_video_senders [THEN conjunct2]
    drains_audio_senders [THEN conjunct2] drains_ancillary_senders [THEN conjunct2]
  have "edits L (drained sn) ({Video_receiver} \<union> ({Audio_receiver} \<union> ({Ancillary_receiver} \<union>
       ({Video_sender} \<union> ({Audio_sender} \<union> {Ancillary_sender}))))) (drain_all J L (Some sn))"
    unfolding drain_all_def option.case by (intro edits_eseq e drained_local) auto
  moreover have "succeeds L (drain_all J L (Some sn))"
    unfolding drain_all_def option.case
    by (intro succeeds_eseq [OF e(1)] succeeds_eseq [OF e(2)] succeeds_eseq [OF e(3)]
        succeeds_eseq [OF e(4)] succeeds_eseq [OF e(5)] t)
  ultimately show ?thesis by (simp add: all_kinds)
qed

end

lemma after_attempts_healable:
  assumes m: "edits L (reconciled c n) UNIV m" and s: "node_good L s"
  shows "node_good L (after_attempts m j s) \<and>
    (\<forall>k i. reconciled c n (node_stream (after_attempts m j s)) k i = reconciled c n (node_stream s) k i)"
  using s
proof (induction j arbitrary: s)
  case 0
  then show ?case by simp
next
  case (Suc j)
  obtain r u where u: "m s = (r, u)" by (cases "m s")
  note e = editsD [OF m Suc.prems u]
  have "reconciled c n (node_stream u) k i = reconciled c n (node_stream s) k i" for k i
    using e(3) [of k i] by (auto simp: reconciled_def)
  with Suc.IH [OF e(1)] u show ?case by simp
qed

context resource_store
begin

lemma drain_all_effect:
  assumes "node_good L s"
  shows "\<exists>t. drain_all J L (Some sn) s = (Inr (), t) \<and> node_good L t \<and>
    node_stream t = drained sn (node_stream s)"
proof -
  obtain r t where run: "drain_all J L (Some sn) s = (r, t)" by (cases "drain_all J L (Some sn) s")
  from drain_all_edits [of sn J] assms run have "r = Inr ()" by (auto simp: succeeds_def)
  with editsD(1,4) [OF drain_all_edits [THEN conjunct1] assms run] run show ?thesis by (simp add: fun_eq_iff)
qed

end

lemma eseq_error:
  assumes "eseq m n s = (Inl e, t)"
  obtains "m s = (Inl e, t)" | u where "m s = (Inr (), u)" "n u = (Inl e, t)"
  using assms by (auto simp: eff_simps split: prod.splits sum.splits)

lemma due_lift:
  assumes "due_action eq c n action i" "\<And>x y. eq x y \<longleftrightarrow> obs x = obs y" "inj C"
    and "a k i = map_option (C \<circ> obs) (c i)" "b k i = map_option (C \<circ> obs) (n i)"
  shows "due a b k action i"
  using assms by (auto simp: due_action_def due_def inj_eq split: option.splits)

lemma reconcile_phase_errors:
  "reconcile_video_receivers J L ord current new s = (Inl e, t) \<Longrightarrow> \<exists>k action i d.
     e = reconcile_error (kind_name k) action i d \<and> due (snapshot_stream current) (snapshot_stream new) k action i"
  "reconcile_audio_receivers J L ord current new s = (Inl e, t) \<Longrightarrow> \<exists>k action i d.
     e = reconcile_error (kind_name k) action i d \<and> due (snapshot_stream current) (snapshot_stream new) k action i"
  "reconcile_ancillary_receivers J L ord current new s = (Inl e, t) \<Longrightarrow> \<exists>k action i d.
     e = reconcile_error (kind_name k) action i d \<and> due (snapshot_stream current) (snapshot_stream new) k action i"
  "reconcile_video_senders J L T ord current new s = (Inl e, t) \<Longrightarrow> \<exists>k action i d.
     e = reconcile_error (kind_name k) action i d \<and> due (snapshot_stream current) (snapshot_stream new) k action i"
  "reconcile_audio_senders J L T ord current new s = (Inl e, t) \<Longrightarrow> \<exists>k action i d.
     e = reconcile_error (kind_name k) action i d \<and> due (snapshot_stream current) (snapshot_stream new) k action i"
  "reconcile_ancillary_senders J L T ord current new s = (Inl e, t) \<Longrightarrow> \<exists>k action i d.
     e = reconcile_error (kind_name k) action i d \<and> due (snapshot_stream current) (snapshot_stream new) k action i"
proof -
  show "\<exists>k action i d. e = reconcile_error (kind_name k) action i d \<and>
      due (snapshot_stream current) (snapshot_stream new) k action i"
    if "reconcile_video_receivers J L ord current new s = (Inl e, t)"
  proof -
    from reconcile_list_error [OF that [unfolded reconcile_video_receivers_def]] obtain action i d where
      e: "e = reconcile_error ''video_receiver'' action i d" and
      a: "due_action vr_equivalent (\<lambda>i. List.find (\<lambda>x. vr_id x = i) (sn_video_receivers current))
         (\<lambda>i. List.find (\<lambda>x. vr_id x = i) (sn_video_receivers new)) action i" by blast
    have "due (snapshot_stream current) (snapshot_stream new) Video_receiver action i"
      by (rule due_lift [OF a, where obs = "\<lambda>x. x" and C = VR])
        (simp_all add: equivalent_iffs obs_defs inj_on_def find_by_id_def comp_def)
    with e show ?thesis by (intro exI [of _ Video_receiver] exI [of _ action] exI [of _ i] exI [of _ d]) simp
  qed
  show "\<exists>k action i d. e = reconcile_error (kind_name k) action i d \<and>
      due (snapshot_stream current) (snapshot_stream new) k action i"
    if "reconcile_audio_receivers J L ord current new s = (Inl e, t)"
  proof -
    from reconcile_list_error [OF that [unfolded reconcile_audio_receivers_def]] obtain action i d where
      e: "e = reconcile_error ''audio_receiver'' action i d" and
      a: "due_action ar_equivalent (\<lambda>i. List.find (\<lambda>x. ar_id x = i) (sn_audio_receivers current))
         (\<lambda>i. List.find (\<lambda>x. ar_id x = i) (sn_audio_receivers new)) action i" by blast
    have "due (snapshot_stream current) (snapshot_stream new) Audio_receiver action i"
      by (rule due_lift [OF a, where obs = "\<lambda>x. x" and C = AR])
        (simp_all add: equivalent_iffs obs_defs inj_on_def find_by_id_def comp_def)
    with e show ?thesis by (intro exI [of _ Audio_receiver] exI [of _ action] exI [of _ i] exI [of _ d]) simp
  qed
  show "\<exists>k action i d. e = reconcile_error (kind_name k) action i d \<and>
      due (snapshot_stream current) (snapshot_stream new) k action i"
    if "reconcile_ancillary_receivers J L ord current new s = (Inl e, t)"
  proof -
    from reconcile_list_error [OF that [unfolded reconcile_ancillary_receivers_def]] obtain action i d where
      e: "e = reconcile_error ''ancillary_receiver'' action i d" and
      a: "due_action nr_equivalent (\<lambda>i. List.find (\<lambda>x. nr_id x = i) (sn_ancillary_receivers current))
         (\<lambda>i. List.find (\<lambda>x. nr_id x = i) (sn_ancillary_receivers new)) action i" by blast
    have "due (snapshot_stream current) (snapshot_stream new) Ancillary_receiver action i"
      by (rule due_lift [OF a, where obs = "\<lambda>x. x" and C = NR])
        (simp_all add: equivalent_iffs obs_defs inj_on_def find_by_id_def comp_def)
    with e show ?thesis by (intro exI [of _ Ancillary_receiver] exI [of _ action] exI [of _ i] exI [of _ d]) simp
  qed
  show "\<exists>k action i d. e = reconcile_error (kind_name k) action i d \<and>
      due (snapshot_stream current) (snapshot_stream new) k action i"
    if "reconcile_video_senders J L T ord current new s = (Inl e, t)"
  proof -
    from reconcile_list_error [OF that [unfolded reconcile_video_senders_def]] obtain action i d where
      e: "e = reconcile_error ''video_sender'' action i d" and
      a: "due_action vs_equivalent (\<lambda>i. List.find (\<lambda>x. vs_id x = i) (sn_video_senders current))
         (\<lambda>i. List.find (\<lambda>x. vs_id x = i) (sn_video_senders new)) action i" by blast
    have "due (snapshot_stream current) (snapshot_stream new) Video_sender action i"
      by (rule due_lift [OF a, where obs = "vs_obs" and C = VS])
        (simp_all add: equivalent_iffs obs_defs inj_on_def find_by_id_def comp_def)
    with e show ?thesis by (intro exI [of _ Video_sender] exI [of _ action] exI [of _ i] exI [of _ d]) simp
  qed
  show "\<exists>k action i d. e = reconcile_error (kind_name k) action i d \<and>
      due (snapshot_stream current) (snapshot_stream new) k action i"
    if "reconcile_audio_senders J L T ord current new s = (Inl e, t)"
  proof -
    from reconcile_list_error [OF that [unfolded reconcile_audio_senders_def]] obtain action i d where
      e: "e = reconcile_error ''audio_sender'' action i d" and
      a: "due_action as_equivalent (\<lambda>i. List.find (\<lambda>x. as_id x = i) (sn_audio_senders current))
         (\<lambda>i. List.find (\<lambda>x. as_id x = i) (sn_audio_senders new)) action i" by blast
    have "due (snapshot_stream current) (snapshot_stream new) Audio_sender action i"
      by (rule due_lift [OF a, where obs = "as_obs" and C = AS])
        (simp_all add: equivalent_iffs obs_defs inj_on_def find_by_id_def comp_def)
    with e show ?thesis by (intro exI [of _ Audio_sender] exI [of _ action] exI [of _ i] exI [of _ d]) simp
  qed
  show "\<exists>k action i d. e = reconcile_error (kind_name k) action i d \<and>
      due (snapshot_stream current) (snapshot_stream new) k action i"
    if "reconcile_ancillary_senders J L T ord current new s = (Inl e, t)"
  proof -
    from reconcile_list_error [OF that [unfolded reconcile_ancillary_senders_def]] obtain action i d where
      e: "e = reconcile_error ''ancillary_sender'' action i d" and
      a: "due_action ns_equivalent (\<lambda>i. List.find (\<lambda>x. ns_id x = i) (sn_ancillary_senders current))
         (\<lambda>i. List.find (\<lambda>x. ns_id x = i) (sn_ancillary_senders new)) action i" by blast
    have "due (snapshot_stream current) (snapshot_stream new) Ancillary_sender action i"
      by (rule due_lift [OF a, where obs = "ns_obs" and C = NS])
        (simp_all add: equivalent_iffs obs_defs inj_on_def find_by_id_def comp_def)
    with e show ?thesis by (intro exI [of _ Ancillary_sender] exI [of _ action] exI [of _ i] exI [of _ d]) simp
  qed
qed

lemma dv_list_equivalent: "list_all2 dv_equivalent xs ys \<longleftrightarrow> xs = ys"
proof -
  have "dv_equivalent = (=)" by (simp add: dv_equivalent_iff fun_eq_iff)
  then show ?thesis by (simp add: list.rel_eq)
qed

section \<open>A concrete node\<close>

definition sample_node :: "(doc, doc resource list) node" where
  "sample_node =
     \<lparr> nd_lifecycle_state = Running, nd_stop_requested = False, nd_needs_model_reset = False,
       nd_config_file = [], nd_node_id = ''n'', nd_device_id = ''d'', nd_seed_id = ''s'',
       nd_sender_ids = [], nd_receiver_ids = [], nd_source_ids = [], nd_flow_ids = [],
       nd_runtime_interfaces = [], nd_video_senders = [], nd_audio_senders = [],
       nd_ancillary_senders = [], nd_video_receivers = [], nd_audio_receivers = [],
       nd_ancillary_receivers = [],
       nd_node_resources = [sample_resource ''node'' ''n'', sample_resource ''device'' ''d'',
         sample_resource ''flow'' ''u/x-nmos/node/flow/DATAx''],
       nd_connection_resources = [], nd_settings = DObj [], nd_shutdown = False,
       nd_ptp_domain_number = 127, nd_thread_joinable = True \<rparr>"

definition sample_transportfile :: "(doc, doc resource list) transportfile" where
  "sample_transportfile n s c e = Inr e"

definition sample_ancillary_receiver :: "string \<Rightarrow> ancillary_receiver" where
  "sample_ancillary_receiver i =
     \<lparr> nr_id = i, nr_name = ''anc'', nr_format = ''1080p25'', nr_enable = True,
       nr_ip = ''239.0.0.1'', nr_source_ip = [], nr_port = 5004, nr_redudancy = redudancy_default 0 \<rparr>"

definition sample_snapshot :: "string list \<Rightarrow> snapshot_dto" where
  "sample_snapshot is =
     snapshot_default\<lparr> sn_ancillary_receivers := map sample_ancillary_receiver is \<rparr>"

text \<open>A sender whose flow identity is taken already, so that adding it fails after its source is in.\<close>

definition sample_bad_sender :: ancillary_sender where
  "sample_bad_sender =
     \<lparr> ns_id = ''x'', ns_sender_id = [], ns_name = ''data'', ns_format = [], ns_source_ip = [],
       ns_enable = True, ns_ip = [], ns_port = 5004, ns_redudancy = redudancy_default 0 \<rparr>"

definition sample_bad_snapshot :: snapshot_dto where
  "sample_bad_snapshot = sample_snapshot [''a'']\<lparr> sn_ancillary_senders := [sample_bad_sender] \<rparr>"

abbreviation sample_apply :: "snapshot_dto option \<Rightarrow> snapshot_dto \<Rightarrow> (doc, doc resource list, unit) node_eff" where
  "sample_apply \<equiv> apply_snapshot doc_lib sample_lib sample_transportfile (\<lambda>ks. ks)"

lemma sample_node_good: "node_good sample_lib sample_node"
  by (simp add: node_good_def cache_good_def sample_node_def)

lemma sample_node_stream: "node_stream sample_node k i = None"
  by (cases k) (simp_all add: view_defs cached_view_def find_by_id_def sample_node_def)

lemma sample_applied: "\<exists>t. sample_apply None (sample_snapshot [''a'']) sample_node = (Inr (), t)"
proof -
  have "fst (sample_apply None (sample_snapshot [''a'']) sample_node) = Inr ()" by code_simp
  then show ?thesis by (metis prod.collapse)
qed

lemma sample_failed: "\<exists>e t. sample_apply None sample_bad_snapshot sample_node = (Inl e, t) \<and>
    node_stream t Ancillary_receiver ''a'' = Some (NR (sample_ancillary_receiver ''a''))"
proof -
  have "(case sample_apply None sample_bad_snapshot sample_node of
      (Inr x, t) \<Rightarrow> False
    | (Inl e, t) \<Rightarrow> node_stream t Ancillary_receiver ''a'' = Some (NR (sample_ancillary_receiver ''a'')))"
    by code_simp
  then show ?thesis by (auto split: prod.splits sum.splits)
qed

section \<open>Properties\<close>

text \<open>
  C8. Applying a snapshot refines the table specification: whenever the node's invariant holds and
  the call succeeds, every stream of every kind is the one of the new snapshot where it differs from
  the last one, and untouched where both agree. A node that held exactly the last snapshot holds
  exactly the new one afterwards, whatever the iteration order of the maps.
\<close>
theorem apply_snapshot_refines:
  assumes "resource_store L ids" "iteration_order ord" "node_good L s"
    and "apply_snapshot J L T ord current new s = (Inr (), t)"
  shows "node_good L t \<and>
    node_stream t = reconciled (held current) (snapshot_stream new) (node_stream s) \<and>
    (node_stream s = held current \<longrightarrow> node_stream t = snapshot_stream new)"
proof -
  note e = editsD [OF resource_store.apply_snapshot_edits [OF assms(1,2)] assms(3,4)]
  have "node_stream t = reconciled (held current) (snapshot_stream new) (node_stream s)"
    using e(4) by (simp add: fun_eq_iff)
  with e(1) show ?thesis by (simp add: fun_eq_iff reconciled_def)
qed

theorem apply_snapshot_refines_witness:
  "\<exists>t. sample_apply None (sample_snapshot [''a'']) sample_node = (Inr (), t) \<and>
     node_stream t = snapshot_stream (sample_snapshot [''a''])"
proof -
  from sample_applied obtain t where t: "sample_apply None (sample_snapshot [''a'']) sample_node = (Inr (), t)" ..
  have "iteration_order (\<lambda>ks. ks)" by (simp add: iteration_order_def)
  moreover have "node_stream sample_node = held None" by (simp add: fun_eq_iff sample_node_stream)
  ultimately show ?thesis
    using apply_snapshot_refines [OF sample.resource_store_axioms _ sample_node_good t] t by blast
qed

text \<open>
  C9. A failing call is safe: it keeps the node's invariant, and every stream is either as before or
  already as in the new snapshot; streams neither snapshot names are not touched.
\<close>
theorem apply_snapshot_failure_safe:
  assumes "resource_store L ids" "iteration_order ord" "node_good L s"
    and "apply_snapshot J L T ord current new s = (Inl e, t)"
  shows "node_good L t \<and>
    (\<forall>k i. node_stream t k i = node_stream s k i \<or> node_stream t k i = snapshot_stream new k i) \<and>
    (\<forall>k i. held current k i = None \<and> snapshot_stream new k i = None \<longrightarrow> node_stream t k i = node_stream s k i)"
proof -
  note e = editsD [OF resource_store.apply_snapshot_edits [OF assms(1,2)] assms(3,4)]
  have "node_stream t k i = node_stream s k i \<or> node_stream t k i = snapshot_stream new k i \<and>
      held current k i \<noteq> snapshot_stream new k i" for k i
    using e(3) [of k i] by (auto simp: reconciled_def)
  with e(1) show ?thesis by metis
qed

theorem apply_snapshot_failure_safe_witness:
  "\<exists>e t. sample_apply None sample_bad_snapshot sample_node = (Inl e, t) \<and> node_good sample_lib t"
proof -
  from sample_failed obtain e t where t: "sample_apply None sample_bad_snapshot sample_node = (Inl e, t)" by blast
  have "iteration_order (\<lambda>ks. ks)" by (simp add: iteration_order_def)
  with apply_snapshot_failure_safe [OF sample.resource_store_axioms _ sample_node_good t] t show ?thesis by blast
qed

text \<open>
  C10. Retrying heals: however often the same snapshot was applied before, failing half way or not,
  once a call succeeds the streams are the ones the first attempt would have left.
\<close>
theorem apply_snapshot_retry_heals:
  assumes "resource_store L ids" "iteration_order ord" "node_good L s"
    and "apply_snapshot J L T ord current new (after_attempts (apply_snapshot J L T ord current new) n s) = (Inr (), t)"
  shows "node_good L t \<and> node_stream t = reconciled (held current) (snapshot_stream new) (node_stream s)"
proof -
  let ?F = "reconciled (held current) (snapshot_stream new)"
  note edits = resource_store.apply_snapshot_edits [OF assms(1,2)]
  let ?u = "after_attempts (apply_snapshot J L T ord current new) n s"
  have u: "node_good L ?u \<and> (\<forall>k i. ?F (node_stream ?u) k i = ?F (node_stream s) k i)"
    by (rule after_attempts_healable [OF edits assms(3)])
  with editsD(1,4) [OF edits _ assms(4)] show ?thesis by (simp add: fun_eq_iff)
qed

theorem apply_snapshot_retry_heals_witness:
  "\<exists>t. sample_apply None (sample_snapshot [''a''])
       (after_attempts (sample_apply None (sample_snapshot [''a''])) 0 sample_node) = (Inr (), t) \<and>
     node_stream t = reconciled (held None) (snapshot_stream (sample_snapshot [''a''])) (node_stream sample_node)"
proof -
  from sample_applied obtain t where t: "sample_apply None (sample_snapshot [''a'']) sample_node = (Inr (), t)" ..
  then have "sample_apply None (sample_snapshot [''a''])
       (after_attempts (sample_apply None (sample_snapshot [''a''])) 0 sample_node) = (Inr (), t)" by simp
  with apply_snapshot_retry_heals [OF sample.resource_store_axioms _ sample_node_good this]
  show ?thesis by (auto simp: iteration_order_def)
qed

text \<open>
  C11. Draining never throws, which its caller relies on, and removes exactly the streams of the
  snapshot it is given, of every kind.
\<close>
theorem drain_all_exact:
  assumes "resource_store L ids" "node_good L s"
  shows "\<exists>t. drain_all J L (Some sn) s = (Inr (), t) \<and> node_good L t \<and>
    node_stream t = drained sn (node_stream s)"
  by (rule resource_store.drain_all_effect [OF assms])

theorem drain_all_exact_witness:
  "\<exists>t. drain_all doc_lib sample_lib (Some (sample_snapshot [''a''])) sample_node = (Inr (), t) \<and>
     node_stream t = drained (sample_snapshot [''a'']) (node_stream sample_node)"
  using drain_all_exact [OF sample.resource_store_axioms sample_node_good] by blast

text \<open>
  C12. A stream that a failing call has added already, and that the last snapshot does not name, is
  not removed by the drain at the next disconnect: the node keeps offering it.
\<close>
theorem partial_apply_survives_drain:
  assumes "resource_store L ids" "iteration_order ord" "node_good L s"
    and "apply_snapshot J L T ord current new s = (Inl e, u)"
    and "held current k i = None" "node_stream u k i = Some x"
  shows "\<exists>t. drain_all J L current u = (Inr (), t) \<and> node_stream t k i = Some x"
proof (cases current)
  case None
  then show ?thesis using assms(6) by (simp add: drain_all_def eff_simps)
next
  case (Some sn)
  have "node_good L u"
    by (rule editsD(1) [OF resource_store.apply_snapshot_edits [OF assms(1,2)] assms(3,4)])
  then have "\<exists>t. drain_all J L (Some sn) u = (Inr (), t) \<and> node_good L t \<and>
      node_stream t = drained sn (node_stream u)"
    by (rule resource_store.drain_all_effect [OF assms(1)])
  with Some assms(5,6) show ?thesis by (auto simp: drained_def)
qed

theorem partial_apply_survives_drain_witness:
  "\<exists>e u t. sample_apply None sample_bad_snapshot sample_node = (Inl e, u) \<and>
     drain_all doc_lib sample_lib None u = (Inr (), t) \<and>
     node_stream t Ancillary_receiver ''a'' = Some (NR (sample_ancillary_receiver ''a''))"
proof -
  from sample_failed obtain e u where u: "sample_apply None sample_bad_snapshot sample_node = (Inl e, u)"
    "node_stream u Ancillary_receiver ''a'' = Some (NR (sample_ancillary_receiver ''a''))" by blast
  with partial_apply_survives_drain [OF sample.resource_store_axioms _ sample_node_good u(1) _ u(2)]
  show ?thesis by (auto simp: iteration_order_def)
qed



end
