(* ===== verification/App_Sync.thy ===== *)
theory App_Sync
  imports Reconcile_Engine
begin

text \<open>
  How the daemon keeps the node in step with the snapshots: \<open>SnapshotClient::fetch_snapshot\<close>
  (\<open>daemon/snapshot_client.cpp\<close>) and the synchronisation half of \<open>App\<close> (\<open>daemon/app.cpp\<close>):
  \<open>schedule_sync\<close>, \<open>sync_loop\<close>, \<open>perform_sync\<close>, the handlers of the WebSocket client and of the
  node's events, \<open>set_node_state\<close>.

  Three threads share the state: the sync thread, the WebSocket threads and the node's threads.
  \<open>app_step\<close> lets them interleave at the points where they hold no lock: the sync thread is at one of
  the points of \<open>sync_pc\<close>, a handler is one step, except that the part of \<open>perform_sync\<close> before the
  snapshot has been fetched and the part after it are two steps with \<open>reconcile_mutex_\<close> held in
  between. Times are in milliseconds, 0 is the default \<open>time_point\<close>. Restarting the node
  (\<open>update_node_config\<close>) is not a step of this relation.
\<close>

section \<open>Fetching a snapshot\<close>

text \<open>The response of the HTTP library; \<open>Inl\<close> where it throws. The body is parsed by the library.\<close>

record 'v http_response =
  hr_status_code :: nat
  hr_json :: "exc + 'v"

definition fetch_snapshot ::
    "('v, 'x) json_lib_scheme \<Rightarrow> (string \<Rightarrow> int32) \<Rightarrow> string \<Rightarrow> exc + 'v http_response \<Rightarrow> exc + snapshot_dto" where
  "fetch_snapshot J u snapshot_url requested =
     rbind requested (\<lambda>response.
     if hr_status_code response \<noteq> 200
     then Inl (''snapshot fetch failed with status: '' @ nat_to_string (hr_status_code response))
     else rbind (hr_json response) (\<lambda>json.
       rethrow (\<lambda>error. ''snapshot parse failed, url='' @ snapshot_url @ '', error='' @ error)
         (snapshot_from_json J u json)))"

section \<open>State\<close>

text \<open>Where the sync thread is; \<open>Fetching\<close> holds \<open>reconcile_mutex_\<close> and the snapshot it has read.\<close>

datatype sync_pc =
    Waiting
  | Debouncing int
  | Delaying
  | Starting_sync int64 bool
  | Fetching int64 bool "snapshot_dto option"
  | Finished

record ('v, 'rs) app_env =
  ae_json :: "'v json_lib"
  ae_nmos :: "('v, 'rs) nmos_lib"
  ae_transportfile :: "('v, 'rs) transportfile"
  ae_order :: key_order
  ae_snapshot_debounce_ms :: int
  ae_reconnect_interval_ms :: int

text \<open>\<open>ap_sent\<close> is what \<open>send_json\<close> has queued, in order; \<open>ap_ws_connected\<close> what \<open>is_connected\<close> answers.\<close>

record ('v, 'rs) app =
  ap_stop_requested :: bool
  ap_store :: state_store
  ap_node :: "('v, 'rs) node"
  ap_ws_connected :: bool
  ap_sent :: "'v list"
  ap_sync_pending :: bool
  ap_force_sync_pending :: bool
  ap_pending_revision :: int64
  ap_last_signal_time :: int
  ap_next_sync_not_before :: int
  ap_last_node_state :: string
  ap_now :: int
  ap_pc :: sync_pc

definition on_store :: "(state_store \<Rightarrow> state_store) \<Rightarrow> ('v, 'rs) app \<Rightarrow> ('v, 'rs) app" where
  "on_store f s = s\<lparr> ap_store := f (ap_store s) \<rparr>"

definition on_node :: "('v, 'rs, 'a) node_eff \<Rightarrow> (('v, 'rs) app, 'a) eff" where
  "on_node m = (\<lambda>s. case m (ap_node s) of (r, n) \<Rightarrow> (r, s\<lparr> ap_node := n \<rparr>))"

text \<open>\<open>WsClient::send_json\<close> as its callers see it: without a connection the message is dropped.\<close>

definition send_json :: "'v \<Rightarrow> ('v, 'rs) app \<Rightarrow> ('v, 'rs) app" where
  "send_json message s = (if ap_ws_connected s then s\<lparr> ap_sent := ap_sent s @ [message] \<rparr> else s)"

section \<open>Operations\<close>

definition app_set_node_state :: "('v, 'rs) app_env \<Rightarrow> string \<Rightarrow> ('v, 'rs) app \<Rightarrow> ('v, 'rs) app" where
  "app_set_node_state E state s =
     (let s1 = on_store (store_set_node_state state) s;
          s2 = (if ap_ws_connected s1
                then send_json (make_node_lifecycle_message (ae_json E) (ap_last_node_state s1) state) s1
                else s1)
      in s2\<lparr> ap_last_node_state := state \<rparr>)"

definition schedule_sync :: "int64 \<Rightarrow> ('v, 'rs) app \<Rightarrow> ('v, 'rs) app" where
  "schedule_sync revision s =
     (let status = ss_status (ap_store s);
          needs_resync_without_newer_revision = (st_protection_mode status \<or> \<not> st_streams_registered status)
      in if \<not> ap_force_sync_pending s \<and> revision \<le>s st_last_applied_revision status \<and>
            \<not> needs_resync_without_newer_revision
         then s
         else s\<lparr> ap_sync_pending := True,
                 ap_pending_revision := (if ap_pending_revision s <s revision then revision else ap_pending_revision s),
                 ap_last_signal_time := ap_now s,
                 ap_next_sync_not_before := 0 \<rparr>)"

definition handle_snapshot_changed :: "snapshot_changed_message \<Rightarrow> ('v, 'rs) app \<Rightarrow> ('v, 'rs) app" where
  "handle_snapshot_changed message s =
     (let s1 = on_store mark_snapshot_signal_received s;
          s2 = on_store (set_last_seen_revision (cm_revision message)) s1;
          s3 = s2\<lparr> ap_force_sync_pending := True \<rparr>
      in schedule_sync (cm_revision message) s3)"

definition handle_ws_connected :: "('v, 'rs) app_env \<Rightarrow> ('v, 'rs) app \<Rightarrow> ('v, 'rs) app" where
  "handle_ws_connected E s =
     (let s1 = on_store (set_daemon_state ''connected_waiting_snapshot'') s;
          (pending, store) = consume_pending_drain_notification (ap_store s1);
          s2 = s1\<lparr> ap_store := store \<rparr>;
          s3 = (if pending then send_json (make_streams_drained_message (ae_json E)) s2 else s2);
          status = ss_status (ap_store s3);
          reconnect_revision = (if 0 <s st_last_seen_revision status then st_last_seen_revision status else 1)
      in schedule_sync reconnect_revision s3)"

definition handle_ws_disconnected :: "('v, 'rs) app_env \<Rightarrow> (('v, 'rs) app, unit) eff" where
  "handle_ws_disconnected E =
     eseq (emod (on_store (set_daemon_state ''draining'')))
    (ebind (eget (\<lambda>s. ss_last_snapshot (ap_store s))) (\<lambda>last_snapshot.
     eseq (on_node (drain_all (ae_json E) (ae_nmos E) last_snapshot))
    (eseq (emod (on_store mark_drained_due_to_ws_disconnect))
    (eseq (emod (on_store clear_last_snapshot))
          (emod (on_store (set_daemon_state ''degraded'')))))))"

definition handle_ws_error :: "string \<Rightarrow> ('v, 'rs) app \<Rightarrow> ('v, 'rs) app" where
  "handle_ws_error message = on_store (mark_sync_failed message)"

definition handle_registration_event :: "registration_status \<Rightarrow> ('v, 'rs) app \<Rightarrow> ('v, 'rs) app" where
  "handle_registration_event status = on_store (set_registry_status status)"

datatype sender_event =
    Sender_video_event video_sender | Sender_audio_event audio_sender | Sender_ancillary_event ancillary_sender

datatype receiver_event =
    Receiver_video_event video_receiver | Receiver_audio_event audio_receiver | Receiver_ancillary_event ancillary_receiver

fun sender_event_message :: "('v, 'x) json_lib_scheme \<Rightarrow> sender_event \<Rightarrow> 'v" where
  "sender_event_message J (Sender_video_event v) = make_sender_video_observed_changed_message J v"
| "sender_event_message J (Sender_audio_event v) = make_sender_audio_observed_changed_message J v"
| "sender_event_message J (Sender_ancillary_event v) = make_sender_ancillary_observed_changed_message J v"

fun receiver_event_message :: "('v, 'x) json_lib_scheme \<Rightarrow> receiver_event \<Rightarrow> 'v" where
  "receiver_event_message J (Receiver_video_event v) = make_receiver_video_observed_changed_message J v"
| "receiver_event_message J (Receiver_audio_event v) = make_receiver_audio_observed_changed_message J v"
| "receiver_event_message J (Receiver_ancillary_event v) = make_receiver_ancillary_observed_changed_message J v"

definition handle_sender_event :: "('v, 'rs) app_env \<Rightarrow> sender_event \<Rightarrow> ('v, 'rs) app \<Rightarrow> ('v, 'rs) app" where
  "handle_sender_event E event s =
     (if \<not> ap_ws_connected s then s else send_json (sender_event_message (ae_json E) event) s)"

definition handle_receiver_event :: "('v, 'rs) app_env \<Rightarrow> receiver_event \<Rightarrow> ('v, 'rs) app \<Rightarrow> ('v, 'rs) app" where
  "handle_receiver_event E event s =
     (if \<not> ap_ws_connected s then s else send_json (receiver_event_message (ae_json E) event) s)"

text \<open>The catch block of \<open>perform_sync\<close>, and the part of the function after the snapshot was fetched.\<close>

definition sync_failed :: "('v, 'rs) app_env \<Rightarrow> int64 \<Rightarrow> exc \<Rightarrow> ('v, 'rs) app \<Rightarrow> ('v, 'rs) app" where
  "sync_failed E revision error s =
     (let s1 = on_store (set_daemon_state ''degraded'') (on_store (mark_sync_failed error) s);
          s2 = (if ap_ws_connected s1
                then send_json (make_sync_failed_message (ae_json E)
                                  \<lparr> fm_revision = revision, fm_message = error \<rparr>) s1
                else s1)
      in s2\<lparr> ap_sync_pending := True,
             ap_pending_revision := (if ap_pending_revision s2 <s revision then revision else ap_pending_revision s2),
             ap_last_signal_time := ap_now s2,
             ap_next_sync_not_before := ap_now s2 + ae_reconnect_interval_ms E \<rparr>)"

definition perform_sync_rest ::
    "('v, 'rs) app_env \<Rightarrow> int64 \<Rightarrow> snapshot_dto option \<Rightarrow> exc + snapshot_dto \<Rightarrow> ('v, 'rs) app \<Rightarrow> ('v, 'rs) app" where
  "perform_sync_rest E revision current_snapshot fetched s =
     (case ebind (elift fetched) (\<lambda>snapshot.
             eseq (on_node (apply_snapshot (ae_json E) (ae_nmos E) (ae_transportfile E) (ae_order E)
                              current_snapshot snapshot))
            (eseq (emod (on_store (mark_apply_success revision snapshot (has_any_streams snapshot))))
                  (emod (on_store (set_daemon_state ''running''))))) s of
        (Inr _, t) \<Rightarrow> t
      | (Inl error, t) \<Rightarrow> sync_failed E revision error t)"

definition perform_sync ::
    "('v, 'rs) app_env \<Rightarrow> int64 \<Rightarrow> exc + snapshot_dto \<Rightarrow> ('v, 'rs) app \<Rightarrow> ('v, 'rs) app" where
  "perform_sync E revision fetched s =
     (if ap_stop_requested s then s
      else let s1 = on_store (set_daemon_state ''resyncing'') s
           in perform_sync_rest E revision (ss_last_snapshot (ap_store s1)) fetched s1)"

text \<open>The end of an iteration of \<open>sync_loop\<close>: the request is taken.\<close>

definition take_request :: "bool \<Rightarrow> ('v, 'rs) app \<Rightarrow> ('v, 'rs) app" where
  "take_request is_retry_attempt s =
     s\<lparr> ap_sync_pending := False, ap_force_sync_pending := False, ap_pending_revision := 0,
        ap_next_sync_not_before := 0, ap_pc := Starting_sync (ap_pending_revision s) is_retry_attempt \<rparr>"

section \<open>The threads\<close>

inductive app_step :: "('v, 'rs) app_env \<Rightarrow> ('v, 'rs) app \<Rightarrow> ('v, 'rs) app \<Rightarrow> bool" for E where
  Time: "ap_now s \<le> now \<Longrightarrow> app_step E s (s\<lparr> ap_now := now \<rparr>)"
| Stop: "app_step E s (s\<lparr> ap_stop_requested := True \<rparr>)"
| Connected: "app_step E s (handle_ws_connected E (s\<lparr> ap_ws_connected := True \<rparr>))"
| Link_lost: "app_step E s (s\<lparr> ap_ws_connected := False \<rparr>)"
| Disconnected: "(\<forall>v b c. ap_pc s \<noteq> Fetching v b c) \<Longrightarrow> handle_ws_disconnected E s = (r, t) \<Longrightarrow> app_step E s t"
| Changed: "app_step E s (handle_snapshot_changed message s)"
| Ws_error: "app_step E s (handle_ws_error text s)"
| Registration: "app_step E s (handle_registration_event status s)"
| Sender_event: "app_step E s (handle_sender_event E sender s)"
| Receiver_event: "app_step E s (handle_receiver_event E receiver s)"
| Wake: "ap_pc s = Waiting \<Longrightarrow> \<not> ap_stop_requested s \<Longrightarrow> ap_sync_pending s \<Longrightarrow>
    app_step E s (s\<lparr> ap_pc := Debouncing (ap_last_signal_time s + ae_snapshot_debounce_ms E) \<rparr>)"
| Debounce_again: "ap_pc s = Debouncing deadline \<Longrightarrow> deadline < ap_last_signal_time s \<Longrightarrow>
    app_step E s (s\<lparr> ap_pc := Waiting \<rparr>)"
| Debounced: "ap_pc s = Debouncing deadline \<Longrightarrow> \<not> ap_stop_requested s \<Longrightarrow> deadline \<le> ap_now s \<Longrightarrow>
    ap_last_signal_time s \<le> deadline \<Longrightarrow>
    ap_next_sync_not_before s = 0 \<or> ap_next_sync_not_before s \<le> ap_now s \<Longrightarrow>
    app_step E s (take_request (ap_next_sync_not_before s \<noteq> 0) s)"
| Delay: "ap_pc s = Debouncing deadline \<Longrightarrow> \<not> ap_stop_requested s \<Longrightarrow> deadline \<le> ap_now s \<Longrightarrow>
    ap_last_signal_time s \<le> deadline \<Longrightarrow>
    ap_next_sync_not_before s \<noteq> 0 \<Longrightarrow> ap_now s < ap_next_sync_not_before s \<Longrightarrow>
    app_step E s (s\<lparr> ap_pc := Delaying \<rparr>)"
| Delay_cancelled: "ap_pc s = Delaying \<Longrightarrow> ap_next_sync_not_before s = 0 \<Longrightarrow>
    app_step E s (s\<lparr> ap_pc := Waiting \<rparr>)"
| Delay_over: "ap_pc s = Delaying \<Longrightarrow> \<not> ap_stop_requested s \<Longrightarrow> ap_next_sync_not_before s \<noteq> 0 \<Longrightarrow>
    ap_next_sync_not_before s \<le> ap_now s \<Longrightarrow> app_step E s (take_request True s)"
| Leave: "ap_stop_requested s \<Longrightarrow> ap_pc s \<in> {Waiting, Debouncing deadline, Delaying} \<Longrightarrow>
    app_step E s (s\<lparr> ap_pc := Finished \<rparr>)"
| Sync_skipped: "ap_pc s = Starting_sync revision retry \<Longrightarrow> ap_stop_requested s \<Longrightarrow>
    app_step E s (s\<lparr> ap_pc := Waiting \<rparr>)"
| Sync_begin: "ap_pc s = Starting_sync revision retry \<Longrightarrow> \<not> ap_stop_requested s \<Longrightarrow>
    app_step E s ((on_store (set_daemon_state ''resyncing'') s)
      \<lparr> ap_pc := Fetching revision retry (ss_last_snapshot (ap_store s)) \<rparr>)"
| Sync_end: "ap_pc s = Fetching revision retry current_snapshot \<Longrightarrow>
    app_step E s ((perform_sync_rest E revision current_snapshot fetched s)\<lparr> ap_pc := Waiting \<rparr>)"

text \<open>
  Whether a synchronisation with a revision not below \<open>r\<close> is due: it is pending, or the sync thread is
  at it. \<open>waiting_step\<close> is a step that neither follows a stop request nor reports \<open>r\<close> as applied,
  \<open>clean_step\<close> one that is not the end of a failing synchronisation.
\<close>

definition owes :: "int64 \<Rightarrow> ('v, 'rs) app \<Rightarrow> bool" where
  "owes r s \<longleftrightarrow> ap_sync_pending s \<and> r \<le>s ap_pending_revision s \<or>
     (case ap_pc s of Starting_sync v b \<Rightarrow> r \<le>s v | Fetching v b c \<Rightarrow> r \<le>s v | _ \<Rightarrow> False)"

definition waiting_step :: "('v, 'rs) app_env \<Rightarrow> int64 \<Rightarrow> ('v, 'rs) app \<Rightarrow> ('v, 'rs) app \<Rightarrow> bool" where
  "waiting_step E r s t \<longleftrightarrow> app_step E s t \<and> \<not> ap_stop_requested s \<and>
     \<not> r \<le>s st_last_applied_revision (ss_status (ap_store t))"

definition clean_step :: "('v, 'rs) app_env \<Rightarrow> ('v, 'rs) app \<Rightarrow> ('v, 'rs) app \<Rightarrow> bool" where
  "clean_step E s t \<longleftrightarrow> app_step E s t \<and>
     (\<forall>v b c. ap_pc s = Fetching v b c \<and> ap_pc t = Waiting \<longrightarrow>
        st_daemon_state (ss_status (ap_store t)) = ''running'')"

text \<open>The state in which \<open>run\<close> starts the sync thread and the WebSocket client.\<close>

definition app_started :: "('v, 'rs) node \<Rightarrow> int \<Rightarrow> ('v, 'rs) app" where
  "app_started n now =
     \<lparr> ap_stop_requested = False,
       ap_store = set_daemon_state ''connecting_ws'' (store_set_node_state ''running'' state_store_initial),
       ap_node = n, ap_ws_connected = False, ap_sent = [],
       ap_sync_pending = False, ap_force_sync_pending = False, ap_pending_revision = 0,
       ap_last_signal_time = 0, ap_next_sync_not_before = 0, ap_last_node_state = ''running'',
       ap_now = now, ap_pc = Waiting \<rparr>"

inductive app_reachable :: "('v, 'rs) app_env \<Rightarrow> ('v, 'rs) app \<Rightarrow> bool" for E where
  Started: "node_good (ae_nmos E) n \<Longrightarrow> node_stream n = held None \<Longrightarrow> app_reachable E (app_started n now)"
| Step: "app_reachable E s \<Longrightarrow> app_step E s t \<Longrightarrow> app_reachable E t"

inductive_cases app_stepE: "app_step E s t"

lemmas handler_defs = handle_ws_error_def handle_registration_event_def handle_sender_event_def
  handle_receiver_event_def handle_snapshot_changed_def handle_ws_connected_def schedule_sync_def
  on_store_def send_json_def app_set_node_state_def


section \<open>Lemmas\<close>

lemma perform_sync_rest_cases:
  obtains (fetch) e where "fetched = Inl e" "perform_sync_rest E v c fetched s = sync_failed E v e s"
  | (unapplied) sn e n where "fetched = Inr sn"
      "apply_snapshot (ae_json E) (ae_nmos E) (ae_transportfile E) (ae_order E) c sn (ap_node s) = (Inl e, n)"
      "perform_sync_rest E v c fetched s = sync_failed E v e (s\<lparr> ap_node := n \<rparr>)"
  | (applied) sn n where "fetched = Inr sn"
      "apply_snapshot (ae_json E) (ae_nmos E) (ae_transportfile E) (ae_order E) c sn (ap_node s) = (Inr (), n)"
      "perform_sync_rest E v c fetched s = s\<lparr> ap_node := n, ap_store := set_daemon_state ''running''
          (mark_apply_success v sn (has_any_streams sn) (ap_store s)) \<rparr>"
proof (cases fetched)
  case (Inl e)
  then show ?thesis by (intro fetch) (simp_all add: perform_sync_rest_def eff_simps)
next
  case (Inr sn)
  obtain r n where run: "apply_snapshot (ae_json E) (ae_nmos E) (ae_transportfile E) (ae_order E) c sn (ap_node s) = (r, n)"
    by (cases "apply_snapshot (ae_json E) (ae_nmos E) (ae_transportfile E) (ae_order E) c sn (ap_node s)")
  show ?thesis
  proof (cases r)
    case (Inl e)
    with Inr run show ?thesis
      by (intro unapplied [of sn e n]) (simp_all add: perform_sync_rest_def on_node_def eff_simps)
  next
    case r: (Inr x)
    with Inr run show ?thesis
      by (intro applied [of sn n]) (simp_all add: perform_sync_rest_def on_node_def on_store_def eff_simps)
  qed
qed

lemma sync_failed_fields [simp]:
  "ap_node (sync_failed E v e s) = ap_node s"
  "ap_store (sync_failed E v e s) = set_daemon_state ''degraded'' (mark_sync_failed e (ap_store s))"
  "ap_stop_requested (sync_failed E v e s) = ap_stop_requested s"
  "ap_sync_pending (sync_failed E v e s)"
  "ap_pending_revision (sync_failed E v e s) = (if ap_pending_revision s <s v then v else ap_pending_revision s)"
  "ap_last_signal_time (sync_failed E v e s) = ap_now s"
  "ap_next_sync_not_before (sync_failed E v e s) = ap_now s + ae_reconnect_interval_ms E"
  "ap_pc (sync_failed E v e s) = ap_pc s"
  "ap_sent (sync_failed E v e s) = ap_sent s @ (if ap_ws_connected s then
     [make_sync_failed_message (ae_json E) \<lparr> fm_revision = v, fm_message = e \<rparr>] else [])"
  by (simp_all add: sync_failed_def on_store_def send_json_def Let_def)

lemma schedule_fields [simp]:
  "ap_node (schedule_sync v s) = ap_node s" "ap_store (schedule_sync v s) = ap_store s"
  "ap_pc (schedule_sync v s) = ap_pc s" "ap_stop_requested (schedule_sync v s) = ap_stop_requested s"
  "ap_sent (schedule_sync v s) = ap_sent s"
  "ap_sync_pending s \<Longrightarrow> ap_sync_pending (schedule_sync v s)"
  "ap_force_sync_pending s \<Longrightarrow> ap_sync_pending (schedule_sync v s)"
  by (simp_all add: schedule_sync_def Let_def)

lemma signed_le: "(a :: int64) \<le>s b \<longleftrightarrow> sint a \<le> sint b" "a <s b \<longleftrightarrow> sint a < sint b"
  by (simp_all add: word_sle_eq word_sless_alt)

lemma schedule_pending_mono: "sint (ap_pending_revision s) \<le> sint (ap_pending_revision (schedule_sync v s))"
  by (simp add: schedule_sync_def Let_def signed_le)

lemma connected_fields [simp]:
  "ap_node (handle_ws_connected E s) = ap_node s"
  "ap_pc (handle_ws_connected E s) = ap_pc s"
  "ap_stop_requested (handle_ws_connected E s) = ap_stop_requested s"
  "ap_sync_pending s \<Longrightarrow> ap_sync_pending (handle_ws_connected E s)"
  by (simp_all add: handle_ws_connected_def Let_def split_def on_store_def send_json_def)

lemma changed_fields [simp]:
  "ap_node (handle_snapshot_changed m s) = ap_node s"
  "ap_pc (handle_snapshot_changed m s) = ap_pc s"
  "ap_stop_requested (handle_snapshot_changed m s) = ap_stop_requested s"
  "ap_sync_pending (handle_snapshot_changed m s)"
  by (simp_all add: handle_snapshot_changed_def Let_def on_store_def)

lemma connected_store [simp]:
  "ss_last_snapshot (ap_store (handle_ws_connected E s)) = ss_last_snapshot (ap_store s)"
  "st_streams_registered (ss_status (ap_store (handle_ws_connected E s))) = st_streams_registered (ss_status (ap_store s))"
  "st_protection_mode (ss_status (ap_store (handle_ws_connected E s))) = st_protection_mode (ss_status (ap_store s))"
  "st_last_applied_revision (ss_status (ap_store (handle_ws_connected E s))) = st_last_applied_revision (ss_status (ap_store s))"
  by (simp_all add: handle_ws_connected_def Let_def split_def on_store_def send_json_def
      consume_pending_drain_notification_def set_daemon_state_def)

lemma changed_store [simp]:
  "ss_last_snapshot (ap_store (handle_snapshot_changed m s)) = ss_last_snapshot (ap_store s)"
  "st_streams_registered (ss_status (ap_store (handle_snapshot_changed m s))) = st_streams_registered (ss_status (ap_store s))"
  "st_protection_mode (ss_status (ap_store (handle_snapshot_changed m s))) = st_protection_mode (ss_status (ap_store s))"
  "st_last_applied_revision (ss_status (ap_store (handle_snapshot_changed m s))) = st_last_applied_revision (ss_status (ap_store s))"
  by (simp_all add: handle_snapshot_changed_def Let_def on_store_def mark_snapshot_signal_received_def
      set_last_seen_revision_def)

lemma store_parts [simp]:
  "ss_last_snapshot (set_daemon_state d st) = ss_last_snapshot st"
  "ss_last_snapshot (mark_sync_failed m st) = ss_last_snapshot st"
  "ss_last_snapshot (mark_snapshot_signal_received st) = ss_last_snapshot st"
  "ss_last_snapshot (set_last_seen_revision v st) = ss_last_snapshot st"
  "ss_last_snapshot (set_registry_status g st) = ss_last_snapshot st"
  "ss_last_snapshot (mark_apply_success v sn b st) = Some sn"
  "ss_last_snapshot (clear_last_snapshot st) = None"
  "st_streams_registered (ss_status (set_daemon_state d st)) = st_streams_registered (ss_status st)"
  "st_streams_registered (ss_status (mark_sync_failed m st)) = st_streams_registered (ss_status st)"
  "st_streams_registered (ss_status (mark_apply_success v sn b st)) = b"
  "st_protection_mode (ss_status (set_daemon_state d st)) = st_protection_mode (ss_status st)"
  "st_protection_mode (ss_status (mark_sync_failed m st)) = st_protection_mode (ss_status st)"
  "\<not> st_protection_mode (ss_status (mark_apply_success v sn b st))"
  "st_last_applied_revision (ss_status (set_daemon_state d st)) = st_last_applied_revision (ss_status st)"
  "st_last_applied_revision (ss_status (mark_apply_success v sn b st)) = v"
  "st_daemon_state (ss_status (set_daemon_state d st)) = d"
  by (simp_all add: store_defs)

lemma handle_ws_disconnected_effect:
  assumes "resource_store (ae_nmos E) ids" "node_good (ae_nmos E) (ap_node s)"
  shows "\<exists>n. handle_ws_disconnected E s = (Inr (), s\<lparr> ap_node := n, ap_store :=
      set_daemon_state ''degraded'' (clear_last_snapshot (mark_drained_due_to_ws_disconnect
        (set_daemon_state ''draining'' (ap_store s)))) \<rparr>) \<and>
    node_good (ae_nmos E) n \<and>
    node_stream n = (case ss_last_snapshot (ap_store s) of
       None \<Rightarrow> node_stream (ap_node s) | Some sn \<Rightarrow> drained sn (node_stream (ap_node s)))"
proof (cases "ss_last_snapshot (ap_store s)")
  case None
  then have "handle_ws_disconnected E s = (Inr (), s\<lparr> ap_node := ap_node s, ap_store :=
      set_daemon_state ''degraded'' (clear_last_snapshot (mark_drained_due_to_ws_disconnect
        (set_daemon_state ''draining'' (ap_store s)))) \<rparr>)"
    by (cases s) (simp add: handle_ws_disconnected_def on_node_def on_store_def drain_all_def eff_simps)
  with None assms(2) show ?thesis by (intro exI [of _ "ap_node s"]) simp
next
  case (Some sn)
  from resource_store.drain_all_effect [OF assms] obtain n where
    n: "drain_all (ae_json E) (ae_nmos E) (Some sn) (ap_node s) = (Inr (), n)" "node_good (ae_nmos E) n"
      "node_stream n = drained sn (node_stream (ap_node s))" by blast
  from Some n(1) have "handle_ws_disconnected E s = (Inr (), s\<lparr> ap_node := n, ap_store :=
      set_daemon_state ''degraded'' (clear_last_snapshot (mark_drained_due_to_ws_disconnect
        (set_daemon_state ''draining'' (ap_store s)))) \<rparr>)"
    by (simp add: handle_ws_disconnected_def on_node_def on_store_def eff_simps)
  with Some n(2,3) show ?thesis by (intro exI [of _ n]) simp
qed

lemma drained_own: "drained sn (snapshot_stream sn) = held None"
  by (simp add: drained_def fun_eq_iff)

text \<open>The invariant of the daemon, and that every step keeps it.\<close>

definition app_good :: "('v, 'rs) app_env \<Rightarrow> ('v, 'rs) app \<Rightarrow> bool" where
  "app_good E s \<longleftrightarrow>
     node_good (ae_nmos E) (ap_node s) \<and>
     (\<forall>v b c. ap_pc s = Fetching v b c \<longrightarrow> c = ss_last_snapshot (ap_store s)) \<and>
     ((\<exists>d. ap_pc s = Debouncing d) \<or> ap_pc s = Delaying \<longrightarrow> ap_sync_pending s) \<and>
     (ap_pc s = Finished \<longrightarrow> ap_stop_requested s) \<and>
     (st_streams_registered (ss_status (ap_store s)) \<longrightarrow>
        (\<exists>sn. ss_last_snapshot (ap_store s) = Some sn \<and> has_any_streams sn)) \<and>
     (st_protection_mode (ss_status (ap_store s)) \<longrightarrow> ss_last_snapshot (ap_store s) = None)"

lemma app_good_sync:
  assumes lib: "resource_store (ae_nmos E) ids" and ord: "iteration_order (ae_order E)" and s: "app_good E s"
    and pc: "ap_pc s = Fetching v b c"
  shows "app_good E ((perform_sync_rest E v c fetched s)\<lparr> ap_pc := Waiting \<rparr>)"
proof -
  note edits = resource_store.apply_snapshot_edits [OF lib ord]
  from s have n: "node_good (ae_nmos E) (ap_node s)" by (simp add: app_good_def)
  show ?thesis
  proof (cases rule: perform_sync_rest_cases [of fetched E v c s])
    case fetch
    with s show ?thesis by (simp add: app_good_def)
  next
    case (unapplied sn e n')
    with s editsD(1) [OF edits n unapplied(2)] show ?thesis by (simp add: app_good_def)
  next
    case (applied sn n')
    with s editsD(1) [OF edits n applied(2)] show ?thesis by (simp add: app_good_def)
  qed
qed

lemma app_good_step:
  assumes lib: "resource_store (ae_nmos E) ids" and ord: "iteration_order (ae_order E)" and s: "app_good E s"
    and step: "app_step E s t"
  shows "app_good E t"
  using step
proof cases
  case (Disconnected r)
  from s have "node_good (ae_nmos E) (ap_node s)" by (simp add: app_good_def)
  from handle_ws_disconnected_effect [OF lib this] Disconnected s show ?thesis
    by (auto simp: app_good_def store_defs)
next
  case (Sync_end v b c fetched)
  then show ?thesis using app_good_sync [OF lib ord s] by simp
next
  case Connected
  with s show ?thesis by (simp add: app_good_def connected_store)
next
  case (Changed message)
  with s show ?thesis by (simp add: app_good_def changed_store)
qed (use s in \<open>auto simp: app_good_def take_request_def handle_ws_error_def handle_registration_event_def
    handle_sender_event_def handle_receiver_event_def on_store_def send_json_def set_registry_status_def\<close>)

lemma app_good_started: "node_good (ae_nmos E) n \<Longrightarrow> app_good E (app_started n now)"
  by (simp add: app_good_def app_started_def store_defs state_store_initial_def)

section \<open>Requests that are due\<close>

lemma owes_schedule: "owes r s \<Longrightarrow> owes r (schedule_sync v s)"
  using schedule_pending_mono [of s v] by (auto simp: owes_def signed_le)

lemma owes_store [simp]: "owes r (on_store f s) = owes r s"
  by (simp add: owes_def on_store_def)

lemma owes_connected: "owes r s \<Longrightarrow> owes r (handle_ws_connected E (s\<lparr> ap_ws_connected := b \<rparr>))"
  unfolding handle_ws_connected_def Let_def split_def
  by (rule owes_schedule) (simp add: owes_def on_store_def send_json_def)

lemma owes_changed: "owes r s \<Longrightarrow> owes r (handle_snapshot_changed m s)"
  unfolding handle_snapshot_changed_def Let_def
  by (rule owes_schedule) (simp add: owes_def on_store_def)

lemma changed_owes: "owes (cm_revision m) (handle_snapshot_changed m s)"
  by (simp add: owes_def handle_snapshot_changed_def schedule_sync_def on_store_def Let_def signed_le)

lemma owes_sync_end:
  assumes "owes r s" "ap_pc s = Fetching v b c"
  shows "owes r ((perform_sync_rest E v c fetched s)\<lparr> ap_pc := Waiting \<rparr>) \<or>
    r \<le>s st_last_applied_revision (ss_status (ap_store (perform_sync_rest E v c fetched s)))"
proof (cases rule: perform_sync_rest_cases [of fetched E v c s])
  case (applied sn n)
  with assms show ?thesis by (auto simp: owes_def signed_le)
qed (use assms in \<open>auto simp: owes_def signed_le\<close>)

lemma owes_step:
  assumes "waiting_step E r s t" "owes r s"
  shows "owes r t"
proof -
  from assms(1) have step: "app_step E s t" and go: "\<not> ap_stop_requested s"
    and not: "\<not> r \<le>s st_last_applied_revision (ss_status (ap_store t))" by (simp_all add: waiting_step_def)
  from step show ?thesis
  proof cases
    case Connected
    with owes_connected [OF assms(2)] show ?thesis by simp
  next
    case (Changed message)
    with owes_changed [OF assms(2)] show ?thesis by simp
  next
    case (Disconnected q)
    then show ?thesis using assms(2)
      by (auto simp: handle_ws_disconnected_def on_node_def eff_simps owes_def on_store_def split: prod.splits sum.splits)
  next
    case (Sync_end v b c fetched)
    from owes_sync_end [OF assms(2) Sync_end(2), of E fetched] not Sync_end(1) show ?thesis by auto
  qed (use assms(2) go in \<open>auto simp: owes_def take_request_def handle_ws_error_def handle_registration_event_def
      handle_sender_event_def handle_receiver_event_def on_store_def send_json_def\<close>)
qed

section \<open>Node and last snapshot in step\<close>

definition in_step :: "('v, 'rs) app \<Rightarrow> bool" where
  "in_step s \<longleftrightarrow> node_stream (ap_node s) = held (ss_last_snapshot (ap_store s))"

lemma in_step_clean:
  assumes lib: "resource_store (ae_nmos E) ids" and ord: "iteration_order (ae_order E)"
    and good: "app_good E s" and s: "in_step s" and clean: "clean_step E s t"
  shows "in_step t"
proof -
  from clean have step: "app_step E s t"
    and running: "\<And>v b c. ap_pc s = Fetching v b c \<Longrightarrow> ap_pc t = Waiting \<Longrightarrow>
        st_daemon_state (ss_status (ap_store t)) = ''running''" by (simp_all add: clean_step_def)
  from good have n: "node_good (ae_nmos E) (ap_node s)" by (simp add: app_good_def)
  from step show ?thesis
  proof cases
    case (Disconnected r)
    from handle_ws_disconnected_effect [OF lib n] Disconnected s show ?thesis
      by (cases "ss_last_snapshot (ap_store s)") (auto simp: in_step_def fun_eq_iff drained_def)
  next
    case (Sync_end v b c fetched)
    from good Sync_end have c: "c = ss_last_snapshot (ap_store s)" by (simp add: app_good_def)
    show ?thesis
    proof (cases rule: perform_sync_rest_cases [of fetched E v c s])
      case (applied sn n')
      from editsD(4) [OF resource_store.apply_snapshot_edits [OF lib ord] n applied(2)] s c
      have "node_stream n' = snapshot_stream sn" by (simp add: in_step_def reconciled_def fun_eq_iff)
      with applied Sync_end show ?thesis by (simp add: in_step_def fun_eq_iff)
    qed (use Sync_end running in auto)
  qed (use s in \<open>auto simp: in_step_def take_request_def handle_ws_error_def handle_registration_event_def
      handle_sender_event_def handle_receiver_event_def on_store_def send_json_def fun_eq_iff\<close>)
qed

section \<open>Progress of the sync thread\<close>

text \<open>Whether the threads can go on so that the sync thread fetches a snapshot.\<close>

definition can_sync :: "('v, 'rs) app_env \<Rightarrow> ('v, 'rs) app \<Rightarrow> bool" where
  "can_sync E s \<longleftrightarrow> (\<exists>t v b c. (app_step E)\<^sup>*\<^sup>* s t \<and> ap_pc t = Fetching v b c)"

lemma can_sync_step: "app_step E s t \<Longrightarrow> can_sync E t \<Longrightarrow> can_sync E s"
  unfolding can_sync_def by (blast intro: converse_rtranclp_into_rtranclp)

lemma can_sync_now: "ap_pc s = Fetching v b c \<Longrightarrow> can_sync E s"
  unfolding can_sync_def by blast

lemma take_request_progress:
  assumes "\<not> ap_stop_requested s"
  shows "can_sync E (take_request retry s)"
proof -
  have "app_step E (take_request retry s) ((on_store (set_daemon_state ''resyncing'') (take_request retry s))
      \<lparr> ap_pc := Fetching (ap_pending_revision s) retry (ss_last_snapshot (ap_store (take_request retry s))) \<rparr>)"
    using assms by (intro Sync_begin) (simp_all add: take_request_def)
  then show ?thesis by (rule can_sync_step) (simp add: can_sync_now)
qed

text \<open>From \<open>Delaying\<close>: let the delay pass, or go back when a signal has cancelled it.\<close>

lemma waiting_progress:
  assumes "ap_pc s = Waiting" "\<not> ap_stop_requested s" "ap_sync_pending s" "0 \<le> ae_snapshot_debounce_ms E"
  shows "can_sync E s"
proof -
  let ?d = "ap_last_signal_time s + ae_snapshot_debounce_ms E"
  let ?now = "max (ap_now s) (max ?d (ap_next_sync_not_before s))"
  let ?u = "s\<lparr> ap_pc := Debouncing ?d \<rparr>"
  let ?w = "?u\<lparr> ap_now := ?now \<rparr>"
  have "app_step E s ?u" using assms by (intro Wake)
  moreover have "app_step E ?u ?w" by (intro Time) simp
  moreover have "app_step E ?w (take_request (ap_next_sync_not_before ?w \<noteq> 0) ?w)"
    using assms(2,4) by (intro Debounced [where deadline = ?d]) (auto simp: max_def)
  moreover have "\<not> ap_stop_requested ?w" using assms(2) by simp
  ultimately show ?thesis
    using take_request_progress [of ?w E "ap_next_sync_not_before ?w \<noteq> 0"]
    by (blast intro: can_sync_step)
qed

lemma pending_progress:
  assumes good: "app_good E s" and go: "\<not> ap_stop_requested s" and pending: "ap_sync_pending s"
    and debounce: "0 \<le> ae_snapshot_debounce_ms E"
  shows "can_sync E s"
proof -
  have retry: ?thesis if "app_step E s (s\<lparr> ap_pc := Waiting \<rparr>)"
    using waiting_progress [of "s\<lparr> ap_pc := Waiting \<rparr>" E] that go pending debounce
    by (auto intro: can_sync_step)
  show ?thesis
  proof (cases "ap_pc s")
    case Waiting
    then show ?thesis using waiting_progress go pending debounce by blast
  next
    case (Debouncing d)
    show ?thesis
    proof (cases "d < ap_last_signal_time s")
      case True
      then show ?thesis using retry Debounce_again [OF Debouncing] by blast
    next
      case False
      let ?w = "s\<lparr> ap_now := max (ap_now s) (max d (ap_next_sync_not_before s)) \<rparr>"
      have "app_step E s ?w" by (intro Time) simp
      moreover have "app_step E ?w (take_request (ap_next_sync_not_before ?w \<noteq> 0) ?w)"
        using Debouncing go False by (intro Debounced [where deadline = d]) (auto simp: max_def)
      moreover have "\<not> ap_stop_requested ?w" using go by simp
      ultimately show ?thesis
        using take_request_progress [of ?w E "ap_next_sync_not_before ?w \<noteq> 0"]
        by (blast intro: can_sync_step)
    qed
  next
    case Delaying
    show ?thesis
    proof (cases "ap_next_sync_not_before s = 0")
      case True
      then show ?thesis using retry Delay_cancelled [OF Delaying] by blast
    next
      case False
      let ?w = "s\<lparr> ap_now := max (ap_now s) (ap_next_sync_not_before s) \<rparr>"
      have "app_step E s ?w" by (intro Time) simp
      moreover have "app_step E ?w (take_request True ?w)"
        using Delaying go False by (intro Delay_over) (auto simp: max_def)
      moreover have "\<not> ap_stop_requested ?w" using go by simp
      ultimately show ?thesis
        using take_request_progress [of ?w E True] by (blast intro: can_sync_step)
    qed
  next
    case (Starting_sync v b)
    then have "app_step E s ((on_store (set_daemon_state ''resyncing'') s)
        \<lparr> ap_pc := Fetching v b (ss_last_snapshot (ap_store s)) \<rparr>)"
      using go by (intro Sync_begin)
    then show ?thesis by (rule can_sync_step) (simp add: can_sync_now)
  next
    case (Fetching v b c)
    then show ?thesis by (rule can_sync_now)
  next
    case Finished
    with good go show ?thesis by (simp add: app_good_def)
  qed
qed

section \<open>A concrete daemon\<close>

definition sample_env :: "(doc, doc resource list) app_env" where
  "sample_env =
     \<lparr> ae_json = doc_lib, ae_nmos = sample_lib, ae_transportfile = sample_transportfile, ae_order = (\<lambda>ks. ks),
       ae_snapshot_debounce_ms = 300, ae_reconnect_interval_ms = 1000 \<rparr>"

definition sample_app :: "(doc, doc resource list) app" where
  "sample_app = app_started sample_node 1000"

lemma sample_env_fields [simp]:
  "ae_json sample_env = doc_lib" "ae_nmos sample_env = sample_lib"
  "ae_transportfile sample_env = sample_transportfile" "ae_order sample_env = (\<lambda>ks. ks)"
  "ae_snapshot_debounce_ms sample_env = 300" "ae_reconnect_interval_ms sample_env = 1000"
  by (simp_all add: sample_env_def)

lemma sample_order: "iteration_order (ae_order sample_env)"
  by (simp add: iteration_order_def)

lemma sample_library: "resource_store (ae_nmos sample_env) (\<lambda>rs. set (map re_id rs))"
  using sample.resource_store_axioms by simp

lemma sample_app_good: "app_good sample_env sample_app"
  unfolding sample_app_def by (rule app_good_started) (simp add: sample_node_good)

lemma sample_app_in_step: "in_step sample_app"
  by (simp add: in_step_def sample_app_def app_started_def store_defs state_store_initial_def
      fun_eq_iff sample_node_stream)

lemma sample_app_reachable: "app_reachable sample_env sample_app"
  unfolding sample_app_def
  by (rule Started) (simp_all add: sample_node_good fun_eq_iff sample_node_stream)

text \<open>An empty snapshot changes nothing, whatever the node.\<close>

lemma apply_empty_snapshot: "apply_snapshot J L T (\<lambda>ks. ks) None snapshot_default s = (Inr (), s)"
  by (simp add: apply_snapshot_def ptp_equivalent_iff dv_list_equivalent reconcile_video_receivers_def
      reconcile_audio_receivers_def reconcile_ancillary_receivers_def reconcile_video_senders_def
      reconcile_audio_senders_def reconcile_ancillary_senders_def reconcile_list_def make_map_def
      snapshot_default_def eff_simps)

lemma failed_status:
  "ss_status (set_daemon_state ''degraded'' (mark_sync_failed e (set_daemon_state d st))) =
     (ss_status st)\<lparr> st_daemon_state := ''degraded'', st_last_sync_error := e \<rparr>"
  by (cases "ss_status st") (simp add: store_defs)

lemma drained_status:
  "ss_status (set_daemon_state ''degraded'' (clear_last_snapshot (mark_drained_due_to_ws_disconnect
      (set_daemon_state d st)))) =
     (ss_status st)\<lparr> st_daemon_state := ''degraded'', st_streams_registered := False, st_protection_mode := True \<rparr>"
  by (cases "ss_status st") (simp add: store_defs)

lemma applied_status:
  "ss_status (set_daemon_state ''running'' (mark_apply_success v sn b (set_daemon_state d st))) =
     (ss_status st)\<lparr> st_daemon_state := ''running'', st_last_applied_revision := v,
       st_last_seen_revision := v, st_last_sync_error := [], st_streams_registered := b,
       st_protection_mode := False, st_has_received_snapshot_changed := True \<rparr>"
  by (cases "ss_status st") (simp add: store_defs)

section \<open>Properties\<close>

text \<open>
  In every reachable state of the daemon, however its threads interleave, the node's caches are
  well formed, streams are reported as registered only when the last snapshot has some, protection mode
  means that no snapshot is in force, and the snapshot the sync thread reconciles against while it
  fetches the next one is still the one in force.
\<close>
theorem daemon_invariant:
  assumes "resource_store (ae_nmos E) ids" "iteration_order (ae_order E)" "app_reachable E s"
  shows "node_good (ae_nmos E) (ap_node s) \<and>
    (st_streams_registered (ss_status (ap_store s)) \<longrightarrow>
       (\<exists>sn. ss_last_snapshot (ap_store s) = Some sn \<and> has_any_streams sn)) \<and>
    (st_protection_mode (ss_status (ap_store s)) \<longrightarrow> ss_last_snapshot (ap_store s) = None) \<and>
    (\<forall>v b c. ap_pc s = Fetching v b c \<longrightarrow> c = ss_last_snapshot (ap_store s))"
proof -
  from assms(3) have "app_good E s"
    by induction (auto intro: app_good_started app_good_step [OF assms(1,2)])
  then show ?thesis by (simp add: app_good_def)
qed

theorem daemon_invariant_witness: "node_good sample_lib (ap_node sample_app)"
  using daemon_invariant [OF sample_library sample_order sample_app_reachable] by simp

text \<open>
  A change notification is never lost: from the moment it is handled, until a synchronisation with
  its revision or a later one has been applied or a stop is requested, such a synchronisation is
  pending or under way, whatever else happens in between: failures, disconnects, further signals.
\<close>
theorem notification_not_lost:
  assumes "(waiting_step E (cm_revision m))\<^sup>*\<^sup>* (handle_snapshot_changed m s) t"
  shows "owes (cm_revision m) t"
  using assms by induction (auto intro: changed_owes owes_step)

theorem notification_not_lost_witness:
  "owes 5 ((handle_snapshot_changed \<lparr> cm_revision = 5, cm_reason = [] \<rparr> sample_app)\<lparr> ap_ws_connected := False \<rparr>)"
proof -
  let ?m = "\<lparr> cm_revision = 5, cm_reason = [] \<rparr>"
  let ?s = "handle_snapshot_changed ?m sample_app"
  have "app_step sample_env ?s (?s\<lparr> ap_ws_connected := False \<rparr>)" by (rule Link_lost)
  moreover have "\<not> ap_stop_requested ?s" by (simp add: sample_app_def app_started_def)
  moreover have "\<not> 5 \<le>s st_last_applied_revision (ss_status (ap_store (?s\<lparr> ap_ws_connected := False \<rparr>)))"
    by (simp add: sample_app_def app_started_def state_store_initial_def store_defs signed_le)
  ultimately have "waiting_step sample_env 5 ?s (?s\<lparr> ap_ws_connected := False \<rparr>)"
    by (simp add: waiting_step_def)
  then show ?thesis using notification_not_lost [of sample_env ?m sample_app] by auto
qed





text \<open>
  C16. The two outcomes of \<open>perform_sync\<close>. Success: the snapshot is in force and the node reconciled to
  it, the revision reported as applied, protection mode left. Failure, at any point: the last
  snapshot stays in force, the error is reported and, with a connection, sent; the synchronisation is
  scheduled again with a revision not below this one and not before the reconnect interval is over.
\<close>
theorem perform_sync_outcome:
  assumes "resource_store (ae_nmos E) ids" "iteration_order (ae_order E)"
    and "node_good (ae_nmos E) (ap_node s)" "\<not> ap_stop_requested s"
  shows "let t = perform_sync E v fetched s; old = ss_status (ap_store s) in
    (\<exists>sn. fetched = Inr sn \<and> ss_last_snapshot (ap_store t) = Some sn \<and>
       node_stream (ap_node t) = reconciled (held (ss_last_snapshot (ap_store s))) (snapshot_stream sn) (node_stream (ap_node s)) \<and>
       ss_status (ap_store t) = old\<lparr> st_daemon_state := ''running'', st_last_applied_revision := v,
         st_last_seen_revision := v, st_last_sync_error := [], st_streams_registered := has_any_streams sn,
         st_protection_mode := False, st_has_received_snapshot_changed := True \<rparr> \<and>
       ap_sent t = ap_sent s \<and> ap_sync_pending t = ap_sync_pending s) \<or>
    (\<exists>error. ss_last_snapshot (ap_store t) = ss_last_snapshot (ap_store s) \<and>
       ss_status (ap_store t) = old\<lparr> st_daemon_state := ''degraded'', st_last_sync_error := error \<rparr> \<and>
       ap_sent t = ap_sent s @ (if ap_ws_connected s then
         [make_sync_failed_message (ae_json E) \<lparr> fm_revision = v, fm_message = error \<rparr>] else []) \<and>
       ap_sync_pending t \<and> v \<le>s ap_pending_revision t \<and>
       ap_next_sync_not_before t = ap_now s + ae_reconnect_interval_ms E)"
proof -
  let ?s = "on_store (set_daemon_state ''resyncing'') s"
  have t: "perform_sync E v fetched s =
      perform_sync_rest E v (ss_last_snapshot (ap_store s)) fetched ?s"
    using assms(4) by (simp add: perform_sync_def Let_def on_store_def)
  show ?thesis
  proof (cases rule: perform_sync_rest_cases [of fetched E v "ss_last_snapshot (ap_store s)" ?s])
    case (fetch e)
    then show ?thesis unfolding t Let_def
      by (intro disjI2 exI [of _ e]) (simp add: on_store_def failed_status signed_le)
  next
    case (unapplied sn e n)
    then show ?thesis unfolding t Let_def
      by (intro disjI2 exI [of _ e]) (simp add: on_store_def failed_status signed_le)
  next
    case (applied sn n)
    then have run: "apply_snapshot (ae_json E) (ae_nmos E) (ae_transportfile E) (ae_order E)
        (ss_last_snapshot (ap_store s)) sn (ap_node s) = (Inr (), n)" by (simp add: on_store_def)
    from editsD(4) [OF resource_store.apply_snapshot_edits [OF assms(1,2)] assms(3) run]
    have "node_stream n = reconciled (held (ss_last_snapshot (ap_store s))) (snapshot_stream sn) (node_stream (ap_node s))"
      by (simp add: fun_eq_iff)
    with applied show ?thesis unfolding t Let_def
      by (intro disjI1 exI [of _ sn]) (simp add: on_store_def applied_status)
  qed
qed

theorem perform_sync_outcome_witness:
  "\<exists>error. st_last_sync_error (ss_status (ap_store (perform_sync sample_env 3 (Inl ''timeout'') sample_app))) = error \<and>
     ap_sync_pending (perform_sync sample_env 3 (Inl ''timeout'') sample_app)"
proof -
  have "node_good (ae_nmos sample_env) (ap_node sample_app)" "\<not> ap_stop_requested sample_app"
    by (simp_all add: sample_app_def app_started_def sample_node_good)
  from perform_sync_outcome [OF sample_library sample_order this, of 3 "Inl ''timeout''"]
  show ?thesis by (auto simp: Let_def)
qed

text \<open>
  C17. A disconnect always completes: the streams of the snapshot in force leave the node, the status
  turns to protection mode, and the next connect sends the drained message before anything else.
\<close>
theorem disconnect_drains_and_reports:
  assumes "resource_store (ae_nmos E) ids" "node_good (ae_nmos E) (ap_node s)"
  shows "\<exists>t. handle_ws_disconnected E s = (Inr (), t) \<and>
    node_stream (ap_node t) = (case ss_last_snapshot (ap_store s) of
       None \<Rightarrow> node_stream (ap_node s) | Some sn \<Rightarrow> drained sn (node_stream (ap_node s))) \<and>
    ss_last_snapshot (ap_store t) = None \<and>
    ss_status (ap_store t) = (ss_status (ap_store s))\<lparr> st_daemon_state := ''degraded'',
       st_streams_registered := False, st_protection_mode := True \<rparr> \<and>
    ap_sent (handle_ws_connected E (t\<lparr> ap_ws_connected := True \<rparr>)) =
       ap_sent s @ [make_streams_drained_message (ae_json E)]"
proof -
  from handle_ws_disconnected_effect [OF assms] obtain n where
    run: "handle_ws_disconnected E s = (Inr (), s\<lparr> ap_node := n, ap_store :=
      set_daemon_state ''degraded'' (clear_last_snapshot (mark_drained_due_to_ws_disconnect
        (set_daemon_state ''draining'' (ap_store s)))) \<rparr>)"
    and n: "node_stream n = (case ss_last_snapshot (ap_store s) of
       None \<Rightarrow> node_stream (ap_node s) | Some sn \<Rightarrow> drained sn (node_stream (ap_node s)))" by blast
  show ?thesis unfolding run
    by (intro exI conjI, rule refl)
      (simp_all add: n drained_status, simp add: store_defs handle_ws_connected_def on_store_def send_json_def Let_def)
qed

theorem disconnect_drains_and_reports_witness:
  "\<exists>t. handle_ws_disconnected sample_env sample_app = (Inr (), t) \<and>
     ap_sent (handle_ws_connected sample_env (t\<lparr> ap_ws_connected := True \<rparr>)) = [make_streams_drained_message doc_lib]"
proof -
  have "node_good (ae_nmos sample_env) (ap_node sample_app)"
    by (simp add: sample_app_def app_started_def sample_node_good)
  from disconnect_drains_and_reports [OF sample_library this] show ?thesis
    by (auto simp: sample_app_def app_started_def)
qed

text \<open>
  The reported last seen revision can go backwards: when a newer notification arrives while a
  snapshot is fetched, the end of that synchronisation overwrites it with the older revision.
\<close>
theorem last_seen_revision_goes_back:
  "\<exists>s t. app_reachable sample_env s \<and> app_step sample_env s t \<and>
     st_last_seen_revision (ss_status (ap_store t)) <s st_last_seen_revision (ss_status (ap_store s))"
proof -
  let ?m = "\<lambda>v. \<lparr> cm_revision = v, cm_reason = [] \<rparr>"
  let ?a = "handle_snapshot_changed (?m 5) sample_app"
  let ?b = "?a\<lparr> ap_pc := Debouncing (ap_last_signal_time ?a + 300) \<rparr>"
  let ?c = "?b\<lparr> ap_now := 2000 \<rparr>"
  let ?d = "take_request False ?c"
  let ?e = "(on_store (set_daemon_state ''resyncing'') ?d)\<lparr> ap_pc := Fetching 5 False None \<rparr>"
  let ?f = "handle_snapshot_changed (?m 7) ?e"
  let ?g = "(perform_sync_rest sample_env 5 None (Inr snapshot_default) ?f)\<lparr> ap_pc := Waiting \<rparr>"
  have a: "ap_pc ?a = Waiting" "\<not> ap_stop_requested ?a" "ap_sync_pending ?a" "ap_last_signal_time ?a = 1000"
    "ap_now ?a = 1000" "ap_next_sync_not_before ?a = 0" "ap_pending_revision ?a = 5"
    "ss_last_snapshot (ap_store ?a) = None"
    by (simp_all add: sample_app_def app_started_def handler_defs store_defs state_store_initial_def Let_def signed_le)
  have ra: "app_reachable sample_env ?a" by (rule Step [OF sample_app_reachable Changed])
  have rb: "app_reachable sample_env ?b"
    by (rule Step [OF ra]) (use Wake [of ?a sample_env] a in simp)
  have rc: "app_reachable sample_env ?c" by (rule Step [OF rb Time]) (use a in simp)
  have rd: "app_reachable sample_env ?d"
    by (rule Step [OF rc]) (use Debounced [of ?c 1300 sample_env] a in simp)
  have re: "app_reachable sample_env ?e"
    by (rule Step [OF rd]) (use Sync_begin [where s = ?d and revision = 5 and retry = False and E = sample_env] a in \<open>simp add: take_request_def\<close>)
  have "app_reachable sample_env ?f" by (rule Step [OF re Changed])
  moreover have "app_step sample_env ?f ?g" by (rule Sync_end [where retry = False]) simp
  moreover have "st_last_seen_revision (ss_status (ap_store ?f)) = 7"
    by (simp add: handle_snapshot_changed_def on_store_def store_defs Let_def)
  moreover have "st_last_seen_revision (ss_status (ap_store ?g)) = 5"
    by (simp add: perform_sync_rest_def on_node_def apply_empty_snapshot on_store_def store_defs eff_simps)
  ultimately show ?thesis by (intro exI [of _ ?f] exI [of _ ?g]) (simp add: signed_le)
qed

text \<open>
  \<open>schedule_sync\<close> drops a revision exactly when nothing forces a synchronisation, the revision is
  not newer than the applied one, and streams are registered outside protection mode; a change
  notification is therefore never dropped, not even an old one.
\<close>
theorem schedule_sync_drops:
  "(schedule_sync v s = s \<or> ap_sync_pending (schedule_sync v s)) \<and>
   (\<not> ap_sync_pending s \<longrightarrow>
     (ap_sync_pending (schedule_sync v s) \<longleftrightarrow>
        ap_force_sync_pending s \<or> st_last_applied_revision (ss_status (ap_store s)) <s v \<or>
        st_protection_mode (ss_status (ap_store s)) \<or> \<not> st_streams_registered (ss_status (ap_store s)))) \<and>
   ap_sync_pending (handle_snapshot_changed m s)"
  by (auto simp: schedule_sync_def Let_def signed_le)

theorem schedule_sync_drops_witness:
  "ap_sync_pending (schedule_sync 0 sample_app)"
proof -
  have "\<not> ap_sync_pending sample_app" "\<not> st_streams_registered (ss_status (ap_store sample_app))"
    by (simp_all add: sample_app_def app_started_def store_defs state_store_initial_def)
  with schedule_sync_drops [of 0 sample_app] show ?thesis by blast
qed

end
