(* ===== verification/Ws_Client.thy ===== *)
theory Ws_Client
  imports Dto_Json "HOL-Library.Sublist"
begin

text \<open>
  The WebSocket client of the daemon, \<open>daemon/ws_client.{h,cpp}\<close>: the receive worker \<open>run\<close> with its
  connection loop, the handlers of the library's client, the send worker, the heartbeat worker and
  \<open>stop\<close>. The threads interleave in \<open>ws_step\<close>; \<open>ws_pc\<close> is where the receive worker is. What the library
  does (whether connecting, closing or sending throws, when its handlers run) is a choice of the step.
  \<open>wc_calls\<close> lists the callbacks made so far, \<open>wc_wire\<close> what was handed to the library to be sent, and
  \<open>wc_accepted\<close> what \<open>queue_message\<close> has accepted. Times are in milliseconds.
\<close>

section \<open>State\<close>

datatype message_type = Text_message | Ping_message

record queued_message =
  qm_type :: message_type
  qm_payload :: string

datatype ws_call =
    On_connected
  | On_disconnected
  | On_snapshot_changed snapshot_changed_message
  | On_error string

text \<open>
  \<open>Opening\<close>: the library is connected, \<open>connected_\<close> not yet set; \<open>Announcing\<close>: \<open>on_connected\<close> runs;
  \<open>Leaving\<close>: after the \<open>try\<close> block, with whether \<open>on_connected\<close> has thrown; \<open>Pausing\<close>: the sleep before
  the next attempt.
\<close>

datatype ws_pc = Loop_head | Connecting | Opening | Announcing | Serving | Leaving bool | Pausing | Ended

record ws_client =
  wc_stop_requested :: bool
  wc_connected :: bool
  wc_client :: bool
  wc_last_activity :: int
  wc_send_queue :: "queued_message list"
  wc_pc :: ws_pc
  wc_now :: int
  wc_calls :: "ws_call list"
  wc_accepted :: "queued_message list"
  wc_wire :: "queued_message list"

definition default_heartbeat_interval_ms :: int32 where "default_heartbeat_interval_ms = 5000"
definition default_heartbeat_timeout_ms :: int32 where "default_heartbeat_timeout_ms = 15000"

definition normalize_interval :: "int32 \<Rightarrow> int32 \<Rightarrow> int32" where
  "normalize_interval value fallback = (if 0 <s value then value else fallback)"

record ws_config =
  wg_reconnect_interval_ms :: int32
  wg_heartbeat_interval_ms :: int32
  wg_heartbeat_timeout_ms :: int32

definition ws_config_new :: "int32 \<Rightarrow> int32 \<Rightarrow> int32 \<Rightarrow> ws_config" where
  "ws_config_new reconnect_interval_ms heartbeat_interval_ms heartbeat_timeout_ms =
     \<lparr> wg_reconnect_interval_ms = reconnect_interval_ms,
       wg_heartbeat_interval_ms = normalize_interval heartbeat_interval_ms default_heartbeat_interval_ms,
       wg_heartbeat_timeout_ms = normalize_interval heartbeat_timeout_ms default_heartbeat_timeout_ms \<rparr>"

section \<open>Operations\<close>

definition ws_call :: "ws_call \<Rightarrow> ws_client \<Rightarrow> ws_client" where
  "ws_call c s = s\<lparr> wc_calls := wc_calls s @ [c] \<rparr>"

definition report_error :: "string \<Rightarrow> ws_client \<Rightarrow> ws_client" where
  "report_error message = ws_call (On_error message)"

text \<open>\<open>outcome\<close> is the exception \<open>close\<close> throws, if any; the close itself is reported by the close handler.\<close>

definition close_active_client :: "exc option \<Rightarrow> ws_client \<Rightarrow> ws_client" where
  "close_active_client outcome s =
     (if \<not> wc_client s then s
      else case outcome of None \<Rightarrow> s | Some error \<Rightarrow> report_error error s)"

definition queue_message :: "queued_message \<Rightarrow> ws_client \<Rightarrow> bool \<times> ws_client" where
  "queue_message message s =
     (if \<not> wc_connected s then (False, s)
      else (True, s\<lparr> wc_send_queue := wc_send_queue s @ [message], wc_accepted := wc_accepted s @ [message] \<rparr>))"

text \<open>\<open>serialize\<close> writes a JSON value as text.\<close>

definition ws_send_json :: "('v \<Rightarrow> string) \<Rightarrow> 'v \<Rightarrow> ws_client \<Rightarrow> bool \<times> ws_client" where
  "ws_send_json serialize message =
     queue_message \<lparr> qm_type = Text_message, qm_payload = serialize message \<rparr>"

datatype incoming_type = Incoming_text | Incoming_pong | Incoming_other

text \<open>
  The message handler. \<open>contents\<close> is what reading the body gives, \<open>parse\<close> the JSON parser, \<open>handled\<close> the
  exception the callback throws, if any, \<open>closing\<close> the one that closing throws.
\<close>

definition message_handler ::
    "('v, 'x) json_lib_scheme \<Rightarrow> (string \<Rightarrow> exc + 'v) \<Rightarrow> incoming_type \<Rightarrow> exc + string \<Rightarrow>
     exc option \<Rightarrow> exc option \<Rightarrow> ws_client \<Rightarrow> ws_client" where
  "message_handler J parse ty contents handled closing s =
     (if wc_stop_requested s then s
      else
        let s1 = s\<lparr> wc_last_activity := wc_now s \<rparr> in
        if ty = Incoming_pong then s1
        else if ty \<noteq> Incoming_text then s1
        else
          (case contents of
             Inl error \<Rightarrow> close_active_client closing (report_error error s1)
           | Inr body \<Rightarrow>
               if body = [] then s1
               else (case rbind (parse body) (snapshot_changed_message_from_json J) of
                       Inl error \<Rightarrow> close_active_client closing (report_error error s1)
                     | Inr None \<Rightarrow> s1
                     | Inr (Some changed) \<Rightarrow>
                         let s2 = ws_call (On_snapshot_changed changed) s1 in
                         (case handled of
                            None \<Rightarrow> s2
                          | Some error \<Rightarrow> close_active_client closing (report_error error s2)))))"

text \<open>\<open>connected_.exchange(false)\<close> and what follows it in an iteration of \<open>run\<close>.\<close>

definition leave_connection :: "ws_client \<Rightarrow> ws_client" where
  "leave_connection s =
     (let was_connected = wc_connected s;
          s1 = s\<lparr> wc_connected := False, wc_client := False, wc_send_queue := [], wc_pc := Pausing \<rparr>
      in if was_connected then ws_call On_disconnected s1 else s1)"

text \<open>One pass of the heartbeat worker after its sleep.\<close>

definition heartbeat_check :: "ws_config \<Rightarrow> exc option \<Rightarrow> ws_client \<Rightarrow> ws_client" where
  "heartbeat_check G closing s =
     (if wc_stop_requested s \<or> \<not> wc_connected s then s
      else if sint (wg_heartbeat_timeout_ms G) < wc_now s - wc_last_activity s
      then close_active_client closing (report_error ''websocket heartbeat timeout'' s)
      else (case queue_message \<lparr> qm_type = Ping_message, qm_payload = ''nmos-sync-heartbeat'' \<rparr> s of
              (True, t) \<Rightarrow> t
            | (False, t) \<Rightarrow> close_active_client closing (report_error ''failed to queue websocket ping'' t)))"

text \<open>The sleep of the heartbeat worker: slices of at most 100 ms, left early on a stop request.\<close>

function heartbeat_sleeps :: "int \<Rightarrow> int list" where
  "heartbeat_sleeps remaining_sleep =
     (if 0 < remaining_sleep
      then let sleep_ms = min remaining_sleep 100 in sleep_ms # heartbeat_sleeps (remaining_sleep - sleep_ms)
      else [])"
  by pat_completeness auto
termination by (relation "measure nat") auto

declare heartbeat_sleeps.simps [simp del]

text \<open>One pass of the send worker; \<open>sent\<close> is the exception sending throws, if any.\<close>

definition send_pass :: "exc option \<Rightarrow> exc option \<Rightarrow> ws_client \<Rightarrow> ws_client" where
  "send_pass sent closing s =
     (case wc_send_queue s of
        [] \<Rightarrow> s
      | message # rest \<Rightarrow>
          if wc_stop_requested s then s
          else
            let s1 = s\<lparr> wc_send_queue := rest \<rparr> in
            if \<not> wc_client s1 \<or> \<not> wc_connected s1 then s1
            else (case sent of
                    None \<Rightarrow> s1\<lparr> wc_wire := wc_wire s1 @ [message] \<rparr>
                  | Some error \<Rightarrow> close_active_client closing (report_error error s1)))"

definition ws_stop :: "exc option \<Rightarrow> ws_client \<Rightarrow> ws_client" where
  "ws_stop closing s = close_active_client closing (s\<lparr> wc_stop_requested := True \<rparr>)"

section \<open>The threads\<close>

inductive ws_step ::
    "('v, 'x) json_lib_scheme \<Rightarrow> (string \<Rightarrow> exc + 'v) \<Rightarrow> ws_config \<Rightarrow> ws_client \<Rightarrow> ws_client \<Rightarrow> bool" for J parse G where
  Time: "wc_now s \<le> now \<Longrightarrow> ws_step J parse G s (s\<lparr> wc_now := now \<rparr>)"
| Stop: "ws_step J parse G s (ws_stop closing s)"
| Attempt: "wc_pc s = Loop_head \<Longrightarrow> \<not> wc_stop_requested s \<Longrightarrow> ws_step J parse G s (s\<lparr> wc_pc := Connecting \<rparr>)"
| End_loop: "wc_pc s = Loop_head \<Longrightarrow> wc_stop_requested s \<Longrightarrow> ws_step J parse G s (s\<lparr> wc_pc := Ended \<rparr>)"
| Connect_fails: "wc_pc s = Connecting \<Longrightarrow>
    ws_step J parse G s (report_error error (s\<lparr> wc_pc := Leaving False \<rparr>))"
| Connects: "wc_pc s = Connecting \<Longrightarrow>
    ws_step J parse G s (s\<lparr> wc_client := True, wc_last_activity := wc_now s, wc_pc := Opening \<rparr>)"
| Opens: "wc_pc s = Opening \<Longrightarrow>
    ws_step J parse G s (ws_call On_connected (s\<lparr> wc_connected := True, wc_pc := Announcing \<rparr>))"
| Announced: "wc_pc s = Announcing \<Longrightarrow> ws_step J parse G s (s\<lparr> wc_pc := Serving \<rparr>)"
| Announce_throws: "wc_pc s = Announcing \<Longrightarrow>
    ws_step J parse G s (report_error error (s\<lparr> wc_pc := Leaving True \<rparr>))"
| Serving_over: "wc_pc s = Serving \<Longrightarrow> wc_stop_requested s \<or> \<not> wc_connected s \<Longrightarrow>
    ws_step J parse G s (s\<lparr> wc_pc := Leaving False \<rparr>)"
| Leaves: "wc_pc s = Leaving threw \<Longrightarrow> ws_step J parse G s (leave_connection s)"
| Paused: "wc_pc s = Pausing \<Longrightarrow> ws_step J parse G s (s\<lparr> wc_pc := Loop_head \<rparr>)"
| Close_handler: "ws_step J parse G s (s\<lparr> wc_connected := False \<rparr>)"
| Message: "ws_step J parse G s (message_handler J parse ty contents handled closing s)"
| Heartbeat: "ws_step J parse G s (heartbeat_check G closing s)"
| Send_pass: "ws_step J parse G s (send_pass sent closing s)"
| Queue: "queue_message message s = (ok, t) \<Longrightarrow> ws_step J parse G s t"

definition ws_started :: "int \<Rightarrow> ws_client" where
  "ws_started now =
     \<lparr> wc_stop_requested = False, wc_connected = False, wc_client = False, wc_last_activity = now,
       wc_send_queue = [], wc_pc = Loop_head, wc_now = now, wc_calls = [], wc_accepted = [], wc_wire = [] \<rparr>"

inductive ws_reachable ::
    "('v, 'x) json_lib_scheme \<Rightarrow> (string \<Rightarrow> exc + 'v) \<Rightarrow> ws_config \<Rightarrow> ws_client \<Rightarrow> bool" for J parse G where
  Started: "ws_reachable J parse G (ws_started now)"
| Step: "ws_reachable J parse G s \<Longrightarrow> ws_step J parse G s t \<Longrightarrow> ws_reachable J parse G t"

text \<open>Runs in which no stop is requested and no call of \<open>on_connected\<close> throws.\<close>

definition ordinary_step ::
    "('v, 'x) json_lib_scheme \<Rightarrow> (string \<Rightarrow> exc + 'v) \<Rightarrow> ws_config \<Rightarrow> ws_client \<Rightarrow> ws_client \<Rightarrow> bool" where
  "ordinary_step J parse G s t \<longleftrightarrow> ws_step J parse G s t \<and> \<not> wc_stop_requested t \<and> wc_pc t \<noteq> Leaving True"

section \<open>Invariants\<close>

lemma close_fields [simp]:
  "wc_pc (close_active_client c s) = wc_pc s" "wc_connected (close_active_client c s) = wc_connected s"
  "wc_stop_requested (close_active_client c s) = wc_stop_requested s"
  "wc_send_queue (close_active_client c s) = wc_send_queue s"
  "wc_accepted (close_active_client c s) = wc_accepted s" "wc_wire (close_active_client c s) = wc_wire s"
  by (auto simp: close_active_client_def report_error_def ws_call_def split: option.split)

lemma report_fields [simp]:
  "wc_pc (report_error e s) = wc_pc s" "wc_connected (report_error e s) = wc_connected s"
  "wc_stop_requested (report_error e s) = wc_stop_requested s"
  "wc_send_queue (report_error e s) = wc_send_queue s"
  "wc_accepted (report_error e s) = wc_accepted s" "wc_wire (report_error e s) = wc_wire s"
  by (simp_all add: report_error_def ws_call_def)

lemma disconnect_calls [simp]:
  "On_disconnected \<in> set (wc_calls (report_error e s)) \<longleftrightarrow> On_disconnected \<in> set (wc_calls s)"
  "On_disconnected \<in> set (wc_calls (close_active_client c s)) \<longleftrightarrow> On_disconnected \<in> set (wc_calls s)"
  by (auto simp: close_active_client_def report_error_def ws_call_def split: option.split)

lemmas handler_cases = message_handler_def heartbeat_check_def send_pass_def queue_message_def ws_stop_def
  leave_connection_def ws_call_def Let_def

text \<open>
  What the program points mean: outside \<open>Announcing\<close>, \<open>Serving\<close> and \<open>Leaving\<close> nobody is connected, and the
  worker leaves a connection that is up only after an exception or a stop request.
\<close>

definition ws_good :: "ws_client \<Rightarrow> bool" where
  "ws_good s \<longleftrightarrow>
     (wc_pc s \<in> {Loop_head, Connecting, Opening, Pausing, Ended} \<longrightarrow> \<not> wc_connected s) \<and>
     (wc_pc s = Leaving False \<longrightarrow> \<not> wc_connected s \<or> wc_stop_requested s)"

lemma ws_good_step:
  assumes "ws_step J parse G s t" "ws_good s"
  shows "ws_good t"
  using assms(1)
proof cases
  case (Message ty contents handled closing)
  with assms(2) show ?thesis
    by (auto simp: ws_good_def handler_cases split: sum.split option.split)
next
  case (Heartbeat closing)
  with assms(2) show ?thesis by (auto simp: ws_good_def handler_cases)
next
  case (Send_pass sent closing)
  with assms(2) show ?thesis by (auto simp: ws_good_def handler_cases split: list.split option.split)
qed (use assms(2) in \<open>auto simp: ws_good_def handler_cases split: if_splits\<close>)

lemma ws_good_started: "ws_good (ws_started now)"
  by (simp add: ws_good_def ws_started_def)

text \<open>The wire carries what was accepted, in order.\<close>

definition ordered :: "ws_client \<Rightarrow> bool" where
  "ordered s \<longleftrightarrow> subseq (wc_wire s @ wc_send_queue s) (wc_accepted s)"

lemma subseq_drop_middle: "subseq (xs @ y # ys) zs \<Longrightarrow> subseq (xs @ ys) zs"
  by (rule subseq_order.trans [of _ "xs @ y # ys"]) (auto intro: list_emb_append_mono)

lemma subseq_accepted: "subseq (xs @ ys) zs \<Longrightarrow> subseq (xs @ ys @ [y]) (zs @ [y])"
  using list_emb_append_mono [of "(=)" "xs @ ys" zs "[y]" "[y]"] by simp

lemma ordered_step:
  assumes "ws_step J parse G s t" "ordered s"
  shows "ordered t"
  using assms(1)
proof cases
  case (Message ty contents handled closing)
  with assms(2) show ?thesis
    by (auto simp: ordered_def handler_cases split: sum.split option.split)
next
  case (Heartbeat closing)
  with assms(2) show ?thesis
    by (auto simp: ordered_def handler_cases subseq_accepted)
next
  case (Send_pass sent closing)
  with assms(2) show ?thesis
    by (auto simp: ordered_def handler_cases dest: subseq_drop_middle split: list.split option.split)
next
  case (Queue message ok)
  with assms(2) show ?thesis
    by (auto simp: ordered_def handler_cases subseq_accepted split: if_splits)
next
  case (Leaves threw)
  with assms(2) show ?thesis
    by (auto simp: ordered_def handler_cases intro: subseq_order.trans [of _ "wc_wire s @ wc_send_queue s"])
qed (use assms(2) in \<open>auto simp: ordered_def handler_cases\<close>)

lemma quiet_step:
  assumes "ws_step J parse G s t" "ws_good s" "\<not> wc_stop_requested s" "wc_pc s \<noteq> Leaving True"
    and "On_disconnected \<notin> set (wc_calls s)"
  shows "On_disconnected \<notin> set (wc_calls t)"
  using assms(1)
proof cases
  case (Message ty contents handled closing)
  with assms(5) show ?thesis by (auto simp: handler_cases split: sum.split option.split)
next
  case (Heartbeat closing)
  with assms(5) show ?thesis by (auto simp: handler_cases)
next
  case (Send_pass sent closing)
  with assms(5) show ?thesis by (auto simp: handler_cases split: list.split option.split)
next
  case (Leaves threw)
  with assms(2-5) show ?thesis by (cases threw) (auto simp: ws_good_def handler_cases)
qed (use assms(5) in \<open>auto simp: handler_cases split: if_splits\<close>)

lemma heartbeat_sleeps_sum: "sum_list (heartbeat_sleeps n) = max 0 n"
proof (induction n rule: heartbeat_sleeps.induct)
  case (1 n)
  then show ?case by (subst heartbeat_sleeps.simps) (auto simp: Let_def)
qed

lemma heartbeat_sleeps_slices: "x \<in> set (heartbeat_sleeps n) \<Longrightarrow> 0 < x \<and> x \<le> 100"
proof (induction n rule: heartbeat_sleeps.induct)
  case (1 n)
  then show ?case by (subst (asm) (2) heartbeat_sleeps.simps) (auto simp: Let_def split: if_splits)
qed

section \<open>Properties\<close>

text \<open>
  A lost connection is not reported: the close handler clears \<open>connected_\<close> before the receive
  worker reads it with \<open>exchange\<close>, so in any run without a stop request in which no call of
  \<open>on_connected\<close> throws, \<open>on_disconnected\<close> is never called, however often the connection is lost.
\<close>
theorem lost_connection_not_reported:
  assumes "(ordinary_step J parse G)\<^sup>*\<^sup>* (ws_started now) s"
  shows "On_disconnected \<notin> set (wc_calls s)"
proof -
  from assms have "ws_good s \<and> \<not> wc_stop_requested s \<and> wc_pc s \<noteq> Leaving True \<and> On_disconnected \<notin> set (wc_calls s)"
  proof induction
    case base
    show ?case by (simp add: ws_good_started, simp add: ws_started_def)
  next
    case (step t u)
    then have "ws_step J parse G t u" "\<not> wc_stop_requested u" "wc_pc u \<noteq> Leaving True"
      by (simp_all add: ordinary_step_def)
    with step.IH ws_good_step quiet_step show ?case by blast
  qed
  then show ?thesis by blast
qed

theorem lost_connection_not_reported_witness:
  "\<exists>s. (ordinary_step doc_lib (\<lambda>_. Inl ''syntax'') (ws_config_new 1000 0 0))\<^sup>*\<^sup>* (ws_started 0) s \<and>
     wc_calls s = [On_connected] \<and> \<not> wc_connected s \<and> wc_pc s = Pausing \<and> On_disconnected \<notin> set (wc_calls s)"
proof -
  let ?R = "ordinary_step doc_lib (\<lambda>_. Inl ''syntax'') (ws_config_new 1000 0 0)"
  let ?a = "(ws_started 0)\<lparr> wc_pc := Connecting \<rparr>"
  let ?b = "?a\<lparr> wc_client := True, wc_last_activity := wc_now ?a, wc_pc := Opening \<rparr>"
  let ?c = "ws_call On_connected (?b\<lparr> wc_connected := True, wc_pc := Announcing \<rparr>)"
  let ?d = "?c\<lparr> wc_pc := Serving \<rparr>"
  let ?e = "?d\<lparr> wc_connected := False \<rparr>"
  let ?f = "?e\<lparr> wc_pc := Leaving False \<rparr>"
  let ?g = "leave_connection ?f"
  have "?R (ws_started 0) ?a" using Attempt [of "ws_started 0"] by (simp add: ordinary_step_def ws_started_def)
  moreover have "?R ?a ?b" using Connects [of ?a] by (simp add: ordinary_step_def ws_started_def)
  moreover have "?R ?b ?c" using Opens [of ?b] by (simp add: ordinary_step_def ws_started_def ws_call_def)
  moreover have "?R ?c ?d" using Announced [of ?c] by (simp add: ordinary_step_def ws_started_def ws_call_def)
  moreover have "?R ?d ?e" using Close_handler [where s = ?d] by (simp add: ordinary_step_def ws_started_def ws_call_def)
  moreover have "?R ?e ?f" using Serving_over [of ?e] by (simp add: ordinary_step_def ws_started_def ws_call_def)
  moreover have "?R ?f ?g"
    using Leaves [of ?f False] by (simp add: ordinary_step_def ws_started_def ws_call_def leave_connection_def Let_def)
  ultimately have run: "?R\<^sup>*\<^sup>* (ws_started 0) ?g" by (meson rtranclp.rtrancl_into_rtrancl rtranclp.rtrancl_refl)
  moreover have "wc_calls ?g = [On_connected] \<and> \<not> wc_connected ?g \<and> wc_pc ?g = Pausing"
    by (simp add: leave_connection_def ws_call_def ws_started_def Let_def)
  ultimately show ?thesis using lost_connection_not_reported [OF run] by blast
qed

text \<open>
  Whatever the threads do, what is sent is a subsequence of what \<open>queue_message\<close> has accepted, in
  the same order and without repetition, and so is it followed by what is still queued.
\<close>
theorem messages_sent_in_order:
  assumes "ws_reachable J parse G s"
  shows "subseq (wc_wire s) (wc_accepted s) \<and> subseq (wc_wire s @ wc_send_queue s) (wc_accepted s)"
proof -
  from assms have "ordered s"
  proof induction
    case (Started now)
    show ?case by (simp add: ordered_def ws_started_def)
  next
    case (Step s t)
    then show ?case by (blast intro: ordered_step)
  qed
  then have o: "subseq (wc_wire s @ wc_send_queue s) (wc_accepted s)" by (simp add: ordered_def)
  moreover have "subseq (wc_wire s) (wc_wire s @ wc_send_queue s)"
    by (rule prefix_imp_subseq) simp
  ultimately show ?thesis by (blast intro: subseq_order.trans)
qed

theorem messages_sent_in_order_witness: "subseq (wc_wire (ws_started 0)) (wc_accepted (ws_started 0))"
  using messages_sent_in_order [OF Started [of doc_lib "\<lambda>_. Inl ''syntax''" "ws_config_new 1000 0 0" 0]] by blast

text \<open>
  Whatever the configuration file says, the heartbeat worker has positive intervals; between two
  checks it sleeps exactly the interval, in slices of at most 100 ms after which it sees a stop request.
\<close>
theorem heartbeat_interval_sliced:
  "0 < sint (wg_heartbeat_interval_ms (ws_config_new r i t)) \<and>
   0 < sint (wg_heartbeat_timeout_ms (ws_config_new r i t)) \<and>
   sum_list (heartbeat_sleeps (sint (wg_heartbeat_interval_ms (ws_config_new r i t))))
     = sint (wg_heartbeat_interval_ms (ws_config_new r i t)) \<and>
   list_all (\<lambda>x. 0 < x \<and> x \<le> 100) (heartbeat_sleeps (sint (wg_heartbeat_interval_ms (ws_config_new r i t))))"
proof -
  have "0 < sint (normalize_interval v f)" if "0 <s f" for v f
    using that by (simp add: normalize_interval_def word_sless_alt)
  moreover have "0 <s default_heartbeat_interval_ms" "0 <s default_heartbeat_timeout_ms"
    by (simp_all add: default_heartbeat_interval_ms_def default_heartbeat_timeout_ms_def word_sless_alt)
  ultimately show ?thesis
    by (simp add: ws_config_new_def heartbeat_sleeps_sum list_all_iff heartbeat_sleeps_slices)
qed

end
