(* ===== verification/Node_Lifecycle.thy ===== *)
theory Node_Lifecycle
  imports Reconcile_Engine
begin

text \<open>
  Starting and stopping the node (\<open>Node::Impl::start\<close>, \<open>stop\<close>, \<open>nmos_node_start\<close>, \<open>thread_run\<close>,
  \<open>init\<close>, \<open>init_device\<close> in \<open>node.cpp\<close>) and the settings file. A restart inserts the cached streams
  again; from the laws of \<open>stream_store\<close> it follows which streams the node holds afterwards.

  The functions are the sequential schedule: the worker thread runs until the node serves or has
  failed before \<open>start\<close> returns, the thread that initialises the model has finished by then, and
  \<open>stop\<close> is not called on the worker thread, so that it joins it. The settings text or file and the
  server of the library are arguments.
\<close>

section \<open>What the library gives\<close>

text \<open>
  \<open>no_seed_id\<close> reads a field of the settings, \<open>no_default_settings\<close> is \<open>insert_node_default_settings\<close>,
  \<open>no_host_interfaces\<close> the library's selection of the host's interfaces, \<open>no_node\<close> and \<open>no_device\<close>
  construct the two resources.
\<close>

record 'v node_lib =
  no_seed_id :: "'v \<Rightarrow> string"
  no_default_settings :: "'v \<Rightarrow> 'v"
  no_host_interfaces :: "'v \<Rightarrow> host_interface list"
  no_node_interfaces :: "host_interface list \<Rightarrow> 'v"
  no_node :: "string \<Rightarrow> 'v \<Rightarrow> 'v \<Rightarrow> 'v \<Rightarrow> 'v resource"
  no_device :: "string \<Rightarrow> string \<Rightarrow> 'v \<Rightarrow> 'v resource"

text \<open>The two constructors give the resource the identity they are passed.\<close>

locale node_store = resource_store L ids
  for L :: "('v, 'rs, 'x) nmos_lib_scheme" and ids :: "'rs \<Rightarrow> string set" +
  fixes N :: "'v node_lib"
  assumes node_id: "re_id (no_node N i c f v) = i"
    and device_id: "re_id (no_device N i j v) = i"

section \<open>Initialising the model\<close>

text \<open>\<open>node_tags\<close> and \<open>device_tags\<close> of \<open>node_implementation.h\<close>: a field of the settings, or an empty object.\<close>

definition tags_field :: "('v, 'x) json_lib_scheme \<Rightarrow> string \<Rightarrow> 'v \<Rightarrow> 'v" where
  "tags_field J name settings =
     (if jhas_field J settings name then (case jat J settings name of Inr v \<Rightarrow> v | Inl _ \<Rightarrow> jobject J)
      else jobject J)"

definition init_device ::
    "('v, 'x) json_lib_scheme \<Rightarrow> ('v, 'rs, 'y) nmos_lib_scheme \<Rightarrow> 'v node_lib \<Rightarrow> ('v, 'rs, unit) node_eff" where
  "init_device J L N =
     ebind (eget nd_settings) (\<lambda>settings.
     let seed_id = no_seed_id N settings;
         node_id = make_id L seed_id ''node'' [] [];
         device_id = make_id L seed_id ''device'' [] [];
         clocks = jarray_of J [nl_ptp_clock L ''00-00-00-00-00-00-00-00'' False];
         host_interfaces = no_host_interfaces N settings;
         node = no_node N node_id clocks (no_node_interfaces N host_interfaces) settings;
         device = no_device N device_id node_id settings
     in
     eseq (emod (\<lambda>s. s\<lparr> nd_node_id := node_id, nd_device_id := device_id, nd_seed_id := seed_id \<rparr>))
    (eseq (emod (\<lambda>s. s\<lparr> nd_runtime_interfaces :=
             (if nd_runtime_interfaces s = [] then host_interfaces else nd_runtime_interfaces s) \<rparr>))
    (ebind (insert_resource_after L Node_resources
              (node\<lparr> re_data := jset J (re_data node) ''tags'' (tags_field J ''node_tags'' settings) \<rparr>)) (\<lambda>ok1.
     if \<not> ok1 then ethrow ''insert node failed!''
     else ebind (insert_resource_after L Node_resources
              (device\<lparr> re_data := jset J (re_data device) ''tags'' (tags_field J ''device_tags'' settings) \<rparr>)) (\<lambda>ok2.
     if \<not> ok2 then ethrow ''insert device failed!''
     else eret ())))))"

definition init ::
    "('v, 'x) json_lib_scheme \<Rightarrow> ('v, 'rs, 'y) nmos_lib_scheme \<Rightarrow> 'v node_lib \<Rightarrow> ('v, 'rs) transportfile \<Rightarrow> ('v, 'rs, unit) node_eff" where
  "init J L N T = eseq (init_device J L N) (reinsert_cached_resources J L T)"

text \<open>Every exception of the initialisation is logged and dropped.\<close>

definition thread_run ::
    "('v, 'x) json_lib_scheme \<Rightarrow> ('v, 'rs, 'y) nmos_lib_scheme \<Rightarrow> 'v node_lib \<Rightarrow> ('v, 'rs) transportfile \<Rightarrow> ('v, 'rs) node \<Rightarrow> ('v, 'rs) node" where
  "thread_run J L N T s = snd (init J L N T s)"

section \<open>Start and stop\<close>

text \<open>
  \<open>parsed_text\<close> is the result of parsing the configured text itself, \<open>file_contents\<close> that of opening
  and parsing the file it names. The settings are assigned before they are checked.
\<close>

definition load_settings ::
    "os \<Rightarrow> ('v, 'x) json_lib_scheme \<Rightarrow> 'v node_lib \<Rightarrow> exc + 'v \<Rightarrow> exc + 'v \<Rightarrow> ('v, 'rs, unit) node_eff" where
  "load_settings O' J N parsed_text file_contents =
     eseq (case parsed_text of
             Inr v \<Rightarrow> emod (\<lambda>s. s\<lparr> nd_settings := v \<rparr>)
           | Inl _ \<Rightarrow>
               eseq (emod (\<lambda>s. s\<lparr> nd_settings := jnull J \<rparr>))
              (ebind (elift file_contents) (\<lambda>v.
               eseq (emod (\<lambda>s. s\<lparr> nd_settings := v \<rparr>))
                    (if jis_object J v then eret () else ethrow ''not an object''))))
    (ebind (eget nd_settings) (\<lambda>settings.
     ebind (elift (apply_interface_host_addresses O' J settings)) (\<lambda>settings1.
     emod (\<lambda>s. s\<lparr> nd_settings := no_default_settings N settings1 \<rparr>))))"

text \<open>
  The worker until it serves (result true) or has returned. \<open>server\<close> is the exception that making or
  opening the server of the library throws, if any. When it serves, the server's own thread has run
  \<open>thread_run\<close>.
\<close>

definition nmos_node_start ::
    "os \<Rightarrow> ('v, 'x) json_lib_scheme \<Rightarrow> ('v, 'rs, 'y) nmos_lib_scheme \<Rightarrow> 'v node_lib \<Rightarrow> ('v, 'rs) transportfile \<Rightarrow>
     exc + 'v \<Rightarrow> exc + 'v \<Rightarrow> exc option \<Rightarrow> ('v, 'rs) node \<Rightarrow> bool \<times> ('v, 'rs) node" where
  "nmos_node_start O' J L N T parsed_text file_contents server s =
     (let s1 = s\<lparr> nd_shutdown := False \<rparr> in
      if nd_config_file s1 = [] then (False, s1)
      else case load_settings O' J N parsed_text file_contents s1 of
             (Inl _, s2) \<Rightarrow> (False, s2)
           | (Inr _, s2) \<Rightarrow>
               (case server of
                  Some _ \<Rightarrow> (False, s2)
                | None \<Rightarrow>
                    let s3 = thread_run J L N T s2 in
                    (True, s3\<lparr> nd_lifecycle_state :=
                       (if nd_lifecycle_state s3 = Starting then Running else nd_lifecycle_state s3) \<rparr>)))"

definition node_start ::
    "os \<Rightarrow> ('v, 'x) json_lib_scheme \<Rightarrow> ('v, 'rs, 'y) nmos_lib_scheme \<Rightarrow> 'v node_lib \<Rightarrow> ('v, 'rs) transportfile \<Rightarrow>
     exc + 'v \<Rightarrow> exc + 'v \<Rightarrow> exc option \<Rightarrow> ('v, 'rs) node \<Rightarrow> bool \<times> ('v, 'rs) node" where
  "node_start O' J L N T parsed_text file_contents server s =
     (if nd_lifecycle_state s = Running then (True, s)
      else if nd_lifecycle_state s = Starting \<or> nd_lifecycle_state s = Stopping \<or> nd_thread_joinable s
      then (False, s)
      else
        (let s1 = s\<lparr> nd_stop_requested := False \<rparr>;
             s2 = (if nd_needs_model_reset s1
                   then (reset_model_state J L s1)\<lparr> nd_needs_model_reset := False \<rparr> else s1);
             s3 = s2\<lparr> nd_lifecycle_state := Starting, nd_thread_joinable := True \<rparr>
         in case nmos_node_start O' J L N T parsed_text file_contents server s3 of
              (True, s4) \<Rightarrow> (nd_lifecycle_state s4 = Running, s4)
            | (False, s4) \<Rightarrow> (False, s4\<lparr> nd_lifecycle_state := Stopped, nd_stop_requested := False \<rparr>)))"

definition node_stop :: "('v, 'rs) node \<Rightarrow> bool \<times> ('v, 'rs) node" where
  "node_stop s =
     (let s1 = (if nd_lifecycle_state s \<noteq> Stopped
                then s\<lparr> nd_lifecycle_state := Stopping, nd_stop_requested := True \<rparr> else s);
          s2 = s1\<lparr> nd_shutdown := True \<rparr>
      in (True, s2\<lparr> nd_thread_joinable := False, nd_lifecycle_state := Stopped, nd_stop_requested := False,
                   nd_needs_model_reset := True \<rparr>))"

section \<open>Re-inserting the cached streams\<close>

text \<open>What adding the streams of a table does to another one.\<close>

definition readded :: "stream_table \<Rightarrow> stream_table \<Rightarrow> stream_table" where
  "readded cached table k i = (case cached k i of None \<Rightarrow> table k i | Some x \<Rightarrow> Some x)"

lemma readded_local: "a k i = b k i \<Longrightarrow> readded c a k i = readded c b k i"
  by (simp add: readded_def split: option.split)

text \<open>The distinctness of the ids in the six caches, which does not depend on the seed.\<close>

definition caches_distinct :: "('v, 'rs) node \<Rightarrow> bool" where
  "caches_distinct s \<longleftrightarrow>
     distinct (map vs_id (nd_video_senders s)) \<and> distinct (map as_id (nd_audio_senders s)) \<and>
     distinct (map ns_id (nd_ancillary_senders s)) \<and> distinct (map vr_id (nd_video_receivers s)) \<and>
     distinct (map ar_id (nd_audio_receivers s)) \<and> distinct (map nr_id (nd_ancillary_receivers s))"

lemma node_good_distinct: "node_good L s \<Longrightarrow> caches_distinct s"
  by (simp add: node_good_def caches_distinct_def cache_good_def)

context stream_store
begin

lemma additions:
  assumes "distinct (map ident xs)" "good s" "eforeach add xs s = (r, t)"
  shows "good t \<and> frame t = frame s \<and>
    (\<forall>i. view t i = view s i \<or> (\<exists>x. List.find (\<lambda>x. ident x = i) xs = Some x \<and> view t i = Some (abs x))) \<and>
    (r = Inr () \<longrightarrow> (\<forall>i. view t i =
       (case List.find (\<lambda>x. ident x = i) xs of None \<Rightarrow> view s i | Some x \<Rightarrow> Some (abs x))))"
  using assms
proof (induction xs arbitrary: s)
  case Nil
  then show ?case by (simp add: eff_simps)
next
  case (Cons x xs)
  obtain q u where u: "add x s = (q, u)" by (cases "add x s")
  from add_law [OF Cons.prems(2) u] have gu: "good u" "frame u = frame s"
    "view u = (if q = Inr () then (view s)(ident x \<mapsto> abs x) else view s)" by blast+
  show ?case
  proof (cases q)
    case (Inl e)
    with u Cons.prems(3) have "r = Inl e" "t = u" by (simp_all add: eff_simps)
    with gu Inl show ?thesis by auto
  next
    case (Inr y)
    with u Cons.prems(3) have rest: "eforeach add xs u = (r, t)" by (simp add: eff_simps)
    from Cons.prems(1) have d: "distinct (map ident xs)"
      and new: "List.find (\<lambda>y. ident y = ident x) xs = None" by (simp_all add: find_None_all) (metis image_eqI)
    note ih = Cons.IH [OF d gu(1) rest]
    from gu(3) Inr have vu: "view u i = (if i = ident x then Some (abs x) else view s i)" for i by simp
    have pt: "view t i = view u i \<or> (\<exists>y. List.find (\<lambda>x. ident x = i) xs = Some y \<and> view t i = Some (abs y))" for i
      using ih by blast
    have "view t i = view s i \<or> (\<exists>y. List.find (\<lambda>x. ident x = i) (x # xs) = Some y \<and> view t i = Some (abs y))" for i
      using pt [of i] vu [of i] new by (cases "ident x = i") auto
    moreover have "view t i = (case List.find (\<lambda>x. ident x = i) (x # xs) of None \<Rightarrow> view s i | Some x \<Rightarrow> Some (abs x))"
      if "r = Inr ()" for i
      using ih that vu [of i] new by (cases "ident x = i") (auto split: option.split)
    ultimately show ?thesis using ih gu(2) by simp
  qed
qed

end

lemma readds_single:
  assumes adds: "\<And>s r t. node_good L s \<Longrightarrow> m s = (r, t) \<Longrightarrow> node_good L t \<and> frame t = frame s \<and>
      (\<forall>i. view t i = view s i \<or> (\<exists>x. List.find (\<lambda>x. ident x = i) xs = Some x \<and> view t i = Some (obs x))) \<and>
      (r = Inr () \<longrightarrow> (\<forall>i. view t i =
         (case List.find (\<lambda>x. ident x = i) xs of None \<Rightarrow> view s i | Some x \<Rightarrow> Some (obs x))))"
    and frame: "\<And>s t. frame t = frame s \<Longrightarrow>
      nd_seed_id t = nd_seed_id s \<and> (\<forall>k i. k \<noteq> K \<longrightarrow> node_stream t k i = node_stream s k i)"
    and stream: "\<And>s i. node_stream s K i = map_option C (view s i)"
    and cached: "\<And>i. node_stream c K i = map_option (\<lambda>x. C (obs x)) (List.find (\<lambda>x. ident x = i) xs)"
  shows "edits L (readded (node_stream c)) {K} m"
proof (rule edits_single)
  fix s r t
  assume "node_good L s" "m s = (r, t)"
  note a = adds [OF this]
  have "node_stream t K i = node_stream s K i \<or>
      node_stream t K i = readded (node_stream c) (node_stream s) K i" for i
  proof -
    from a have "view t i = view s i \<or> (\<exists>x. List.find (\<lambda>x. ident x = i) xs = Some x \<and> view t i = Some (obs x))"
      by blast
    then show ?thesis by (auto simp: readded_def stream cached)
  qed
  moreover have "node_stream t K i = readded (node_stream c) (node_stream s) K i" if "r = Inr ()" for i
    using a that by (auto simp: readded_def stream cached split: option.split)
  ultimately show "node_good L t \<and> nd_seed_id t = nd_seed_id s \<and>
     (\<forall>k i. k \<noteq> K \<longrightarrow> node_stream t k i = node_stream s k i) \<and>
     (\<forall>i. node_stream t K i = node_stream s K i \<or>
        node_stream t K i = readded (node_stream c) (node_stream s) K i) \<and>
     (r = Inr () \<longrightarrow> (\<forall>i. node_stream t K i = readded (node_stream c) (node_stream s) K i))"
    using a frame [of t s] by blast
qed

lemmas kind_views = vs_view_def as_view_def ns_view_def vr_view_def ar_view_def nr_view_def cached_view_def find_by_id_def

context resource_store
begin

lemma readds_video_senders:
  assumes "caches_distinct c"
  shows "edits L (readded (node_stream c)) {Video_sender} (eforeach (add_video_sender J L T) (nd_video_senders c))"
proof -
  from assms have "distinct (map vs_id (nd_video_senders c))" by (simp add: caches_distinct_def)
  from vs.additions [OF this] show ?thesis
  proof (rule readds_single)
    fix s t :: "('v, 'rs) node"
    assume f: "vs_frame t = vs_frame s"
    then have "node_stream t k i = node_stream s k i" if "k \<noteq> Video_sender" for k i
      using that by (cases k) (simp_all add: frame_defs)
    with f show "nd_seed_id t = nd_seed_id s \<and> (\<forall>k i. k \<noteq> Video_sender \<longrightarrow> node_stream t k i = node_stream s k i)"
      by (simp add: frame_defs)
  qed (simp_all add: kind_views option.map_comp o_def)
qed

lemma readds_audio_senders:
  assumes "caches_distinct c"
  shows "edits L (readded (node_stream c)) {Audio_sender} (eforeach (add_audio_sender J L T) (nd_audio_senders c))"
proof -
  from assms have "distinct (map as_id (nd_audio_senders c))" by (simp add: caches_distinct_def)
  from as.additions [OF this] show ?thesis
  proof (rule readds_single)
    fix s t :: "('v, 'rs) node"
    assume f: "as_frame t = as_frame s"
    then have "node_stream t k i = node_stream s k i" if "k \<noteq> Audio_sender" for k i
      using that by (cases k) (simp_all add: frame_defs)
    with f show "nd_seed_id t = nd_seed_id s \<and> (\<forall>k i. k \<noteq> Audio_sender \<longrightarrow> node_stream t k i = node_stream s k i)"
      by (simp add: frame_defs)
  qed (simp_all add: kind_views option.map_comp o_def)
qed

lemma readds_ancillary_senders:
  assumes "caches_distinct c"
  shows "edits L (readded (node_stream c)) {Ancillary_sender} (eforeach (add_ancillary_sender J L T) (nd_ancillary_senders c))"
proof -
  from assms have "distinct (map ns_id (nd_ancillary_senders c))" by (simp add: caches_distinct_def)
  from ns.additions [OF this] show ?thesis
  proof (rule readds_single)
    fix s t :: "('v, 'rs) node"
    assume f: "ns_frame t = ns_frame s"
    then have "node_stream t k i = node_stream s k i" if "k \<noteq> Ancillary_sender" for k i
      using that by (cases k) (simp_all add: frame_defs)
    with f show "nd_seed_id t = nd_seed_id s \<and> (\<forall>k i. k \<noteq> Ancillary_sender \<longrightarrow> node_stream t k i = node_stream s k i)"
      by (simp add: frame_defs)
  qed (simp_all add: kind_views option.map_comp o_def)
qed

lemma readds_video_receivers:
  assumes "caches_distinct c"
  shows "edits L (readded (node_stream c)) {Video_receiver} (eforeach (add_video_receiver J L) (nd_video_receivers c))"
proof -
  from assms have "distinct (map vr_id (nd_video_receivers c))" by (simp add: caches_distinct_def)
  from vr.additions [OF this] show ?thesis
  proof (rule readds_single)
    fix s t :: "('v, 'rs) node"
    assume f: "vr_frame t = vr_frame s"
    then have "node_stream t k i = node_stream s k i" if "k \<noteq> Video_receiver" for k i
      using that by (cases k) (simp_all add: frame_defs)
    with f show "nd_seed_id t = nd_seed_id s \<and> (\<forall>k i. k \<noteq> Video_receiver \<longrightarrow> node_stream t k i = node_stream s k i)"
      by (simp add: frame_defs)
  qed (simp_all add: kind_views option.map_comp o_def)
qed

lemma readds_audio_receivers:
  assumes "caches_distinct c"
  shows "edits L (readded (node_stream c)) {Audio_receiver} (eforeach (add_audio_receiver J L) (nd_audio_receivers c))"
proof -
  from assms have "distinct (map ar_id (nd_audio_receivers c))" by (simp add: caches_distinct_def)
  from ar.additions [OF this] show ?thesis
  proof (rule readds_single)
    fix s t :: "('v, 'rs) node"
    assume f: "ar_frame t = ar_frame s"
    then have "node_stream t k i = node_stream s k i" if "k \<noteq> Audio_receiver" for k i
      using that by (cases k) (simp_all add: frame_defs)
    with f show "nd_seed_id t = nd_seed_id s \<and> (\<forall>k i. k \<noteq> Audio_receiver \<longrightarrow> node_stream t k i = node_stream s k i)"
      by (simp add: frame_defs)
  qed (simp_all add: kind_views option.map_comp o_def)
qed

lemma readds_ancillary_receivers:
  assumes "caches_distinct c"
  shows "edits L (readded (node_stream c)) {Ancillary_receiver} (eforeach (add_ancillary_receiver J L) (nd_ancillary_receivers c))"
proof -
  from assms have "distinct (map nr_id (nd_ancillary_receivers c))" by (simp add: caches_distinct_def)
  from nr.additions [OF this] show ?thesis
  proof (rule readds_single)
    fix s t :: "('v, 'rs) node"
    assume f: "nr_frame t = nr_frame s"
    then have "node_stream t k i = node_stream s k i" if "k \<noteq> Ancillary_receiver" for k i
      using that by (cases k) (simp_all add: frame_defs)
    with f show "nd_seed_id t = nd_seed_id s \<and> (\<forall>k i. k \<noteq> Ancillary_receiver \<longrightarrow> node_stream t k i = node_stream s k i)"
      by (simp add: frame_defs)
  qed (simp_all add: kind_views option.map_comp o_def)
qed

lemma reinsert_effect:
  assumes "caches_distinct s" "reinsert_cached_resources J L T s = (r, t)"
  shows "node_good L t \<and>
    (\<forall>k i. node_stream t k i = None \<or> node_stream t k i = node_stream s k i) \<and>
    (r = Inr () \<longrightarrow> node_stream t = node_stream s)"
proof (cases "nd_video_senders s = [] \<and> nd_audio_senders s = [] \<and> nd_ancillary_senders s = [] \<and>
    nd_video_receivers s = [] \<and> nd_audio_receivers s = [] \<and> nd_ancillary_receivers s = []")
  case True
  with assms(2) have "t = s" by (simp add: reinsert_cached_resources_def eff_simps)
  with True show ?thesis by (simp add: node_good_def cache_good_def)
next
  case False
  let ?u = "s\<lparr> nd_video_senders := [], nd_audio_senders := [], nd_ancillary_senders := [],
              nd_video_receivers := [], nd_audio_receivers := [], nd_ancillary_receivers := [] \<rparr>"
  let ?m = "eseq (eforeach (add_video_sender J L T) (nd_video_senders s))
         (eseq (eforeach (add_audio_sender J L T) (nd_audio_senders s))
         (eseq (eforeach (add_ancillary_sender J L T) (nd_ancillary_senders s))
         (eseq (eforeach (add_video_receiver J L) (nd_video_receivers s))
         (eseq (eforeach (add_audio_receiver J L) (nd_audio_receivers s))
               (eforeach (add_ancillary_receiver J L) (nd_ancillary_receivers s))))))"
  have "edits L (readded (node_stream s)) ({Video_sender} \<union> ({Audio_sender} \<union> ({Ancillary_sender} \<union>
      ({Video_receiver} \<union> ({Audio_receiver} \<union> {Ancillary_receiver}))))) ?m"
    by (intro edits_eseq readds_video_senders readds_audio_senders readds_ancillary_senders
        readds_video_receivers readds_audio_receivers readds_ancillary_receivers assms(1) readded_local) auto
  moreover have "{Video_sender} \<union> ({Audio_sender} \<union> ({Ancillary_sender} \<union>
      ({Video_receiver} \<union> ({Audio_receiver} \<union> {Ancillary_receiver})))) = UNIV"
    using all_kinds by blast
  ultimately have e: "edits L (readded (node_stream s)) UNIV ?m" by simp
  have good: "node_good L ?u" by (simp add: node_good_def cache_good_def)
  have empty: "node_stream ?u k i = None" for k i
    by (cases k) (simp_all add: kind_views)
  from False assms(2) have "?m ?u = (r, t)" by (auto simp: reinsert_cached_resources_def eff_simps)
  note d = editsD [OF e, OF good, OF this]
  have readd: "readded (node_stream s) (node_stream ?u) k i = node_stream s k i" for k i
    using empty [of k i] by (simp add: readded_def split: option.split)
  have "node_stream t k i = None \<or> node_stream t k i = node_stream s k i" for k i
    using d(3) [of k i] empty [of k i] readd [of k i] by auto
  moreover have "node_stream t = node_stream s" if "r = Inr ()"
    using d(4) [OF that] readd by (intro ext) simp
  ultimately show ?thesis using d(1) by blast
qed

end

section \<open>The state of the node while it is initialised\<close>

text \<open>\<open>calm\<close> effects keep what only \<open>start\<close>, \<open>stop\<close> and the worker change, and the name of the file.\<close>

named_theorems calm_intros \<open>effects that keep the lifecycle state\<close>

definition lifecycle :: "('v, 'rs) node \<Rightarrow> lifecycle_state \<times> bool \<times> string \<times> bool \<times> bool \<times> bool" where
  "lifecycle s = (nd_lifecycle_state s, nd_shutdown s, nd_config_file s, nd_stop_requested s, nd_thread_joinable s,
     nd_needs_model_reset s)"

definition calm :: "('v, 'rs, 'a) node_eff \<Rightarrow> bool" where
  "calm m \<longleftrightarrow> (\<forall>s. lifecycle (snd (m s)) = lifecycle s)"

lemma calmD: "calm m \<Longrightarrow> m s = (r, t) \<Longrightarrow> lifecycle t = lifecycle s"
  unfolding calm_def by (metis snd_conv)

lemma lifecycle_set_resources [simp]: "lifecycle (set_resources c rs s) = lifecycle s"
  by (cases c) (simp_all add: lifecycle_def)

lemma calm_basic [calm_intros]:
  "calm (eret a)" "calm (ethrow e)" "calm (elift r)" "calm (eget f)"
  "calm (insert_resource_after L c x)" "calm (erase_resource_if_present L c i)" "calm (modify_resource L c i g)"
  by (simp_all add: calm_def eff_simps insert_resource_after_def erase_resource_if_present_def
      modify_resource_def split: prod.split)

lemma calm_ebind [calm_intros]:
  assumes "calm m" "\<And>a. calm (f a)"
  shows "calm (ebind m f)"
  unfolding calm_def
proof
  fix s
  obtain r t where m: "m s = (r, t)" by (cases "m s")
  with calmD [OF assms(1)] have "lifecycle t = lifecycle s" .
  with m assms(2) show "lifecycle (snd (ebind m f s)) = lifecycle s"
    by (cases r) (simp_all add: eff_simps calm_def)
qed

lemma calm_eseq [calm_intros]: "calm m \<Longrightarrow> calm n \<Longrightarrow> calm (eseq m n)"
  unfolding eseq_def by (rule calm_ebind)

lemma calm_if [calm_intros]: "calm m \<Longrightarrow> calm n \<Longrightarrow> calm (if b then m else n)"
  by simp

lemma calm_option_case [calm_intros]:
  "calm m \<Longrightarrow> (\<And>x. calm (f x)) \<Longrightarrow> calm (case o' of None \<Rightarrow> m | Some x \<Rightarrow> f x)"
  by (cases o') simp_all

lemma calm_pair_case [calm_intros]: "(\<And>x y. calm (f x y)) \<Longrightarrow> calm (case p of (x, y) \<Rightarrow> f x y)"
  by (cases p) simp

lemma calm_cached [calm_intros]: "calm m \<Longrightarrow> calm n \<Longrightarrow> calm (ewhen_cached found m n)"
  by (simp add: calm_def ewhen_cached_def)

lemma calm_emod [calm_intros]: "(\<And>s. lifecycle (f s) = lifecycle s) \<Longrightarrow> calm (emod f)"
  by (simp add: calm_def eff_simps)

lemma calm_eforeach [calm_intros]:
  assumes "\<And>x. calm (body x)"
  shows "calm (eforeach body xs)"
  unfolding calm_def
proof
  fix s
  show "lifecycle (snd (eforeach body xs s)) = lifecycle s"
    using eforeach_invariant [of xs "\<lambda>t. lifecycle t = lifecycle s" body s] assms
    by (simp add: calm_def)
qed

lemma calm_device [calm_intros]: "calm (update_device_senders J L)" "calm (update_device_receivers J L)"
  by (auto simp: update_device_senders_def update_device_receivers_def intro!: calm_intros split: prod.split)

lemma calm_bodies [calm_intros]:
  "calm (erase_sender_resources L x)" "calm (insert_sender_resources L t1 t2 t3 t4 x)"
  "calm (replace_sender_resources J L T d x b)" "calm (replace_receiver_resources J L d y b)"
  unfolding erase_sender_resources_def insert_sender_resources_def replace_sender_resources_def
    replace_receiver_resources_def replace_resource_def
  by (intro calm_intros)+

lemma calm_operations [calm_intros]:
  "(\<And>x. calm (e x)) \<Longrightarrow> (\<And>x. calm (n x)) \<Longrightarrow> (\<And>i s. lifecycle (c i s) = lifecycle s) \<Longrightarrow>
     calm (add_new_sender J L b e n c)"
  "(\<And>s. lifecycle (c' s) = lifecycle s) \<Longrightarrow> calm (update_existing_sender J L T d r b c')"
  "(\<And>s. lifecycle (c' s) = lifecycle s) \<Longrightarrow> calm (add_new_receiver J L b' t t' c')"
  "(\<And>s. lifecycle (c' s) = lifecycle s) \<Longrightarrow> calm (update_existing_receiver J L d r b' c')"
  unfolding add_new_sender_def update_existing_sender_def add_new_receiver_def update_existing_receiver_def
  by (intro calm_intros; simp add: lifecycle_def)+

lemma calm_additions [calm_intros]:
  "calm (add_video_sender J L T v)" "calm (add_audio_sender J L T a)" "calm (add_ancillary_sender J L T n)"
  "calm (add_video_receiver J L rv)" "calm (add_audio_receiver J L ra)" "calm (add_ancillary_receiver J L rn)"
  unfolding add_video_sender_def add_audio_sender_def add_ancillary_sender_def
    add_video_receiver_def add_audio_receiver_def add_ancillary_receiver_def
    add_new_video_sender_def add_new_audio_sender_def add_new_ancillary_sender_def
    add_new_video_receiver_def add_new_audio_receiver_def add_new_ancillary_receiver_def
    update_existing_video_sender_def update_existing_audio_sender_def update_existing_ancillary_sender_def
    update_existing_video_receiver_def update_existing_audio_receiver_def update_existing_ancillary_receiver_def
  by (intro calm_intros; simp add: lifecycle_def)+

lemma calm_rethrow [calm_intros]: "calm m \<Longrightarrow> calm (erethrow f m)"
  unfolding calm_def [of "erethrow f m"] by (auto simp: erethrow_apply split: prod.split sum.split dest: calmD)

lemma calm_remove [calm_intros]: "calm (remove_resource_after L c i)"
  by (simp add: calm_def remove_resource_after_def split: prod.split)

lemma calm_removals [calm_intros]:
  "calm (remove_video_sender J L i)" "calm (remove_audio_sender J L i)" "calm (remove_ancillary_sender J L i)"
  "calm (remove_video_receiver J L i)" "calm (remove_audio_receiver J L i)" "calm (remove_ancillary_receiver J L i)"
  unfolding remove_video_sender_def remove_audio_sender_def remove_ancillary_sender_def
    remove_video_receiver_def remove_audio_receiver_def remove_ancillary_receiver_def
    remove_existing_sender_def remove_existing_receiver_def uncache_defs
  by (intro calm_intros; simp add: lifecycle_def)+

lemma calm_updates [calm_intros]:
  "calm (update_video_sender J L T v)" "calm (update_audio_sender J L T a)" "calm (update_ancillary_sender J L T n)"
  "calm (update_video_receiver J L rv)" "calm (update_audio_receiver J L ra)" "calm (update_ancillary_receiver J L rn)"
  unfolding update_video_sender_def update_audio_sender_def update_ancillary_sender_def
    update_video_receiver_def update_audio_receiver_def update_ancillary_receiver_def
    update_existing_video_sender_def update_existing_audio_sender_def update_existing_ancillary_sender_def
    update_existing_video_receiver_def update_existing_audio_receiver_def update_existing_ancillary_receiver_def
    add_new_video_sender_def add_new_audio_sender_def add_new_ancillary_sender_def
    add_new_video_receiver_def add_new_audio_receiver_def add_new_ancillary_receiver_def
  by (intro calm_intros; simp add: lifecycle_def)+

lemma calm_clock [calm_intros]: "calm (set_ptp_clock J L T g b d)" "calm (set_runtime_interfaces J L T is)"
  unfolding set_ptp_clock_def set_runtime_interfaces_def refresh_transportfiles_def Let_def
  by (intro calm_intros; simp add: lifecycle_def)+

lemma calm_reconcile [calm_intros]:
  assumes "\<And>x. calm (remove x)" "\<And>x. calm (update x)" "\<And>x. calm (add x)"
  shows "calm (reconcile_list ord ident rtype current next' equivalent remove update add)"
  unfolding reconcile_list_def reconcile_current_def reconcile_next_def by (intro calm_intros assms)

lemma calm_apply: "calm (apply_snapshot J L T ord c sn)"
  unfolding apply_snapshot_def Let_def reconcile_video_receivers_def reconcile_audio_receivers_def
    reconcile_ancillary_receivers_def reconcile_video_senders_def reconcile_audio_senders_def
    reconcile_ancillary_senders_def runtime_set_ptp_clock_def set_runtime_devices_def runtime_defs
  by (intro calm_intros)

lemma calm_drain: "calm (drain_all J L c)"
  unfolding drain_all_def runtime_defs by (intro calm_intros)

lemma calm_init: "calm (init J L N T)"
  unfolding init_def init_device_def reinsert_cached_resources_def Let_def
  by (intro calm_intros; simp add: lifecycle_def)

lemma calm_sum_case [calm_intros]:
  "(\<And>e. calm (m e)) \<Longrightarrow> (\<And>v. calm (n v)) \<Longrightarrow> calm (case p of Inl e \<Rightarrow> m e | Inr v \<Rightarrow> n v)"
  by (cases p) simp_all

lemma calm_load: "calm (load_settings O' J N p f)"
  unfolding load_settings_def by (intro calm_intros; simp add: lifecycle_def)

section \<open>Restarting\<close>

text \<open>The state in which a restart reads the settings.\<close>

definition restart_input ::
    "('v, 'x) json_lib_scheme \<Rightarrow> ('v, 'rs, 'y) nmos_lib_scheme \<Rightarrow> ('v, 'rs) node \<Rightarrow> ('v, 'rs) node" where
  "restart_input J L s = (reset_model_state J L s)
     \<lparr> nd_stop_requested := False, nd_needs_model_reset := False, nd_lifecycle_state := Starting,
       nd_thread_joinable := True \<rparr>"

text \<open>The six caches.\<close>

definition caches ::
    "('v, 'rs) node \<Rightarrow> video_sender list \<times> audio_sender list \<times> ancillary_sender list \<times>
       video_receiver list \<times> audio_receiver list \<times> ancillary_receiver list" where
  "caches s = (nd_video_senders s, nd_audio_senders s, nd_ancillary_senders s,
     nd_video_receivers s, nd_audio_receivers s, nd_ancillary_receivers s)"

lemma caches_stream: "caches t = caches s \<Longrightarrow> node_stream t = node_stream s"
  by (intro ext) (rename_tac k i, case_tac k, simp_all add: caches_def kind_views)

lemma caches_core: "node_core s = (nd_seed_id s, caches s)"
  by (simp add: node_core_def caches_def)

lemma restart_input_fields [simp]:
  "caches (restart_input J L s) = caches s" "nd_seed_id (restart_input J L s) = nd_seed_id s"
  "nd_lifecycle_state (restart_input J L s) = Starting" "\<not> nd_shutdown (restart_input J L s)"
  "nd_node_resources (restart_input J L s) = nl_empty L" "nd_config_file (restart_input J L s) = nd_config_file s"
  by (simp_all add: restart_input_def reset_model_state_def caches_def)

lemma load_settings_result:
  assumes "load_settings O' J N p f s = (r, t)"
  obtains x where "t = s\<lparr> nd_settings := x \<rparr>"
proof -
  have "s = s\<lparr> nd_settings := nd_settings s \<rparr>" by simp
  with assms that show ?thesis
    by (cases p; cases f) (auto simp: load_settings_def eff_simps split: if_splits sum.splits)
qed

lemma start_after_stop:
  "node_start O' J L N T p f server (snd (node_stop s)) =
    (case nmos_node_start O' J L N T p f server (restart_input J L s) of
       (True, t) \<Rightarrow> (nd_lifecycle_state t = Running, t)
     | (False, t) \<Rightarrow> (False, t\<lparr> nd_lifecycle_state := Stopped, nd_stop_requested := False \<rparr>))"
proof -
  have "(reset_model_state J L ((snd (node_stop s))\<lparr> nd_stop_requested := False \<rparr>))
      \<lparr> nd_needs_model_reset := False, nd_lifecycle_state := Starting, nd_thread_joinable := True \<rparr> = restart_input J L s"
    by (cases s) (simp add: node_stop_def restart_input_def reset_model_state_def Let_def)
  then show ?thesis by (simp add: node_start_def node_stop_def Let_def)
qed

context node_store
begin

lemma insert_after:
  assumes "\<not> nd_shutdown s" "re_id r \<notin> ids (nd_node_resources s)"
  obtains rs where "insert_resource_after L Node_resources r s = (Inr True, s\<lparr> nd_node_resources := rs \<rparr>)"
    "ids rs = insert (re_id r) (ids (nd_node_resources s))"
  using insert_fresh [OF assms(2)] assms(1) by (auto simp: insert_resource_after_def)

text \<open>The node and the device have different ids, so both are inserted into an empty model.\<close>

lemma init_device_effect:
  assumes "nd_node_resources s = nl_empty L" "\<not> nd_shutdown s"
  shows "\<exists>t. init_device J L N s = (Inr (), t) \<and> caches t = caches s"
proof -
  let ?settings = "nd_settings s"
  let ?seed = "no_seed_id N ?settings"
  let ?node_id = "make_id L ?seed ''node'' [] []"
  let ?device_id = "make_id L ?seed ''device'' [] []"
  let ?hosts = "no_host_interfaces N ?settings"
  let ?node = "no_node N ?node_id (jarray_of J [nl_ptp_clock L ''00-00-00-00-00-00-00-00'' False])
      (no_node_interfaces N ?hosts) ?settings"
  let ?device = "no_device N ?device_id ?node_id ?settings"
  let ?r1 = "?node\<lparr> re_data := jset J (re_data ?node) ''tags'' (tags_field J ''node_tags'' ?settings) \<rparr>"
  let ?r2 = "?device\<lparr> re_data := jset J (re_data ?device) ''tags'' (tags_field J ''device_tags'' ?settings) \<rparr>"
  let ?a = "s\<lparr> nd_node_id := ?node_id, nd_device_id := ?device_id, nd_seed_id := ?seed \<rparr>"
  let ?u = "?a\<lparr> nd_runtime_interfaces :=
    (if nd_runtime_interfaces ?a = [] then ?hosts else nd_runtime_interfaces ?a) \<rparr>"
  obtain rs where rs: "insert_resource_after L Node_resources ?r1 ?u = (Inr True, ?u\<lparr> nd_node_resources := rs \<rparr>)"
    "ids rs = insert (re_id ?r1) (ids (nd_node_resources ?u))"
    by (rule insert_after [of ?u ?r1]) (use assms in \<open>simp_all add: ids_empty\<close>)
  let ?v = "?u\<lparr> nd_node_resources := rs \<rparr>"
  have "\<not> nd_shutdown ?v" "re_id ?r2 \<notin> ids (nd_node_resources ?v)"
    using rs(2) assms by (simp_all add: node_id device_id ids_empty make_id_def id_inj)
  from insert_after [OF this] obtain rs' where
    "insert_resource_after L Node_resources ?r2 ?v = (Inr True, ?v\<lparr> nd_node_resources := rs' \<rparr>)" .
  with rs(1) have "init_device J L N s = (Inr (), ?v\<lparr> nd_node_resources := rs' \<rparr>)"
    by (simp add: init_device_def eff_simps Let_def)
  moreover have "caches (?v\<lparr> nd_node_resources := rs' \<rparr>) = caches s" by (simp add: caches_def)
  ultimately show ?thesis by blast
qed

lemma caches_distinct_eq: "caches t = caches s \<Longrightarrow> caches_distinct t = caches_distinct s"
  by (simp add: caches_def caches_distinct_def)

lemma init_effect:
  assumes "nd_node_resources s = nl_empty L" "\<not> nd_shutdown s" "caches_distinct s" "init J L N T s = (r, t)"
  shows "node_good L t \<and> (\<forall>k i. node_stream t k i = None \<or> node_stream t k i = node_stream s k i) \<and>
    (r = Inr () \<longrightarrow> node_stream t = node_stream s)"
proof -
  from init_device_effect [OF assms(1,2)] obtain u where
    u: "init_device J L N s = (Inr (), u)" "caches u = caches s" by blast
  with assms(4) have "reinsert_cached_resources J L T u = (r, t)" by (simp add: init_def eff_simps)
  from reinsert_effect [OF _ this] caches_distinct_eq [OF u(2)] assms(3) caches_stream [OF u(2)]
  show ?thesis by simp
qed

text \<open>A start on an empty model, whatever its outcome.\<close>

lemma worker_effect:
  assumes i: "node_good L i" "nd_lifecycle_state i = Starting" "\<not> nd_shutdown i" "nd_node_resources i = nl_empty L"
    and run: "(case nmos_node_start O' J L N T p f server i of
       (True, t) \<Rightarrow> (nd_lifecycle_state t = Running, t)
     | (False, t) \<Rightarrow> (False, t\<lparr> nd_lifecycle_state := Stopped, nd_stop_requested := False \<rparr>)) = (ok, t)"
  shows "node_good L t \<and> nd_lifecycle_state t = (if ok then Running else Stopped) \<and>
    nd_config_file t = nd_config_file i \<and>
    (if ok then \<forall>k i'. node_stream t k i' = None \<or> node_stream t k i' = node_stream i k i'
     else node_stream t = node_stream i) \<and>
    (ok \<longrightarrow> fst (init J L N T (snd (load_settings O' J N p f i))) = Inr () \<longrightarrow> node_stream t = node_stream i)"
proof -
  have same: "i\<lparr> nd_shutdown := False \<rparr> = i" using i(3) by (cases i) simp
  have failed: ?thesis if "ok = False" "t = u\<lparr> nd_lifecycle_state := Stopped, nd_stop_requested := False \<rparr>"
    "caches u = caches i" "nd_seed_id u = nd_seed_id i" "nd_config_file u = nd_config_file i" for u
  proof -
    from that have c: "caches t = caches i" "nd_seed_id t = nd_seed_id i" by (simp_all add: caches_def)
    with caches_stream [OF c(1)] node_good_core [of t i L] i(1) that show ?thesis by (simp add: caches_core)
  qed
  obtain q u where u: "load_settings O' J N p f i = (q, u)" by (cases "load_settings O' J N p f i")
  then obtain x where x: "u = i\<lparr> nd_settings := x \<rparr>" by (rule load_settings_result)
  with i have cu: "caches u = caches i" "nd_seed_id u = nd_seed_id i" "\<not> nd_shutdown u"
    "nd_node_resources u = nl_empty L" "nd_lifecycle_state u = Starting" "nd_config_file u = nd_config_file i"
    by (simp_all add: caches_def)
  show ?thesis
  proof (cases "nd_config_file i \<noteq> [] \<and> q = Inr () \<and> server = None")
    case False
    have "nmos_node_start O' J L N T p f server i = (False, if nd_config_file i = [] then i else u)"
      using False u by (auto simp: nmos_node_start_def Let_def same split: option.split sum.split)
    with run have "ok = False"
      "t = (if nd_config_file i = [] then i else u)\<lparr> nd_lifecycle_state := Stopped, nd_stop_requested := False \<rparr>"
      by simp_all
    with failed [of "if nd_config_file i = [] then i else u"] cu show ?thesis by simp
  next
    case True
    obtain r v where v: "init J L N T u = (r, v)" by (cases "init J L N T u")
    have "lifecycle v = lifecycle u" by (rule calmD [OF calm_init v])
    with cu have life: "nd_lifecycle_state v = Starting" "nd_config_file v = nd_config_file i"
      by (simp_all add: lifecycle_def)
    have "caches_distinct u" using node_good_distinct [OF i(1)] caches_distinct_eq [OF cu(1)] by simp
    from init_effect [OF cu(4,3) this v] caches_stream [OF cu(1)]
    have e: "node_good L v" "\<And>k j. node_stream v k j = None \<or> node_stream v k j = node_stream i k j"
      "r = Inr () \<Longrightarrow> node_stream v = node_stream i" by auto
    have "nmos_node_start O' J L N T p f server i = (True, v\<lparr> nd_lifecycle_state := Running \<rparr>)"
      using True u v life(1) by (simp add: nmos_node_start_def thread_run_def Let_def same)
    with run have t: "ok" "t = v\<lparr> nd_lifecycle_state := Running \<rparr>" by simp_all
    then have c: "caches t = caches v" "nd_seed_id t = nd_seed_id v" by (simp_all add: caches_def)
    with caches_stream [OF c(1)] node_good_core [of t v L] e t u v life(2) show ?thesis by (simp add: caches_core)
  qed
qed

lemma start_effect:
  assumes s: "node_good L s" and run: "node_start O' J L N T p f server (snd (node_stop s)) = (ok, t)"
  shows "node_good L t \<and> nd_lifecycle_state t = (if ok then Running else Stopped) \<and>
    nd_config_file t = nd_config_file s \<and>
    (if ok then \<forall>k i. node_stream t k i = None \<or> node_stream t k i = node_stream s k i
     else node_stream t = node_stream s) \<and>
    (ok \<longrightarrow> fst (init J L N T (snd (load_settings O' J N p f (restart_input J L s)))) = Inr () \<longrightarrow>
       node_stream t = node_stream s)"
proof -
  let ?i = "restart_input J L s"
  have same: "node_stream ?i = node_stream s" by (rule caches_stream) simp
  have "node_good L ?i" using node_good_core [of ?i s L] s by (simp add: caches_core)
  from worker_effect [OF this restart_input_fields(3,4,5) run [unfolded start_after_stop]]
  show ?thesis unfolding restart_input_fields same .
qed

end

section \<open>A concrete start\<close>

definition sample_node_lib :: "doc node_lib" where
  "sample_node_lib =
     \<lparr> no_seed_id = (\<lambda>_. ''s''), no_default_settings = (\<lambda>v. v), no_host_interfaces = (\<lambda>_. []),
       no_node_interfaces = (\<lambda>_. DArr []), no_node = (\<lambda>i c f v. sample_resource ''node'' i),
       no_device = (\<lambda>i j v. sample_resource ''device'' i) \<rparr>"

interpretation sample_start: node_store sample_lib "\<lambda>rs. set (map re_id rs)" sample_node_lib
  by unfold_locales (simp_all add: sample_node_lib_def sample_resource_def)

definition sample_serving :: "(doc, doc resource list) node" where
  "sample_serving = sample_node
     \<lparr> nd_config_file := ''node.json'', nd_ancillary_receivers := [sample_ancillary_receiver ''a''] \<rparr>"

abbreviation sample_start where
  "sample_start \<equiv> node_start sample_os doc_lib sample_lib sample_node_lib sample_transportfile
     (Inr (DObj [])) (Inl ''no file'')"

lemma sample_serving_good: "node_good sample_lib sample_serving"
  by (simp add: node_good_def cache_good_def sample_serving_def sample_node_def)

lemma sample_serving_stream: "node_stream sample_serving = snapshot_stream (sample_snapshot [''a''])"
  by (intro ext, rename_tac k i, case_tac k)
    (simp_all add: kind_views sample_serving_def sample_node_def sample_snapshot_def snapshot_default_def)

lemma sample_start_runs: "fst (sample_start None (snd (node_stop sample_serving)))"
  by code_simp

lemma sample_init_runs:
  "fst (init doc_lib sample_lib sample_node_lib sample_transportfile (snd (load_settings sample_os doc_lib
     sample_node_lib (Inr (DObj [])) (Inl ''no file'') (restart_input doc_lib sample_lib sample_serving)))) = Inr ()"
  by code_simp

section \<open>Properties\<close>

text \<open>
  C23. Stopping and starting the node, whatever the configuration and the server do: a start that
  fails leaves the node stopped with all its streams; a start that succeeds leaves it running, no
  stream changed and none added. They are all kept when the initialisation of the model succeeds; the
  start reports success also when it does not, and streams can then be missing.
\<close>
theorem restart_keeps_streams:
  assumes "node_store L ids N" "node_good L s"
    and "node_start O' J L N T p f server (snd (node_stop s)) = (ok, t)"
  shows "node_good L t \<and> nd_lifecycle_state t = (if ok then Running else Stopped) \<and>
    nd_config_file t = nd_config_file s \<and>
    (if ok then \<forall>k i. node_stream t k i = None \<or> node_stream t k i = node_stream s k i
     else node_stream t = node_stream s) \<and>
    (ok \<longrightarrow> fst (init J L N T (snd (load_settings O' J N p f (restart_input J L s)))) = Inr () \<longrightarrow>
       node_stream t = node_stream s)"
  using node_store.start_effect [OF assms] by blast

theorem restart_keeps_streams_witness:
  "\<exists>t. sample_start None (snd (node_stop sample_serving)) = (True, t) \<and> nd_lifecycle_state t = Running \<and>
     node_stream t = snapshot_stream (sample_snapshot [''a''])"
proof -
  obtain ok t where t: "sample_start None (snd (node_stop sample_serving)) = (ok, t)" by fastforce
  with sample_start_runs have "ok" by simp
  with restart_keeps_streams [OF sample_start.node_store_axioms sample_serving_good t] sample_init_runs t
  show ?thesis by (simp add: sample_serving_stream)
qed

end
