(* ===== verification/Config_Json.thy ===== *)
theory Config_Json
  imports Node_Helpers
begin

text \<open>
  The configuration documents: \<open>DaemonConfig::load_from_file\<close> (\<open>daemon/config.cpp\<close>) and the functions
  of \<open>daemon/app.cpp\<close> that edit the settings of the node, \<open>merge_objects\<close>,
  \<open>apply_selected_registry_settings\<close> and \<open>selected_registry_summary\<close>. The parsers of JSON texts and of
  URIs belong to the library and are arguments.
\<close>

section \<open>The configuration of the daemon\<close>

definition require_string :: "('v, 'x) json_lib_scheme \<Rightarrow> 'v \<Rightarrow> string \<Rightarrow> exc + string" where
  "require_string J object name =
     (if \<not> jis_object J object \<or> \<not> jhas_field J object name
      then Inl (''missing required config field: '' @ name)
      else rbind (jat J object name) (\<lambda>v.
        if jis_null J v then Inl (''missing required config field: '' @ name) else jas_string J v))"

text \<open>
  The shape shared by \<open>get_int_or\<close> and \<open>get_string_or\<close> of \<open>config.cpp\<close> and the three accessors of
  \<open>app.cpp\<close>: an absent or null member gives the fallback, one of another type throws.
\<close>

definition field_or :: "('v, 'x) json_lib_scheme \<Rightarrow> ('v \<Rightarrow> exc + 'a) \<Rightarrow> 'v \<Rightarrow> string \<Rightarrow> 'a \<Rightarrow> exc + 'a" where
  "field_or J conv object name fallback =
     (if \<not> jis_object J object \<or> \<not> jhas_field J object name then Inr fallback
      else rbind (jat J object name) (\<lambda>v. if jis_null J v then Inr fallback else conv v))"

definition config_int_or :: "('v, 'x) json_lib_scheme \<Rightarrow> 'v \<Rightarrow> string \<Rightarrow> int32 \<Rightarrow> exc + int32" where
  "config_int_or J = field_or J (jas_integer J)"

definition config_string_or :: "('v, 'x) json_lib_scheme \<Rightarrow> 'v \<Rightarrow> string \<Rightarrow> string \<Rightarrow> exc + string" where
  "config_string_or J = field_or J (jas_string J)"

record daemon_config =
  dc_node_config_path :: string
  dc_snapshot_url :: string
  dc_ws_url :: string
  dc_pull_timeout_ms :: int32
  dc_reconnect_interval_ms :: int32
  dc_ws_heartbeat_interval_ms :: int32
  dc_ws_heartbeat_timeout_ms :: int32
  dc_snapshot_debounce_ms :: int32
  dc_debug_http_url :: string

text \<open>\<open>file\<close> is the content of the file, if it can be opened.\<close>

definition load_from_file ::
    "('v, 'x) json_lib_scheme \<Rightarrow> (string \<Rightarrow> exc + 'v) \<Rightarrow> string \<Rightarrow> string option \<Rightarrow> exc + daemon_config" where
  "load_from_file J parse file_path file =
     (case file of
        None \<Rightarrow> Inl (''failed to open daemon config file: '' @ file_path)
      | Some buffer \<Rightarrow>
          rbind (parse buffer) (\<lambda>json.
          rbind (require_string J json ''node_config_path'') (\<lambda>node_config_path.
          rbind (require_string J json ''snapshot_url'') (\<lambda>snapshot_url.
          rbind (require_string J json ''ws_url'') (\<lambda>ws_url.
          rbind (config_int_or J json ''pull_timeout_ms'' 3000) (\<lambda>pull_timeout_ms.
          rbind (config_int_or J json ''reconnect_interval_ms'' 1000) (\<lambda>reconnect_interval_ms.
          rbind (config_int_or J json ''ws_heartbeat_interval_ms'' 5000) (\<lambda>ws_heartbeat_interval_ms.
          rbind (config_int_or J json ''ws_heartbeat_timeout_ms'' 15000) (\<lambda>ws_heartbeat_timeout_ms.
          rbind (config_int_or J json ''snapshot_debounce_ms'' 300) (\<lambda>snapshot_debounce_ms.
          rbind (config_string_or J json ''debug_http_url'' (''http:/'' @ ''/127.0.0.1:8081'')) (\<lambda>debug_http_url.
          Inr \<lparr> dc_node_config_path = node_config_path, dc_snapshot_url = snapshot_url, dc_ws_url = ws_url,
                dc_pull_timeout_ms = pull_timeout_ms, dc_reconnect_interval_ms = reconnect_interval_ms,
                dc_ws_heartbeat_interval_ms = ws_heartbeat_interval_ms,
                dc_ws_heartbeat_timeout_ms = ws_heartbeat_timeout_ms,
                dc_snapshot_debounce_ms = snapshot_debounce_ms, dc_debug_http_url = debug_http_url \<rparr>)))))))))))"

section \<open>The settings of the node\<close>

definition get_string_or_empty :: "('v, 'x) json_lib_scheme \<Rightarrow> 'v \<Rightarrow> string \<Rightarrow> exc + string" where
  "get_string_or_empty J object name = field_or J (jas_string J) object name []"

definition get_int_or_default :: "('v, 'x) json_lib_scheme \<Rightarrow> 'v \<Rightarrow> string \<Rightarrow> int32 \<Rightarrow> exc + int32" where
  "get_int_or_default J = field_or J (jas_integer J)"

definition get_bool_or_default :: "('v, 'x) json_lib_scheme \<Rightarrow> 'v \<Rightarrow> string \<Rightarrow> bool \<Rightarrow> exc + bool" where
  "get_bool_or_default J = field_or J (jas_bool J)"

definition selected_registry_summary :: "('v, 'x) json_lib_scheme \<Rightarrow> 'v \<Rightarrow> exc + 'v" where
  "selected_registry_summary J settings =
     rbind (get_string_or_empty J settings ''selected_registry_uri'') (\<lambda>selected_registry_uri.
     rbind (get_bool_or_default J settings ''discovery_enabled'' True) (\<lambda>discovery_enabled.
     rbind (get_string_or_empty J settings ''registry_address'') (\<lambda>registry_address.
     rbind (get_int_or_default J settings ''registration_port'' 3210) (\<lambda>registration_port.
     rbind (get_string_or_empty J settings ''registry_version'') (\<lambda>registry_version.
     rbind (get_int_or_default J settings ''highest_pri'' 0) (\<lambda>highest_pri.
     rbind (get_int_or_default J settings ''lowest_pri'' 2147483647) (\<lambda>lowest_pri.
     Inr (jbuild J
       [(''selected_registry_uri'', jstring J selected_registry_uri),
        (''discovery_enabled'', jbool J discovery_enabled),
        (''registry_address'', jstring J registry_address),
        (''registration_port'', jint J registration_port),
        (''registry_version'', jstring J registry_version),
        (''highest_pri'', jint J highest_pri),
        (''lowest_pri'', jint J lowest_pri)]))))))))"

text \<open>\<open>parse_uri\<close> is the constructor of \<open>web::uri\<close>. The settings object is edited in place; an exception drops it.\<close>

definition apply_selected_registry_settings ::
    "('v, 'x) json_lib_scheme \<Rightarrow> (string \<Rightarrow> exc + uri) \<Rightarrow> 'v \<Rightarrow> exc + 'v" where
  "apply_selected_registry_settings J parse_uri settings =
     (if \<not> jis_object J settings then Inl ''node config payload must be a JSON object''
      else if \<not> jhas_field J settings ''selected_registry_uri'' then Inr settings
      else rbind (jat J settings ''selected_registry_uri'') (\<lambda>selected_registry_uri_value.
        if jis_null J selected_registry_uri_value then jerase J settings ''selected_registry_uri''
        else if \<not> jis_string J selected_registry_uri_value then Inl ''selected_registry_uri must be a string''
        else
          rbind (rbind (jas_string J selected_registry_uri_value) parse_uri) (\<lambda>selected_registry_uri.
          if ur_empty selected_registry_uri then Inl ''selected_registry_uri must not be empty''
          else
            let settings1 = jset J settings ''registry_address'' (jstring J (ur_host selected_registry_uri));
                settings2 = jset J settings1 ''registration_port'' (jint J (ur_port selected_registry_uri));
                path = ur_path selected_registry_uri;
                version = rev (takeWhile (\<lambda>c. c \<noteq> CHR ''/'') (rev path))
            in
            if CHR ''/'' \<notin> set path \<or> version = []
            then Inl ''selected_registry_uri must include /x-nmos/registration/{version}''
            else
              let settings3 = jset J settings2 ''registry_version'' (jstring J version) in
              rbind (get_bool_or_default J settings3 ''discovery_enabled'' False) (\<lambda>discovery_enabled.
              Inr (jset J (jset J settings3 ''highest_pri'' (jint J (if discovery_enabled then 0 else 2147483647)))
                     ''lowest_pri'' (jint J 2147483647))))))"

text \<open>
  \<open>merge_objects\<close> follows the depth of the patch; \<open>merge_field\<close> is the body of its loop. The first
  argument bounds the recursion: a bound above the size of the patch is never reached.
\<close>

definition merge_field ::
    "('v, 'x) json_lib_scheme \<Rightarrow> ('v \<Rightarrow> 'v \<Rightarrow> exc + 'v) \<Rightarrow> nat \<Rightarrow> string \<times> 'v \<Rightarrow> 'v \<Rightarrow> exc + 'v" where
  "merge_field J nested index field merged =
     (case field of (name, value) \<Rightarrow>
        if jis_null J value then jerase J merged name
        else if jhas_field J merged name
        then rbind (jat J merged name) (\<lambda>current.
               if jis_object J current \<and> jis_object J value
               then rbind (nested current value) (\<lambda>m. Inr (jset J merged name m))
               else Inr (jset J merged name value))
        else Inr (jset J merged name value))"

primrec merge_objects :: "nat \<Rightarrow> ('v, 'x) json_lib_scheme \<Rightarrow> 'v \<Rightarrow> 'v \<Rightarrow> exc + 'v" where
  "merge_objects 0 J base patch = Inl ''recursion bound''"
| "merge_objects (Suc n) J base patch =
     (if \<not> jis_object J base \<or> \<not> jis_object J patch then Inl ''node config patch must be a JSON object''
      else rbind (jfields J patch) (\<lambda>fields. rfold_index (merge_field J (merge_objects n J)) 0 fields base))"

section \<open>Documents are trees\<close>

text \<open>A member of a document is smaller than the document.\<close>

locale json_tree = json_api J for J :: "('v, 'x) json_lib_scheme" +
  fixes sz :: "'v \<Rightarrow> nat"
  assumes member_smaller: "jat J v m = Inr x \<Longrightarrow> sz x < sz v"

definition member :: "('v, 'x) json_lib_scheme \<Rightarrow> 'v \<Rightarrow> string \<Rightarrow> 'v option" where
  "member J v m = (case jat J v m of Inl _ \<Rightarrow> None | Inr x \<Rightarrow> Some x)"

text \<open>What the loop stores for a value that is not null over the current member.\<close>

definition merge_value ::
    "('v, 'x) json_lib_scheme \<Rightarrow> ('v \<Rightarrow> 'v \<Rightarrow> exc + 'v) \<Rightarrow> 'v option \<Rightarrow> 'v \<Rightarrow> exc + 'v" where
  "merge_value J nested current value =
     (case current of None \<Rightarrow> Inr value
      | Some c \<Rightarrow> if jis_object J c \<and> jis_object J value then nested c value else Inr value)"

definition field_error ::
    "('v, 'x) json_lib_scheme \<Rightarrow> ('v \<Rightarrow> 'v \<Rightarrow> exc + 'v) \<Rightarrow> 'v \<Rightarrow> string \<Rightarrow> 'v \<Rightarrow> bool" where
  "field_error J nested base name value \<longleftrightarrow>
     (if jis_null J value then member J base name = None
      else (\<exists>e. merge_value J nested (member J base name) value = Inl e))"

context json_api
begin

lemma member_iff: "jat J v m = Inr x \<longleftrightarrow> member J v m = Some x"
  by (simp add: member_def split: sum.split)

lemma has_member: "jhas_field J v m \<longleftrightarrow> member J v m \<noteq> None"
  by (auto simp: has_field_iff member_iff)

lemma member_set: "jtype J v = JObject \<Longrightarrow> member J (jset J v n x) m = (if m = n then Some x else member J v m)"
  by (simp add: member_def at_set)

lemma merge_field_cases:
  assumes "jtype J merged = JObject"
  shows "(field_error J nested merged name value \<and> (\<exists>e. merge_field J nested i (name, value) merged = Inl e)) \<or>
    (\<not> field_error J nested merged name value \<and> (\<exists>r. merge_field J nested i (name, value) merged = Inr r \<and>
       jtype J r = JObject \<and> (\<forall>m. m \<noteq> name \<longrightarrow> member J r m = member J merged m) \<and>
       (if jis_null J value then member J r name = None
        else \<exists>y. merge_value J nested (member J merged name) value = Inr y \<and> member J r name = Some y)))"
proof (cases "jis_null J value")
  case True
  show ?thesis
  proof (cases "jhas_field J merged name")
    case h: True
    with erase_present obtain w where "jerase J merged name = Inr w" "jtype J w = JObject"
      "\<not> jhas_field J w name" "\<forall>m. m \<noteq> name \<longrightarrow> jat J w m = jat J merged m" by blast
    with True h show ?thesis by (auto simp: merge_field_def field_error_def has_member member_def)
  next
    case False
    with erase_missing True show ?thesis by (auto simp: merge_field_def field_error_def has_member)
  qed
next
  case False
  show ?thesis
  proof (cases "member J merged name")
    case None
    with False assms show ?thesis
      by (auto simp: merge_field_def field_error_def merge_value_def has_member member_set type_set)
  next
    case (Some c)
    then have "jat J merged name = Inr c" by (simp add: member_iff)
    with False Some assms show ?thesis
      by (cases "nested c value") (auto simp: merge_field_def field_error_def merge_value_def has_member member_set type_set)
  qed
qed

lemma field_error_member:
  "member J a m = member J b m \<Longrightarrow> field_error J nested a m x = field_error J nested b m x"
  by (simp add: field_error_def)

text \<open>The loop over the fields, which have different names.\<close>

lemma merge_fields:
  assumes "distinct (map fst fs)" "jtype J base = JObject"
  shows "(\<exists>f \<in> set fs. field_error J nested base (fst f) (snd f)) \<and>
      (\<exists>e. rfold_index (merge_field J nested) i fs base = Inl e) \<or>
    (\<forall>f \<in> set fs. \<not> field_error J nested base (fst f) (snd f)) \<and>
      (\<exists>r. rfold_index (merge_field J nested) i fs base = Inr r \<and> jtype J r = JObject \<and>
        (\<forall>m. m \<notin> fst ` set fs \<longrightarrow> member J r m = member J base m) \<and>
        (\<forall>(m, x) \<in> set fs. if jis_null J x then member J r m = None
           else \<exists>y. merge_value J nested (member J base m) x = Inr y \<and> member J r m = Some y))"
  using assms
proof (induction fs arbitrary: base i)
  case Nil
  then show ?case by simp
next
  case (Cons f fs)
  obtain n v where f: "f = (n, v)" by (cases f)
  from Cons.prems f have d: "distinct (map fst fs)" "n \<notin> fst ` set fs" by simp_all
  show ?case
  proof (cases "field_error J nested base n v")
    case True
    with merge_field_cases [OF Cons.prems(2), of nested n v i] f show ?thesis by auto
  next
    case False
    with merge_field_cases [OF Cons.prems(2), of nested n v i] obtain r where
      r: "merge_field J nested i (n, v) base = Inr r" "jtype J r = JObject"
        "\<And>m. m \<noteq> n \<Longrightarrow> member J r m = member J base m"
        "if jis_null J v then member J r n = None
         else \<exists>y. merge_value J nested (member J base n) v = Inr y \<and> member J r n = Some y" by blast
    have same: "member J r (fst g) = member J base (fst g)" if "g \<in> set fs" for g
      using r(3) d(2) that by (metis image_eqI)
    then have "field_error J nested r (fst g) (snd g) = field_error J nested base (fst g) (snd g)" if "g \<in> set fs" for g
      using field_error_member that by blast
    with Cons.IH [OF d(1) r(2), of "Suc i"] r f d(2) False same show ?thesis
      by (fastforce split: if_splits)
  qed
qed

end

context json_tree
begin

lemma merge_enough:
  "sz patch < n \<Longrightarrow> sz patch < k \<Longrightarrow> merge_objects n J base patch = merge_objects k J base patch"
proof (induction n arbitrary: k base patch)
  case 0
  then show ?case by simp
next
  case (Suc n)
  then obtain k' where k: "k = Suc k'" by (cases k) auto
  have eq: "rfold_index (merge_field J (merge_objects n J)) i fs b = rfold_index (merge_field J (merge_objects k' J)) i fs b"
    if "\<forall>(m, x) \<in> set fs. sz x < sz patch" for fs i b
    using that
  proof (induction fs arbitrary: i b)
    case Nil
    then show ?case by simp
  next
    case (Cons f fs)
    obtain m x where f: "f = (m, x)" by (cases f)
    from Cons.prems f Suc.prems k have "sz x < n" "sz x < k'" by auto
    then have "merge_objects n J c x = merge_objects k' J c x" for c by (rule Suc.IH)
    then have "merge_field J (merge_objects n J) i f b = merge_field J (merge_objects k' J) i f b"
      by (cases "jat J b m") (simp_all add: merge_field_def f)
    moreover have "rfold_index (merge_field J (merge_objects n J)) (Suc i) fs c
        = rfold_index (merge_field J (merge_objects k' J)) (Suc i) fs c" for c
      by (rule Cons.IH) (use Cons.prems in simp)
    ultimately show ?case by (cases "merge_field J (merge_objects k' J) i f b") simp_all
  qed
  show ?case
  proof (cases "jtype J patch = JObject")
    case True
    with fields_object obtain fs where fs: "jfields J patch = Inr fs"
      "\<And>m x. (m, x) \<in> set fs \<longleftrightarrow> jat J patch m = Inr x" by blast
    then have "\<forall>(m, x) \<in> set fs. sz x < sz patch" using member_smaller by auto
    from eq [OF this] fs(1) k show ?thesis by simp
  qed (simp add: k)
qed

text \<open>One level of a merge, with the nested merges again as calls with enough fuel.\<close>

abbreviation merge_nested :: "'v \<Rightarrow> 'v \<Rightarrow> exc + 'v" where
  "merge_nested c x \<equiv> merge_objects (Suc (sz x)) J c x"

lemma merge_value_enough:
  assumes "member J patch m = Some x" "sz patch \<le> n"
  shows "merge_value J (merge_objects n J) c x = merge_value J merge_nested c x"
proof -
  from assms member_smaller [of patch m x] have "sz x < n" by (simp add: member_iff)
  then have "merge_objects n J a x = merge_nested a x" for a by (rule merge_enough) simp
  then show ?thesis by (simp add: merge_value_def split: option.split)
qed

lemma merge_level:
  assumes "jtype J base = JObject" "jtype J patch = JObject" "sz patch < f"
  shows "(\<exists>m x. member J patch m = Some x \<and> field_error J merge_nested base m x) \<and>
      (\<exists>e. merge_objects f J base patch = Inl e) \<or>
    (\<forall>m x. member J patch m = Some x \<longrightarrow> \<not> field_error J merge_nested base m x) \<and>
      (\<exists>r. merge_objects f J base patch = Inr r \<and> jtype J r = JObject \<and>
        (\<forall>m. case member J patch m of None \<Rightarrow> member J r m = member J base m
           | Some x \<Rightarrow> if jis_null J x then member J r m = None
               else \<exists>y. merge_value J merge_nested (member J base m) x = Inr y \<and> member J r m = Some y))"
proof -
  from assms(3) obtain n where n: "f = Suc n" "sz patch \<le> n" by (cases f) auto
  from fields_object [OF assms(2)] obtain fs where fs: "jfields J patch = Inr fs" "distinct (map fst fs)"
    "\<And>m x. (m, x) \<in> set fs \<longleftrightarrow> member J patch m = Some x" by (auto simp: member_iff)
  have run: "merge_objects f J base patch = rfold_index (merge_field J (merge_objects n J)) 0 fs base"
    using n(1) fs(1) assms(1,2) by simp
  have val: "merge_value J (merge_objects n J) c x = merge_value J merge_nested c x" if "(m, x) \<in> set fs" for m x c
    using merge_value_enough [of patch m x n c] that fs(3) n(2) by simp
  then have err: "field_error J (merge_objects n J) base m x = field_error J merge_nested base m x"
    if "(m, x) \<in> set fs" for m x using that by (simp add: field_error_def)
  have outside: "m \<notin> fst ` set fs \<longleftrightarrow> member J patch m = None" for m
    using fs(3) [of m] by (cases "member J patch m") force+
  from merge_fields [OF fs(2) assms(1), of "merge_objects n J" 0] show ?thesis
  proof (elim disjE conjE exE)
    fix e
    assume "\<exists>g \<in> set fs. field_error J (merge_objects n J) base (fst g) (snd g)"
      "rfold_index (merge_field J (merge_objects n J)) 0 fs base = Inl e"
    moreover from this(1) err fs(3) have "\<exists>m x. member J patch m = Some x \<and> field_error J merge_nested base m x"
      by fastforce
    ultimately show ?thesis by (simp add: run)
  next
    fix r
    assume ok: "\<forall>g \<in> set fs. \<not> field_error J (merge_objects n J) base (fst g) (snd g)"
      and r: "rfold_index (merge_field J (merge_objects n J)) 0 fs base = Inr r" "jtype J r = JObject"
      and frame: "\<forall>m. m \<notin> fst ` set fs \<longrightarrow> member J r m = member J base m"
      and upd: "\<forall>(m, x) \<in> set fs. if jis_null J x then member J r m = None
           else \<exists>y. merge_value J (merge_objects n J) (member J base m) x = Inr y \<and> member J r m = Some y"
    have "\<not> field_error J merge_nested base m x" if "member J patch m = Some x" for m x
      using ok err [of m x] that fs(3) [of m x] by fastforce
    moreover have "case member J patch m of None \<Rightarrow> member J r m = member J base m
           | Some x \<Rightarrow> if jis_null J x then member J r m = None
               else \<exists>y. merge_value J merge_nested (member J base m) x = Inr y \<and> member J r m = Some y" for m
    proof (cases "member J patch m")
      case None
      with frame outside show ?thesis by simp
    next
      case (Some x)
      with fs(3) have "(m, x) \<in> set fs" by simp
      with upd val [OF this] Some show ?thesis by fastforce
    qed
    ultimately show ?thesis using r run by auto
  qed
qed

end

section \<open>A concrete tree\<close>

lemma doc_member_size: "map_of kvs n = Some x \<Longrightarrow> size x < Suc (size_list (size_prod (\<lambda>_. 0) size) kvs)"
  by (induction kvs) (auto split: if_splits)

interpretation doc_tree: json_tree doc_lib size
proof
  fix v :: doc and m x
  assume "jat doc_lib v m = Inr x"
  then have "map_of (doc_map v) m = Some x" by (simp add: doc_lib_def split: option.splits)
  then show "size x < size v" by (cases v) (auto dest: doc_member_size)
qed

section \<open>Properties\<close>

text \<open>
  C39. One level of \<open>merge_objects\<close>, for every patch, with recursion of enough depth. The merge fails
  exactly when a null names a member the settings do not have or the merge of two objects below fails;
  otherwise members the patch does not name stay, a null removes its member, an object is merged into
  an object, and every other value is stored as it is, nulls inside it included.
\<close>
theorem merge_objects_spec:
  assumes "json_tree J sz" "jtype J base = JObject" "jtype J patch = JObject" "sz patch < f"
  shows "(\<exists>m x. member J patch m = Some x \<and> field_error J (\<lambda>c x. merge_objects (Suc (sz x)) J c x) base m x) \<and>
      (\<exists>e. merge_objects f J base patch = Inl e) \<or>
    (\<forall>m x. member J patch m = Some x \<longrightarrow> \<not> field_error J (\<lambda>c x. merge_objects (Suc (sz x)) J c x) base m x) \<and>
      (\<exists>r. merge_objects f J base patch = Inr r \<and> jtype J r = JObject \<and>
        (\<forall>m. case member J patch m of None \<Rightarrow> member J r m = member J base m
           | Some x \<Rightarrow> if jis_null J x then member J r m = None
               else \<exists>y. merge_value J (\<lambda>c x. merge_objects (Suc (sz x)) J c x) (member J base m) x = Inr y \<and>
                      member J r m = Some y))"
  by (rule json_tree.merge_level [OF assms])

text \<open>Removing a member that is not there is refused.\<close>

theorem merge_objects_spec_witness:
  "\<exists>e. merge_objects 9 doc_lib (DObj []) (DObj [(''hosts'', DNull)]) = Inl e"
proof -
  let ?p = "DObj [(''hosts'', DNull)]"
  have "member doc_lib ?p ''hosts'' = Some DNull \<and>
      field_error doc_lib (\<lambda>c x. merge_objects (Suc (size x)) doc_lib c x) (DObj []) ''hosts'' DNull"
    by (simp add: member_def field_error_def doc_lib_def)
  moreover have "jtype doc_lib (DObj []) = JObject" "jtype doc_lib ?p = JObject" "size ?p < 9"
    by (simp_all add: doc_lib_def)
  note merge_objects_spec [of doc_lib size "DObj []" ?p 9, OF doc_tree.json_tree_axioms this]
  ultimately show ?thesis by blast
qed

end
