(* ===== verification/Config_Update.thy ===== *)
theory Config_Update
  imports App_Sync Node_Lifecycle Config_Json
begin

text \<open>
  The control interface of the daemon: \<open>node_settings_json\<close>, \<open>available_registries_json\<close>,
  \<open>update_node_config\<close> and \<open>restart_node_runtime\<close> of \<open>daemon/app.cpp\<close>, the settings file of the node
  (\<open>parse_json_file\<close>, \<open>write_json_file\<close> and their callers in \<open>node.cpp\<close>), and the requests of
  \<open>daemon/http_debug_server.cpp\<close>.

  A request runs as one step here: it holds \<open>node_config_mutex_\<close>, but not the mutex of the sync thread.
  What the operating system and the library do during it are arguments: the outcome of each write, and
  for each start of the node the exception of its server, if any. The settings file is what opening
  and parsing it gives.
\<close>

section \<open>State\<close>

datatype write_outcome = Written | Not_opened | Write_error

record ('v, 'rs) daemon =
  dm_app :: "('v, 'rs) app"
  dm_file :: "exc + 'v"
  dm_has_runtime :: bool

text \<open>
  \<open>ce_config_text\<close> is the result of parsing the configured file name as JSON, \<open>ce_uri\<close> the constructor of
  \<open>web::uri\<close>; \<open>ce_size\<close> bounds the depth of a document.
\<close>

record 'v config_env =
  ce_os :: os
  ce_node :: "'v node_lib"
  ce_config_text :: "exc + 'v"
  ce_uri :: "string \<Rightarrow> exc + uri"
  ce_size :: "'v \<Rightarrow> nat"

definition on_app :: "(('v, 'rs) app \<Rightarrow> ('v, 'rs) app) \<Rightarrow> ('v, 'rs) daemon \<Rightarrow> ('v, 'rs) daemon" where
  "on_app f s = s\<lparr> dm_app := f (dm_app s) \<rparr>"

abbreviation dm_node :: "('v, 'rs) daemon \<Rightarrow> ('v, 'rs) node" where
  "dm_node s \<equiv> ap_node (dm_app s)"

section \<open>The settings file\<close>

definition parse_json_file :: "('v, 'x) json_lib_scheme \<Rightarrow> exc + 'v \<Rightarrow> exc + 'v" where
  "parse_json_file J file =
     rbind file (\<lambda>parsed. if jis_object J parsed then Inr parsed else Inl ''not an object'')"

definition write_json_file ::
    "('v, 'x) json_lib_scheme \<Rightarrow> write_outcome \<Rightarrow> string \<Rightarrow> 'v \<Rightarrow> (('v, 'rs) daemon, unit) eff" where
  "write_json_file J outcome file_path settings =
     (if \<not> jis_object J settings then ethrow ''node settings payload must be a JSON object''
      else case outcome of
             Not_opened \<Rightarrow> ethrow (''failed to open node config file for write: '' @ file_path)
           | Write_error \<Rightarrow> eseq (emod (\<lambda>s. s\<lparr> dm_file := Inl ''truncated'' \<rparr>))
                                (ethrow (''failed to write node config file: '' @ file_path))
           | Written \<Rightarrow> emod (\<lambda>s. s\<lparr> dm_file := Inr settings \<rparr>))"

definition persisted_settings :: "('v, 'x) json_lib_scheme \<Rightarrow> ('v, 'rs) daemon \<Rightarrow> exc + 'v" where
  "persisted_settings J s =
     (if nd_config_file (dm_node s) = [] then Inr (jobject J) else parse_json_file J (dm_file s))"

definition effective_settings :: "('v, 'rs) daemon \<Rightarrow> 'v" where
  "effective_settings s = nd_settings (dm_node s)"

definition write_persisted_settings ::
    "('v, 'x) json_lib_scheme \<Rightarrow> write_outcome \<Rightarrow> 'v \<Rightarrow> (('v, 'rs) daemon, unit) eff" where
  "write_persisted_settings J outcome settings =
     ebind (eget (\<lambda>s. nd_config_file (dm_node s))) (\<lambda>config_file.
     if config_file = [] then ethrow ''node config file path is empty''
     else write_json_file J outcome config_file settings)"

section \<open>Restarting and reconfiguring\<close>

definition restart_node_runtime ::
    "('v, 'rs) app_env \<Rightarrow> 'v config_env \<Rightarrow> exc option \<Rightarrow> (('v, 'rs) daemon, unit) eff" where
  "restart_node_runtime E C server =
     ebind (eget dm_has_runtime) (\<lambda>has_runtime.
     if \<not> has_runtime then ethrow ''node runtime is not initialized'' else
     eseq (emod (on_app (app_set_node_state E ''restarting'')))
    (eseq (emod (on_app (\<lambda>a. a\<lparr> ap_node := snd (node_stop (ap_node a)) \<rparr>)))
    (eseq (emod (on_app (on_store (set_registry_status registration_status_default))))
    (eseq (emod (on_app (on_store clear_last_snapshot)))
    (ebind (\<lambda>s. case node_start (ce_os C) (ae_json E) (ae_nmos E) (ce_node C) (ae_transportfile E)
                       (ce_config_text C) (dm_file s) server (dm_node s) of
                  (ok, n) \<Rightarrow> (Inr ok, on_app (\<lambda>a. a\<lparr> ap_node := n \<rparr>) s)) (\<lambda>ok.
     if \<not> ok then eseq (emod (on_app (app_set_node_state E ''stopped'')))
                       (ethrow ''failed to restart node runtime with updated config'')
     else
       eseq (emod (on_app (app_set_node_state E ''running'')))
      (ebind (eget (\<lambda>s. ss_status (ap_store (dm_app s)))) (\<lambda>status.
       let reconnect_revision = (if 0 <s st_last_seen_revision status then st_last_seen_revision status else 1)
       in emod (on_app (schedule_sync reconnect_revision))))))))))"

text \<open>
  \<open>w1\<close> and \<open>v1\<close> are the outcome of the first write and start, \<open>w2\<close> and \<open>v2\<close> those of the rollback. The
  exception of the rollback is logged and dropped, the first one is thrown again.
\<close>

definition update_node_config ::
    "('v, 'rs) app_env \<Rightarrow> 'v config_env \<Rightarrow> write_outcome \<Rightarrow> exc option \<Rightarrow> write_outcome \<Rightarrow> exc option \<Rightarrow>
     'v \<Rightarrow> bool \<Rightarrow> (('v, 'rs) daemon, 'v) eff" where
  "update_node_config E C w1 v1 w2 v2 patch replace_entire_document =
     (let J = ae_json E in
     ebind (eget dm_has_runtime) (\<lambda>has_runtime.
     if \<not> has_runtime then ethrow ''node runtime is not initialized''
     else if \<not> jis_object J patch then ethrow ''node config payload must be a JSON object''
     else
     ebind (eget (persisted_settings J)) (\<lambda>persisted.
     ebind (elift persisted) (\<lambda>previous_persisted.
     ebind (elift (if replace_entire_document then Inr patch
                   else merge_objects (Suc (ce_size C patch)) J previous_persisted patch)) (\<lambda>merged.
     ebind (elift (apply_selected_registry_settings J (ce_uri C) merged)) (\<lambda>next_persisted.
     eseq (write_persisted_settings J w1 next_persisted)
    (eseq (ecatch (restart_node_runtime E C v1) (\<lambda>error.
             eseq (ecatch (eseq (write_persisted_settings J w2 previous_persisted) (restart_node_runtime E C v2))
                          (\<lambda>rollback_error. eret ()))
                  (ethrow error)))
    (ebind (eget effective_settings) (\<lambda>effective.
     ebind (elift (selected_registry_summary J next_persisted)) (\<lambda>selected_registry.
     eret (jbuild J [(''persisted'', next_persisted), (''effective'', effective),
                     (''selected_registry'', selected_registry)])))))))))))"

section \<open>Requests\<close>

definition node_settings_json :: "('v, 'rs) app_env \<Rightarrow> ('v, 'rs) daemon \<Rightarrow> exc + 'v" where
  "node_settings_json E s =
     (if \<not> dm_has_runtime s then Inl ''node runtime is not initialized'' else persisted_settings (ae_json E) s)"

text \<open>A service that was discovered: the text of its version, its priority and its URI.\<close>

type_synonym resolved_service = "string \<times> int32 \<times> uri"

definition registration_api_to_json :: "('v, 'x) json_lib_scheme \<Rightarrow> resolved_service \<Rightarrow> 'v" where
  "registration_api_to_json J service =
     (case service of (version, priority, u) \<Rightarrow>
        jbuild J [(''uri'', jstring J (ur_string u)), (''version'', jstring J version),
                  (''priority'', jint J priority), (''host'', jstring J (ur_host u)), (''port'', jint J (ur_port u))])"

definition discover_registration_apis ::
    "('v, 'x) json_lib_scheme \<Rightarrow> exc + resolved_service list \<Rightarrow> exc + 'v" where
  "discover_registration_apis J resolved =
     rbind resolved (\<lambda>services. Inr (jarray_of J (map (registration_api_to_json J) services)))"

definition available_registries_json ::
    "('v, 'rs) app_env \<Rightarrow> exc + resolved_service list \<Rightarrow> ('v, 'rs) daemon \<Rightarrow> exc + 'v" where
  "available_registries_json E resolved s =
     (let J = ae_json E; store = ap_store (dm_app s) in
      if \<not> dm_has_runtime s then Inl ''node runtime is not initialized''
      else rbind (jat J (status_json J (ss_status store) (ss_registry_status store)) ''registry'') (\<lambda>current.
           rbind (discover_registration_apis J resolved) (\<lambda>discovered.
           Inr (jbuild J [(''current'', current), (''discovered'', discovered)]))))"

text \<open>A reply is its status code and its body.\<close>

definition error_json :: "('v, 'x) json_lib_scheme \<Rightarrow> string \<Rightarrow> 'v" where
  "error_json J message = jbuild J [(''error'', jstring J message)]"

definition settings_update_path :: string where
  "settings_update_path = ''/api/nmos/settings/update''"

definition handle_get ::
    "('v, 'rs) app_env \<Rightarrow> exc + resolved_service list \<Rightarrow> string \<Rightarrow> ('v, 'rs) daemon \<Rightarrow> nat \<times> 'v option" where
  "handle_get E resolved path s =
     (let J = ae_json E; store = ap_store (dm_app s) in
      if path = ''/api/nmos/health'' then (200, Some (jbuild J [(''ok'', jbool J True)]))
      else if path = ''/api/nmos/status''
      then (200, Some (status_json J (ss_status store) (ss_registry_status store)))
      else if path = ''/api/nmos/settings''
      then (case node_settings_json E s of
              Inr v \<Rightarrow> (200, Some v) | Inl error \<Rightarrow> (500, Some (error_json J error)))
      else if path = ''/api/nmos/registries''
      then (case available_registries_json E resolved s of
              Inr v \<Rightarrow> (200, Some v) | Inl error \<Rightarrow> (500, Some (error_json J error)))
      else if path = ''/api/nmos/snapshot'' then (200, Some (snapshot_json J (ss_last_snapshot store)))
      else (404, None))"

text \<open>\<open>update\<close> is \<open>update_node_config\<close> with its environment.\<close>

definition handle_settings_update ::
    "('v, 'x) json_lib_scheme \<Rightarrow> ('v \<Rightarrow> bool \<Rightarrow> (('v, 'rs) daemon, 'v) eff) \<Rightarrow> exc + 'v \<Rightarrow> bool \<Rightarrow>
     ('v, 'rs) daemon \<Rightarrow> (nat \<times> 'v option) \<times> ('v, 'rs) daemon" where
  "handle_settings_update J update request_json replace_entire_document s =
     (case ebind (elift request_json) (\<lambda>body. update body replace_entire_document) s of
        (Inr v, t) \<Rightarrow> ((200, Some v), t)
      | (Inl error, t) \<Rightarrow> ((400, Some (error_json J error)), t))"

datatype update_method = Post | Put | Patch

fun replaces_document :: "update_method \<Rightarrow> bool" where
  "replaces_document Post = True" | "replaces_document Put = True" | "replaces_document Patch = False"

definition handle_update ::
    "('v, 'x) json_lib_scheme \<Rightarrow> ('v \<Rightarrow> bool \<Rightarrow> (('v, 'rs) daemon, 'v) eff) \<Rightarrow> update_method \<Rightarrow> string \<Rightarrow> exc + 'v \<Rightarrow>
     ('v, 'rs) daemon \<Rightarrow> (nat \<times> 'v option) \<times> ('v, 'rs) daemon" where
  "handle_update J update verb path request_json s =
     (if path \<noteq> settings_update_path then ((404, None), s)
      else handle_settings_update J update request_json (replaces_document verb) s)"

section \<open>What a restart leaves\<close>

lemma set_node_state_fields [simp]:
  "ap_node (app_set_node_state E st a) = ap_node a"
  "ap_store (app_set_node_state E st a) = store_set_node_state st (ap_store a)"
  "ap_sync_pending (app_set_node_state E st a) = ap_sync_pending a"
  "ap_force_sync_pending (app_set_node_state E st a) = ap_force_sync_pending a"
  by (simp_all add: app_set_node_state_def on_store_def send_json_def Let_def)

lemma restart_status:
  "ss_status (store_set_node_state y (clear_last_snapshot (set_registry_status g (store_set_node_state x st))))
     = (ss_status st)\<lparr> st_node_state := y \<rparr>"
  "ss_last_snapshot (store_set_node_state y (clear_last_snapshot (set_registry_status g (store_set_node_state x st)))) = None"
  "ss_registry_status (store_set_node_state y (clear_last_snapshot (set_registry_status g (store_set_node_state x st)))) = g"
  by (cases "ss_status st"; simp add: store_defs)+

abbreviation restarted where
  "restarted E C server s \<equiv> node_start (ce_os C) (ae_json E) (ae_nmos E) (ce_node C) (ae_transportfile E)
     (ce_config_text C) (dm_file s) server (snd (node_stop (dm_node s)))"

text \<open>What \<open>schedule_sync\<close> does not do: it drops a revision that has been applied.\<close>

definition due_after_restart :: "('v, 'rs) app \<Rightarrow> bool" where
  "due_after_restart a \<longleftrightarrow> ap_force_sync_pending a \<or> st_protection_mode (ss_status (ap_store a)) \<or>
     \<not> st_streams_registered (ss_status (ap_store a)) \<or>
     \<not> (if 0 <s st_last_seen_revision (ss_status (ap_store a)) then st_last_seen_revision (ss_status (ap_store a)) else 1)
         \<le>s st_last_applied_revision (ss_status (ap_store a))"

lemma restart_result:
  assumes "dm_has_runtime s" "restarted E C server s = (ok, n)" "restart_node_runtime E C server s = (r, t)"
  shows "dm_node t = n" "dm_file t = dm_file s" "dm_has_runtime t"
    "r = (if ok then Inr () else Inl ''failed to restart node runtime with updated config'')"
    "ss_last_snapshot (ap_store (dm_app t)) = None"
    "ss_status (ap_store (dm_app t)) = (ss_status (ap_store (dm_app s)))
       \<lparr> st_node_state := (if ok then ''running'' else ''stopped'') \<rparr>"
    "ap_sync_pending (dm_app t) \<longleftrightarrow> ap_sync_pending (dm_app s) \<or> ok \<and> due_after_restart (dm_app s)"
proof -
  let ?a = "(app_set_node_state E ''restarting'' (dm_app s))\<lparr> ap_node := n, ap_store :=
      clear_last_snapshot (set_registry_status registration_status_default
        (store_set_node_state ''restarting'' (ap_store (dm_app s)))) \<rparr>"
  let ?b = "app_set_node_state E (if ok then ''running'' else ''stopped'') ?a"
  let ?rev = "if 0 <s st_last_seen_revision (ss_status (ap_store (dm_app s)))
      then st_last_seen_revision (ss_status (ap_store (dm_app s))) else 1"
  have a: "a\<lparr> ap_node := x, ap_store := y, ap_node := z \<rparr> = a\<lparr> ap_node := z, ap_store := y \<rparr>"
    for a :: "('v, 'rs) app" and x y z by (cases a) simp
  have t: "(r, t) = (if ok then (Inr (), s\<lparr> dm_app := schedule_sync ?rev ?b \<rparr>)
      else (Inl ''failed to restart node runtime with updated config'', s\<lparr> dm_app := ?b \<rparr>))"
    unfolding assms(3) [symmetric]
    using assms(1,2) by (simp add: restart_node_runtime_def on_app_def on_store_def eff_simps restart_status a Let_def)
  have b: "ap_node ?b = n" "ss_last_snapshot (ap_store ?b) = None"
    "ss_status (ap_store ?b) = (ss_status (ap_store (dm_app s)))\<lparr> st_node_state := (if ok then ''running'' else ''stopped'') \<rparr>"
    "ap_sync_pending ?b = ap_sync_pending (dm_app s)" "ap_force_sync_pending ?b = ap_force_sync_pending (dm_app s)"
    by (simp_all add: restart_status)
  show "dm_node t = n" "dm_file t = dm_file s" "dm_has_runtime t"
    "r = (if ok then Inr () else Inl ''failed to restart node runtime with updated config'')"
    "ss_last_snapshot (ap_store (dm_app t)) = None"
    "ss_status (ap_store (dm_app t)) = (ss_status (ap_store (dm_app s)))
       \<lparr> st_node_state := (if ok then ''running'' else ''stopped'') \<rparr>"
    using t b(1-3) assms(1) by (simp_all split: if_splits)
  have "ap_sync_pending (schedule_sync ?rev ?b) \<longleftrightarrow> ap_sync_pending (dm_app s) \<or> due_after_restart (dm_app s)"
    by (auto simp add: schedule_sync_def due_after_restart_def b(3,4,5) Let_def simp del: set_node_state_fields)
  then show "ap_sync_pending (dm_app t) \<longleftrightarrow> ap_sync_pending (dm_app s) \<or> ok \<and> due_after_restart (dm_app s)"
    using t b(4) by (simp split: if_splits)
qed

section \<open>What a change of the settings leaves\<close>

text \<open>
  The node after any number of restarts: well formed, and every stream as before or missing. All
  restarts of \<open>update_node_config\<close> keep this.
\<close>

definition node_after :: "('v, 'rs) nmos_lib \<Rightarrow> ('v, 'rs) node \<Rightarrow> ('v, 'rs) node \<Rightarrow> bool" where
  "node_after L n n' \<longleftrightarrow> node_good L n' \<and>
     (\<forall>k i. node_stream n' k i = None \<or> node_stream n' k i = node_stream n k i)"

lemma node_after_refl: "node_good L n \<Longrightarrow> node_after L n n"
  by (simp add: node_after_def)

lemma node_after_trans: "node_after L n m \<Longrightarrow> node_after L m p \<Longrightarrow> node_after L n p"
  unfolding node_after_def by metis

lemma restart_cases:
  assumes lib: "node_store (ae_nmos E) ids (ce_node C)" and good: "node_good (ae_nmos E) (dm_node s)"
    and has: "dm_has_runtime s" and run: "restart_node_runtime E C server s = (r, t)"
  shows "node_after (ae_nmos E) (dm_node s) (dm_node t)" "dm_file t = dm_file s" "dm_has_runtime t"
    "nd_lifecycle_state (dm_node t) = (if r = Inr () then Running else Stopped)"
    "r = Inr () \<or> r = Inl ''failed to restart node runtime with updated config'' \<and> node_stream (dm_node t) = node_stream (dm_node s)"
    "nd_config_file (dm_node t) = nd_config_file (dm_node s)"
proof -
  obtain ok n where n: "restarted E C server s = (ok, n)" by (cases "restarted E C server s")
  note e = node_store.start_effect [OF lib good n] and r = restart_result [OF has n run]
  show "node_after (ae_nmos E) (dm_node s) (dm_node t)"
    using e r(1) by (cases ok) (simp_all add: node_after_def)
  show "dm_file t = dm_file s" "dm_has_runtime t" using r by simp_all
  show "nd_lifecycle_state (dm_node t) = (if r = Inr () then Running else Stopped)"
    "nd_config_file (dm_node t) = nd_config_file (dm_node s)"
    using e r(1,4) by (cases ok; simp)+
  show "r = Inr () \<or> r = Inl ''failed to restart node runtime with updated config'' \<and> node_stream (dm_node t) = node_stream (dm_node s)"
    using e r(1,4) by (cases ok) simp_all
qed

lemma write_cases:
  assumes "write_persisted_settings J w v s = (r, t)"
  shows "dm_app t = dm_app s \<and> dm_has_runtime t = dm_has_runtime s \<and>
    (r = Inr () \<longrightarrow> w = Written \<and> dm_file t = Inr v) \<and> (r \<noteq> Inr () \<and> w \<noteq> Write_error \<longrightarrow> dm_file t = dm_file s)"
  using assms by (auto simp: write_persisted_settings_def write_json_file_def eff_simps split: if_splits write_outcome.splits)

text \<open>
  The ways through \<open>update_node_config\<close>: refused before anything is written, the first write fails, the
  node restarts, or it does not and the rollback runs.
\<close>

lemma update_cases:
  assumes run: "update_node_config E C w1 v1 w2 v2 patch replace s = (r, t)"
  obtains (refused) e where "r = Inl e" "t = s"
  | (unwritten) e nxt where "r = Inl e" "write_persisted_settings (ae_json E) w1 nxt s = (Inl e, t)"
  | (applied) nxt u where "dm_has_runtime s" "write_persisted_settings (ae_json E) w1 nxt s = (Inr (), u)"
      "restart_node_runtime E C v1 u = (Inr (), t)"
      "r = rbind (selected_registry_summary (ae_json E) nxt) (\<lambda>selected_registry.
         Inr (jbuild (ae_json E) [(''persisted'', nxt), (''effective'', effective_settings t),
                     (''selected_registry'', selected_registry)]))"
  | (rolled_back) prev nxt u e x where "dm_has_runtime s" "persisted_settings (ae_json E) s = Inr prev"
      "write_persisted_settings (ae_json E) w1 nxt s = (Inr (), u)"
      "restart_node_runtime E C v1 u = (Inl e, x)" "r = Inl e"
      "ecatch (eseq (write_persisted_settings (ae_json E) w2 prev) (restart_node_runtime E C v2)) (\<lambda>_. eret ()) x = (Inr (), t)"
proof -
  let ?J = "ae_json E"
  let ?next = "rbind (persisted_settings ?J s) (\<lambda>prev. rbind (if replace then Inr patch
      else merge_objects (Suc (ce_size C patch)) ?J prev patch) (apply_selected_registry_settings ?J (ce_uri C)))"
  show thesis
  proof (cases "dm_has_runtime s \<and> jis_object ?J patch \<and> (\<exists>nxt. ?next = Inr nxt)")
    case False
    have "update_node_config E C w1 v1 w2 v2 patch replace s = (Inl e, s)"
      if "dm_has_runtime s" "jis_object ?J patch" "?next = Inl e" for e
      using that by (auto simp: update_node_config_def eff_simps rbind_Inl_iff Let_def simp del: merge_objects.simps)
    moreover have "\<exists>e. update_node_config E C w1 v1 w2 v2 patch replace s = (Inl e, s)"
      if "\<not> (dm_has_runtime s \<and> jis_object ?J patch)"
      using that by (auto simp: update_node_config_def eff_simps Let_def)
    ultimately have "\<exists>e. r = Inl e \<and> t = s" using run False by (cases ?next) auto
    with refused show thesis by blast
  next
    case True
    then obtain nxt where "?next = Inr nxt" by blast
    then obtain prev merged where prev: "persisted_settings ?J s = Inr prev"
      and merged: "(if replace then Inr patch else merge_objects (Suc (ce_size C patch)) ?J prev patch) = Inr merged"
      and nxt: "apply_selected_registry_settings ?J (ce_uri C) merged = Inr nxt" by (auto simp: rbind_Inr_iff)
    have has: "dm_has_runtime s" "jis_object ?J patch" using True by simp_all
    let ?restart = "ecatch (restart_node_runtime E C v1) (\<lambda>error. eseq (ecatch
      (eseq (write_persisted_settings ?J w2 prev) (restart_node_runtime E C v2)) (\<lambda>_. eret ())) (ethrow error))"
    let ?reply = "ebind (eget effective_settings) (\<lambda>effective.
     ebind (elift (selected_registry_summary ?J nxt)) (\<lambda>selected_registry.
     eret (jbuild ?J [(''persisted'', nxt), (''effective'', effective), (''selected_registry'', selected_registry)])))"
    have rest: "(r, t) = eseq (write_persisted_settings ?J w1 nxt) (eseq ?restart ?reply) s"
      unfolding run [symmetric] update_node_config_def Let_def
      using has prev merged nxt by (simp add: ebind_apply [of "eget f" for f] ebind_apply [of "elift x" for x] eget_apply elift_apply)
    obtain q u where u: "write_persisted_settings ?J w1 nxt s = (q, u)" by (cases "write_persisted_settings ?J w1 nxt s")
    show thesis
    proof (cases q)
      case (Inl e)
      with rest u have "r = Inl e" "t = u" by (simp_all add: eseq_apply)
      with unwritten u Inl show thesis by simp
    next
      case q: (Inr a)
      obtain p x where x: "restart_node_runtime E C v1 u = (p, x)" by (cases "restart_node_runtime E C v1 u")
      show thesis
      proof (cases p)
        case (Inr b)
        with rest u q x have "r = rbind (selected_registry_summary ?J nxt) (\<lambda>selected_registry.
           Inr (jbuild ?J [(''persisted'', nxt), (''effective'', effective_settings x),
                     (''selected_registry'', selected_registry)]))" "t = x"
          by (cases "selected_registry_summary ?J nxt"; simp add: eff_simps)+
        with applied u q x Inr has show thesis by simp
      next
        case (Inl e)
        let ?rollback = "ecatch (eseq (write_persisted_settings ?J w2 prev) (restart_node_runtime E C v2)) (\<lambda>_. eret ())"
        have total: "fst (?rollback x) = Inr ()" by (simp add: ecatch_def eret_def split: prod.split sum.split)
        then obtain y where y: "?rollback x = (Inr (), y)" by (metis prod.collapse)
        with rest u q x Inl have "r = Inl e" "t = y"
          by (simp_all add: eseq_apply ecatch_apply [of "restart_node_runtime E C v1"] ethrow_apply)
        with rolled_back prev u q x Inl y has show thesis by simp
      qed
    qed
  qed
qed

lemma rollback_cases:
  assumes lib: "node_store (ae_nmos E) ids (ce_node C)" and good: "node_good (ae_nmos E) (dm_node x)"
    and has: "dm_has_runtime x" and config: "nd_config_file (dm_node x) \<noteq> []" and prev: "jis_object (ae_json E) prev"
    and stopped: "nd_lifecycle_state (dm_node x) = Stopped"
    and run: "ecatch (eseq (write_persisted_settings (ae_json E) w2 prev) (restart_node_runtime E C v2)) (\<lambda>_. eret ()) x = (Inr (), t)"
  shows "node_after (ae_nmos E) (dm_node x) (dm_node t)"
    "w2 = Written \<Longrightarrow> dm_file t = Inr prev"
    "nd_lifecycle_state (dm_node t) = Stopped \<or> nd_lifecycle_state (dm_node t) = Running \<and> w2 = Written"
proof -
  obtain q y where y: "write_persisted_settings (ae_json E) w2 prev x = (q, y)"
    by (cases "write_persisted_settings (ae_json E) w2 prev x")
  note w = write_cases [OF y]
  have written: "q = Inr ()" if "w2 = Written"
    using y that config prev by (simp add: write_persisted_settings_def write_json_file_def eff_simps)
  have "node_after (ae_nmos E) (dm_node x) (dm_node t) \<and> (w2 = Written \<longrightarrow> dm_file t = Inr prev) \<and>
    (nd_lifecycle_state (dm_node t) = Stopped \<or> nd_lifecycle_state (dm_node t) = Running \<and> w2 = Written)"
  proof (cases q)
    case (Inl e)
    with run y written have "t = y" "w2 \<noteq> Written" by (auto simp: eff_simps)
    with w good stopped show ?thesis by (simp add: node_after_refl)
  next
    case (Inr a)
    obtain p z where z: "restart_node_runtime E C v2 y = (p, z)" by (cases "restart_node_runtime E C v2 y")
    with run y Inr have t: "t = z" by (cases p) (simp_all add: eff_simps)
    have "node_good (ae_nmos E) (dm_node y)" "dm_has_runtime y" using w good has by simp_all
    from restart_cases [OF lib this z] w t Inr show ?thesis by simp
  qed
  then show "node_after (ae_nmos E) (dm_node x) (dm_node t)" "w2 = Written \<Longrightarrow> dm_file t = Inr prev"
    "nd_lifecycle_state (dm_node t) = Stopped \<or> nd_lifecycle_state (dm_node t) = Running \<and> w2 = Written" by blast+
qed

lemma persisted_object:
  assumes "json_api J" "persisted_settings J s = Inr prev"
  shows "jis_object J prev" "nd_config_file (dm_node s) \<noteq> [] \<Longrightarrow> dm_file s = Inr prev"
  using assms by (auto simp: persisted_settings_def parse_json_file_def rbind_Inr_iff json_api.type_object split: if_splits)

lemma written_config: "write_persisted_settings J w v s = (Inr (), t) \<Longrightarrow> nd_config_file (dm_node s) \<noteq> []"
  by (auto simp: write_persisted_settings_def eff_simps split: if_splits)

section \<open>Properties\<close>

text \<open>
  C37. A change of the settings keeps the node well formed, no stream changed and none added, and has
  one of these outcomes. It succeeds: the node runs, the new settings are in the file and in the
  reply. It fails: nothing has happened; or the file was damaged by the write; or the new settings
  are in the file and the node runs with them all the same, only the summary in the reply could not
  be made; or the node did not start, and then the file has the old settings again if it could be
  written, and the node is running only if it could.
\<close>
theorem config_update_outcome:
  assumes "json_api (ae_json E)" "node_store (ae_nmos E) ids (ce_node C)" "node_good (ae_nmos E) (dm_node s)"
    and "update_node_config E C w1 v1 w2 v2 patch replace s = (r, t)"
  shows "node_good (ae_nmos E) (dm_node t) \<and>
    (\<forall>k i. node_stream (dm_node t) k i = None \<or> node_stream (dm_node t) k i = node_stream (dm_node s) k i) \<and>
    (case r of
       Inr reply \<Rightarrow> nd_lifecycle_state (dm_node t) = Running \<and>
         (\<exists>settings. dm_file t = Inr settings \<and> jat (ae_json E) reply ''persisted'' = Inr settings \<and>
            jat (ae_json E) reply ''effective'' = Inr (nd_settings (dm_node t)))
     | Inl e \<Rightarrow> t = s \<or>
         w1 = Write_error \<and> dm_app t = dm_app s \<or>
         nd_lifecycle_state (dm_node t) = Running \<and>
           (\<exists>settings. dm_file t = Inr settings \<and> selected_registry_summary (ae_json E) settings = Inl e) \<or>
         e = ''failed to restart node runtime with updated config'' \<and>
           (w2 = Written \<longrightarrow> dm_file t = dm_file s) \<and>
           (nd_lifecycle_state (dm_node t) = Stopped \<or> nd_lifecycle_state (dm_node t) = Running \<and> w2 = Written))"
  using assms(4)
proof (cases rule: update_cases)
  case (refused e)
  with assms(3) show ?thesis by simp
next
  case (unwritten e nxt)
  from write_cases [OF unwritten(2)] have "dm_app t = dm_app s" "dm_has_runtime t = dm_has_runtime s"
    "w1 \<noteq> Write_error \<Longrightarrow> dm_file t = dm_file s" by auto
  then have "w1 \<noteq> Write_error \<Longrightarrow> t = s" by simp
  with \<open>dm_app t = dm_app s\<close> unwritten(1) assms(3) show ?thesis by auto
next
  case (applied nxt u)
  note w = write_cases [OF applied(2)]
  then have "node_good (ae_nmos E) (dm_node u)" "dm_has_runtime u" using assms(3) applied(1) by simp_all
  note c = restart_cases [OF assms(2) this applied(3)]
  with w have t: "dm_file t = Inr nxt" "nd_lifecycle_state (dm_node t) = Running"
    "node_after (ae_nmos E) (dm_node s) (dm_node t)" by simp_all
  show ?thesis
  proof (cases "selected_registry_summary (ae_json E) nxt")
    case (Inl e)
    with applied(4) t show ?thesis by (simp add: node_after_def)
  next
    case (Inr selected_registry)
    with applied(4) t show ?thesis
      by (simp add: node_after_def json_api.at_build_case [OF assms(1)] effective_settings_def)
  qed
next
  case (rolled_back prev nxt u e x)
  note w = write_cases [OF rolled_back(3)]
  then have "node_good (ae_nmos E) (dm_node u)" "dm_has_runtime u" using assms(3) rolled_back(1) by simp_all
  note c = restart_cases [OF assms(2) this rolled_back(4)]
  have x: "node_good (ae_nmos E) (dm_node x)" "nd_config_file (dm_node x) \<noteq> []"
    "nd_lifecycle_state (dm_node x) = Stopped" "node_after (ae_nmos E) (dm_node s) (dm_node x)"
    using c(1,4,6) w written_config [OF rolled_back(3)] by (simp_all add: node_after_def)
  have prev: "dm_file s = Inr prev"
    by (rule persisted_object(2) [OF assms(1) rolled_back(2) written_config [OF rolled_back(3)]])
  from rollback_cases [OF assms(2) x(1) c(3) x(2) persisted_object(1) [OF assms(1) rolled_back(2)] x(3) rolled_back(6)]
  have t: "node_after (ae_nmos E) (dm_node x) (dm_node t)" "w2 = Written \<Longrightarrow> dm_file t = Inr prev"
    "nd_lifecycle_state (dm_node t) = Stopped \<or> nd_lifecycle_state (dm_node t) = Running \<and> w2 = Written" by blast+
  with node_after_trans [OF x(4) t(1)] c(5) rolled_back(5) prev show ?thesis
    by (auto simp: node_after_def)
qed

text \<open>A daemon that has applied the snapshot of one receiver with revision 5.\<close>

definition sample_daemon :: "(doc, doc resource list) daemon" where
  "sample_daemon =
     \<lparr> dm_app = (app_started sample_serving 1000)
         \<lparr> ap_store := mark_apply_success 5 (sample_snapshot [''a'']) True state_store_initial \<rparr>,
       dm_file = Inl ''no file'', dm_has_runtime = True \<rparr>"

definition sample_config_env :: "doc config_env" where
  "sample_config_env =
     \<lparr> ce_os = sample_os, ce_node = sample_node_lib, ce_config_text = Inr (DObj []),
       ce_uri = (\<lambda>_. Inl ''invalid uri''), ce_size = size \<rparr>"

lemma sample_config_fields [simp]:
  "ce_os sample_config_env = sample_os" "ce_node sample_config_env = sample_node_lib"
  "ce_config_text sample_config_env = Inr (DObj [])" "ce_size sample_config_env = size"
  by (simp_all add: sample_config_env_def)

lemma sample_daemon_fields [simp]:
  "dm_node sample_daemon = sample_serving" "dm_file sample_daemon = Inl ''no file''" "dm_has_runtime sample_daemon"
  "\<not> ap_sync_pending (dm_app sample_daemon)" "\<not> ap_force_sync_pending (dm_app sample_daemon)"
  "ss_status (ap_store (dm_app sample_daemon)) = ss_status (mark_apply_success 5 (sample_snapshot [''a'']) True state_store_initial)"
  "ss_last_snapshot (ap_store (dm_app sample_daemon)) = Some (sample_snapshot [''a''])"
  by (simp_all add: sample_daemon_def app_started_def)

theorem config_update_outcome_witness:
  "node_good sample_lib (dm_node (snd (update_node_config sample_env sample_config_env Written None Written None
     (DObj []) True sample_daemon)))"
proof -
  obtain r t where run: "update_node_config sample_env sample_config_env Written None Written None
     (DObj []) True sample_daemon = (r, t)" by fastforce
  have "json_api (ae_json sample_env)" "node_store (ae_nmos sample_env) (\<lambda>rs. set (map re_id rs)) (ce_node sample_config_env)"
    "node_good (ae_nmos sample_env) (dm_node sample_daemon)"
    using doc.json_api_axioms sample_start.node_store_axioms sample_serving_good by simp_all
  from config_update_outcome [OF this run] run show ?thesis by simp
qed

text \<open>
  C38. A restart forgets the snapshot but not its streams. When the node is in step with the last
  snapshot, its streams are registered and every revision seen has been applied, a successful restart
  leaves the same streams in the node, no snapshot in force and no synchronisation scheduled;
  streams stay reported as registered, and a disconnect then removes none of them.
\<close>
theorem restart_forgets_snapshot:
  assumes "node_store (ae_nmos E) ids (ce_node C)" "node_good (ae_nmos E) (dm_node s)" "dm_has_runtime s"
    and "ss_last_snapshot (ap_store (dm_app s)) = Some sn" "node_stream (dm_node s) = snapshot_stream sn"
    and "\<not> ap_sync_pending (dm_app s)" "\<not> due_after_restart (dm_app s)"
    and "restart_node_runtime E C server s = (Inr (), t)"
    and "fst (init (ae_json E) (ae_nmos E) (ce_node C) (ae_transportfile E) (snd (load_settings (ce_os C) (ae_json E)
           (ce_node C) (ce_config_text C) (dm_file s) (restart_input (ae_json E) (ae_nmos E) (dm_node s))))) = Inr ()"
  shows "node_stream (dm_node t) = snapshot_stream sn \<and> ss_last_snapshot (ap_store (dm_app t)) = None \<and>
    \<not> ap_sync_pending (dm_app t) \<and> st_streams_registered (ss_status (ap_store (dm_app t))) \<and>
    (\<exists>a. handle_ws_disconnected E (dm_app t) = (Inr (), a) \<and> node_stream (ap_node a) = snapshot_stream sn)"
proof -
  obtain ok n where n: "restarted E C server s = (ok, n)" by (cases "restarted E C server s")
  note e = node_store.start_effect [OF assms(1,2) n] and r = restart_result [OF assms(3) n assms(8)]
  from r(4) have ok: ok by (simp split: if_splits)
  with e assms(5,9) r(1) have t: "node_stream (dm_node t) = snapshot_stream sn" "node_good (ae_nmos E) (dm_node t)"
    by simp_all
  have "st_streams_registered (ss_status (ap_store (dm_app s)))" using assms(7) by (simp add: due_after_restart_def)
  then have "st_streams_registered (ss_status (ap_store (dm_app t)))" by (simp add: r(6))
  moreover have "resource_store (ae_nmos E) ids" using assms(1) by (simp add: node_store_def)
  from handle_ws_disconnected_effect [OF this t(2)] r(5) t(1)
  have "\<exists>a. handle_ws_disconnected E (dm_app t) = (Inr (), a) \<and> node_stream (ap_node a) = snapshot_stream sn" by auto
  ultimately show ?thesis using t(1) r(5,7) assms(6,7) by simp
qed

lemma sample_restarted: "fst (restarted sample_env sample_config_env None sample_daemon)"
  using sample_start_runs by simp

theorem restart_forgets_snapshot_witness:
  "\<exists>t. restart_node_runtime sample_env sample_config_env None sample_daemon = (Inr (), t) \<and>
     node_stream (dm_node t) = snapshot_stream (sample_snapshot [''a'']) \<and>
     ss_last_snapshot (ap_store (dm_app t)) = None \<and> \<not> ap_sync_pending (dm_app t)"
proof -
  obtain n where n: "restarted sample_env sample_config_env None sample_daemon = (True, n)"
    using sample_restarted by (metis prod.collapse)
  obtain r t where run: "restart_node_runtime sample_env sample_config_env None sample_daemon = (r, t)" by fastforce
  from restart_result(4) [OF sample_daemon_fields(3) n run] run
  have run: "restart_node_runtime sample_env sample_config_env None sample_daemon = (Inr (), t)" by simp
  have "\<not> due_after_restart (dm_app sample_daemon)"
    by (simp add: due_after_restart_def store_defs state_store_initial_def signed_le)
  moreover have "node_store (ae_nmos sample_env) (\<lambda>rs. set (map re_id rs)) (ce_node sample_config_env)"
    "node_good (ae_nmos sample_env) (dm_node sample_daemon)"
    using sample_start.node_store_axioms sample_serving_good by simp_all
  ultimately show ?thesis
    using restart_forgets_snapshot [OF _ _ sample_daemon_fields(3) sample_daemon_fields(7) _ sample_daemon_fields(4) _ run]
      sample_serving_stream sample_init_runs run by simp
qed

section \<open>A negative debounce interval\<close>

text \<open>
  With a negative interval the deadline is always before the last signal, so the wait that ends the
  debouncing is left at once and the loop starts again.
\<close>

definition spinning :: "('v, 'rs) app \<Rightarrow> bool" where
  "spinning s \<longleftrightarrow> (ap_sync_pending s \<longrightarrow> ap_last_signal_time s \<le> ap_now s) \<and>
     (case ap_pc s of Waiting \<Rightarrow> True | Debouncing d \<Rightarrow> ap_sync_pending s \<and> d < ap_last_signal_time s
      | Finished \<Rightarrow> True | _ \<Rightarrow> False)"

lemma spinning_schedule: "spinning s \<Longrightarrow> spinning (schedule_sync v s)"
  by (auto simp: spinning_def schedule_sync_def Let_def split: sync_pc.splits)

lemma spinning_store [simp]: "spinning (on_store f s) = spinning s"
  "spinning (s\<lparr> ap_store := st \<rparr>) = spinning s" "spinning (send_json m s) = spinning s"
  "spinning (s\<lparr> ap_ws_connected := b \<rparr>) = spinning s" "spinning (s\<lparr> ap_force_sync_pending := b \<rparr>) = spinning s"
  by (simp_all add: spinning_def on_store_def send_json_def cong: sync_pc.case_cong)

lemma spinning_step:
  assumes "ae_snapshot_debounce_ms E < 0" "app_step E s t" "spinning s"
  shows "spinning t"
  using assms(2)
proof cases
  case Connected
  show ?thesis unfolding Connected handle_ws_connected_def Let_def split_def
    by (rule spinning_schedule) (use assms(3) in simp)
next
  case (Changed message)
  show ?thesis unfolding Changed handle_snapshot_changed_def Let_def
    by (rule spinning_schedule) (use assms(3) in simp)
next
  case (Disconnected r)
  with assms(3) show ?thesis
    by (auto simp: handle_ws_disconnected_def on_node_def eff_simps spinning_def on_store_def
        split: prod.splits sum.splits sync_pc.splits)
qed (use assms(1,3) in \<open>auto simp: spinning_def handle_ws_error_def handle_registration_event_def
    handle_sender_event_def handle_receiver_event_def on_store_def send_json_def split: sync_pc.splits if_splits\<close>)

text \<open>
  C40. The configuration file may give a negative debounce interval: it is loaded as it is, and the
  daemon then never starts a synchronisation, whatever it is notified of and however long it runs.
\<close>
theorem negative_debounce_never_syncs:
  assumes "load_from_file J parse path file = Inr config"
    and "ae_snapshot_debounce_ms E = sint (dc_snapshot_debounce_ms config)" "dc_snapshot_debounce_ms config <s 0"
    and "(app_step E)\<^sup>*\<^sup>* (app_started n now) s"
  shows "ap_pc s \<notin> {Starting_sync v b, Fetching v b c}"
proof -
  from assms(3) have "sint (dc_snapshot_debounce_ms config) < 0" by (simp add: word_sless_alt)
  with assms(2) have "ae_snapshot_debounce_ms E < 0" by simp
  from assms(4) have "spinning s"
  proof induction
    case base
    show ?case by (simp add: spinning_def app_started_def)
  next
    case (step t u)
    with \<open>ae_snapshot_debounce_ms E < 0\<close> show ?case by (blast intro: spinning_step)
  qed
  then show ?thesis by (auto simp: spinning_def)
qed

definition sample_config :: doc where
  "sample_config = DObj [(''node_config_path'', DStr ''node.json''), (''snapshot_url'', DStr ''s''),
     (''ws_url'', DStr ''w''), (''snapshot_debounce_ms'', DInt (-1))]"

lemma sample_config_loaded:
  "\<exists>config. load_from_file doc_lib (\<lambda>_. Inr sample_config) ''daemon.json'' (Some []) = Inr config \<and>
     dc_snapshot_debounce_ms config = - 1"
  by (simp add: load_from_file_def require_string_def config_int_or_def config_string_or_def field_or_def
      sample_config_def doc_lib_def)

theorem negative_debounce_never_syncs_witness:
  "\<not> (\<exists>s. (app_step (sample_env\<lparr> ae_snapshot_debounce_ms := - 1 \<rparr>))\<^sup>*\<^sup>* sample_app s \<and> ap_pc s = Starting_sync 5 False)"
proof
  assume "\<exists>s. (app_step (sample_env\<lparr> ae_snapshot_debounce_ms := - 1 \<rparr>))\<^sup>*\<^sup>* sample_app s \<and> ap_pc s = Starting_sync 5 False"
  then obtain s where s: "(app_step (sample_env\<lparr> ae_snapshot_debounce_ms := - 1 \<rparr>))\<^sup>*\<^sup>* (app_started sample_node 1000) s"
    "ap_pc s = Starting_sync 5 False" by (auto simp: sample_app_def)
  from sample_config_loaded obtain config where
    c: "load_from_file doc_lib (\<lambda>_. Inr sample_config) ''daemon.json'' (Some []) = Inr config"
      "dc_snapshot_debounce_ms config = - 1" by blast
  have "ae_snapshot_debounce_ms (sample_env\<lparr> ae_snapshot_debounce_ms := - 1 \<rparr>) = sint (dc_snapshot_debounce_ms config)"
    "dc_snapshot_debounce_ms config <s 0" by (simp_all add: c(2) word_sless_alt)
  from negative_debounce_never_syncs [OF c(1) this s(1), of 5 False None] s(2) show False by simp
qed

end
