(* ===== verification/Node_Transport.thy ===== *)
theory Node_Transport
  imports Reconcile_Engine
begin

text \<open>
  Two handlers the node registers with the nmos-cpp server (\<open>make_node_implementation\<close> in
  \<open>node.cpp\<close>): the resolver of the \<open>auto\<close> parameters of a connection, and the setter of the transport
  files of senders, which is an instance of the parameter \<open>T\<close> of the operations on streams. The
  search functions \<open>find_..._by_sender_id\<close> and \<open>find_..._by_resource_id\<close> are \<open>List.find\<close>.
\<close>

section \<open>What the library gives\<close>

text \<open>
  \<open>cl_field\<close> is the accessor of a field that gives a value; \<open>cl_master_enable\<close> and \<open>cl_text\<close> those that
  give a Boolean and a text. \<open>cl_resolve_auto\<close> replaces a parameter that is \<open>auto\<close> by a value,
  \<open>cl_resolve_rtp_auto\<close> all that are left in the legs, with the port it is passed or its own. The rest
  reads and writes SDP: \<open>cl_make_parameters\<close> are the functions \<open>make_..._parameters\<close>,
  \<open>cl_make_sdp_parameters\<close> the functions \<open>make_..._sdp_parameters\<close> with their default payload type.
\<close>

datatype sdp_kind = Video_raw | Audio_L | Video_smpte291 | Video_SMPTE2022_6

record ('v, 'p, 'm, 'c) connection_lib =
  cl_field :: "string \<Rightarrow> 'v \<Rightarrow> exc + 'v"
  cl_text :: "string \<Rightarrow> 'v \<Rightarrow> exc + string"
  cl_master_enable :: "'v \<Rightarrow> exc + bool"
  cl_resolve_auto :: "string \<Rightarrow> 'v \<Rightarrow> 'v \<Rightarrow> exc + 'v"
  cl_resolve_rtp_auto :: "string \<Rightarrow> int32 option \<Rightarrow> ('v, unit) eff"
  cl_parse_sdp :: "string \<Rightarrow> exc + 'p"
  cl_media_type :: "'p \<Rightarrow> string"
  cl_video_raw :: "'p \<Rightarrow> exc + video_raw_parameters"
  cl_video_jxsv :: "'p \<Rightarrow> exc + string \<times> string"
  cl_audio_L :: "'p \<Rightarrow> exc + uint32 \<times> uint32 \<times> int64 \<times> rat"
  cl_serialize :: "'v \<Rightarrow> string"
  cl_make_parameters :: "sdp_kind \<Rightarrow> 'v \<Rightarrow> 'v \<Rightarrow> 'v \<Rightarrow> 'v \<Rightarrow> exc + 'm"
  cl_make_ts_refclk :: "'v \<Rightarrow> 'v \<Rightarrow> 'v \<Rightarrow> int32 \<Rightarrow> exc + 'c"
  cl_make_sdp_parameters :: "sdp_kind \<Rightarrow> string \<Rightarrow> 'm \<Rightarrow> string list \<Rightarrow> 'c \<Rightarrow> exc + 'p"
  cl_session_description :: "'p \<Rightarrow> 'v \<Rightarrow> exc + string"
  cl_sender_transportfile :: "string \<Rightarrow> 'v"

section \<open>Automatic parameters\<close>

text \<open>What the resolver takes from the streams with the identity; later kinds overwrite earlier ones.\<close>

record auto_defaults =
  ad_smpte2022_7 :: bool
  ad_source_ip :: string
  ad_redudancy_source_ip :: string
  ad_ip :: string
  ad_port :: int32
  ad_redudancy_ip :: string
  ad_redudancy_port :: int32

definition auto_defaults_none :: auto_defaults where
  "auto_defaults_none =
     \<lparr> ad_smpte2022_7 = False, ad_source_ip = [], ad_redudancy_source_ip = [], ad_ip = [], ad_port = 0,
       ad_redudancy_ip = [], ad_redudancy_port = 0 \<rparr>"

definition sender_auto :: "string \<Rightarrow> string \<Rightarrow> int32 \<Rightarrow> redudancy \<Rightarrow> auto_defaults" where
  "sender_auto source_ip ip port rd =
     auto_defaults_none\<lparr> ad_smpte2022_7 := rd_present rd, ad_source_ip := source_ip,
       ad_redudancy_source_ip := rd_source_ip rd, ad_ip := ip, ad_redudancy_ip := rd_ip rd, ad_port := port \<rparr>"

definition receiver_auto :: "string \<Rightarrow> string \<Rightarrow> int32 \<Rightarrow> redudancy \<Rightarrow> auto_defaults" where
  "receiver_auto source_ip ip port rd =
     \<lparr> ad_smpte2022_7 = rd_present rd, ad_source_ip = source_ip, ad_redudancy_source_ip = rd_source_ip rd,
       ad_ip = ip, ad_port = port, ad_redudancy_ip = receiver_multicast_ip_or_default (rd_ip rd) ip,
       ad_redudancy_port = receiver_port_or_default (rd_port rd) port \<rparr>"

definition overwrite :: "'b \<Rightarrow> ('a \<Rightarrow> 'b) \<Rightarrow> 'a option \<Rightarrow> 'b" where
  "overwrite d f found = (case found of None \<Rightarrow> d | Some x \<Rightarrow> f x)"

definition sender_defaults :: "('v, 'rs) node \<Rightarrow> string \<Rightarrow> auto_defaults" where
  "sender_defaults s sender_id =
     overwrite
       (overwrite
         (overwrite auto_defaults_none
           (\<lambda>video. sender_auto (vs_source_ip video) (vs_ip video) (vs_port video) (vs_redudancy video))
           (find_video_sender_by_sender_id sender_id s))
         (\<lambda>audio. sender_auto (as_source_ip audio) (as_ip audio) (as_port audio) (as_redudancy audio))
         (find_audio_sender_by_sender_id sender_id s))
       (\<lambda>ancillary. sender_auto (ns_source_ip ancillary) (ns_ip ancillary) (ns_port ancillary) (ns_redudancy ancillary))
       (find_ancillary_sender_by_sender_id sender_id s)"

definition receiver_defaults :: "('v, 'rs, 'y) nmos_lib_scheme \<Rightarrow> ('v, 'rs) node \<Rightarrow> string \<Rightarrow> auto_defaults" where
  "receiver_defaults L s resource_id =
     overwrite
       (overwrite
         (overwrite auto_defaults_none
           (\<lambda>video. receiver_auto (vr_source_ip video) (vr_ip video) (vr_port video) (vr_redudancy video))
           (find_video_receiver_by_resource_id L resource_id s))
         (\<lambda>audio. receiver_auto (ar_source_ip audio) (ar_ip audio) (ar_port audio) (ar_redudancy audio))
         (find_audio_receiver_by_resource_id L resource_id s))
       (\<lambda>ancillary. receiver_auto (nr_source_ip ancillary) (nr_ip ancillary) (nr_port ancillary) (nr_redudancy ancillary))
       (find_ancillary_receiver_by_resource_id L resource_id s)"

text \<open>A parameter of one leg, edited in place in the array; a leg that is not there cannot be.\<close>

definition resolve_param ::
    "('v, 'x) json_lib_scheme \<Rightarrow> ('v, 'p, 'm, 'c) connection_lib \<Rightarrow> nat \<Rightarrow> string \<Rightarrow> 'v \<Rightarrow> ('v, unit) eff" where
  "resolve_param J C leg name auto_value transport_params =
     (case jelems J transport_params of
        Inl e \<Rightarrow> (Inl e, transport_params)
      | Inr legs \<Rightarrow>
          if leg < length legs then
            (case cl_resolve_auto C name auto_value (legs ! leg) of
               Inl e \<Rightarrow> (Inl e, transport_params)
             | Inr param \<Rightarrow> (Inr (), jset_index J transport_params leg param))
          else (Inl ''index out of bounds'', transport_params))"

definition resolve_params ::
    "('v, 'x) json_lib_scheme \<Rightarrow> ('v, 'p, 'm, 'c) connection_lib \<Rightarrow> nat \<Rightarrow> (string \<times> 'v) list \<Rightarrow> ('v, unit) eff" where
  "resolve_params J C leg vals = eforeach (\<lambda>(name, auto_value). resolve_param J C leg name auto_value) vals"

definition resolve_sender_auto ::
    "('v, 'x) json_lib_scheme \<Rightarrow> ('v, 'p, 'm, 'c) connection_lib \<Rightarrow> host_interface list \<Rightarrow> auto_defaults \<Rightarrow> bool \<Rightarrow>
     ('v, unit) eff" where
  "resolve_sender_auto J C interfaces d second_leg =
     (let selection = select_runtime_interfaces interfaces (ad_source_ip d) (ad_redudancy_source_ip d) (ad_smpte2022_7 d)
      in
      eseq (resolve_params J C 0 [(''source_ip'', jstring J (il_ip (is_primary selection)))])
     (eseq (if ad_smpte2022_7 d \<and> second_leg
            then resolve_params J C 1 [(''source_ip'', jstring J (il_ip (is_redundancy selection)))] else eret ())
     (eseq (resolve_params J C 0 [(''destination_ip'', jstring J (ad_ip d))])
     (eseq (if ad_smpte2022_7 d \<and> second_leg
            then resolve_params J C 1 [(''destination_ip'', jstring J (ad_redudancy_ip d))] else eret ())
           (cl_resolve_rtp_auto C ''sender'' (Some (ad_port d)))))))"

definition resolve_receiver_auto ::
    "('v, 'x) json_lib_scheme \<Rightarrow> ('v, 'p, 'm, 'c) connection_lib \<Rightarrow> host_interface list \<Rightarrow> auto_defaults \<Rightarrow> bool \<Rightarrow>
     ('v, unit) eff" where
  "resolve_receiver_auto J C interfaces d second_leg =
     (let selection = select_runtime_interfaces interfaces (ad_source_ip d) (ad_redudancy_source_ip d) (ad_smpte2022_7 d)
      in
      eseq (resolve_params J C 0
              [(''multicast_ip'', jstring J (ad_ip d)), (''source_ip'', jstring J []),
               (''destination_port'', jint J (ad_port d)),
               (''interface_ip'', jstring J (il_ip (is_primary selection)))])
     (eseq (if ad_smpte2022_7 d \<and> second_leg
            then resolve_params J C 1
                   [(''multicast_ip'', jstring J (ad_redudancy_ip d)),
                    (''destination_port'', jint J (ad_redudancy_port d)),
                    (''interface_ip'', jstring J (il_ip (is_redundancy selection)))]
            else eret ())
           (cl_resolve_rtp_auto C ''receiver'' None)))"

definition auto_resolver ::
    "('v, 'x) json_lib_scheme \<Rightarrow> ('v, 'rs, 'y) nmos_lib_scheme \<Rightarrow> ('v, 'p, 'm, 'c) connection_lib \<Rightarrow>
     ('v, 'rs) node \<Rightarrow> 'v resource \<Rightarrow> ('v, unit) eff" where
  "auto_resolver J L C s connection_resource transport_params =
     (if \<not> jis_array J transport_params then (Inr (), transport_params)
      else case jelems J transport_params of
        Inl e \<Rightarrow> (Inl e, transport_params)
      | Inr legs \<Rightarrow>
          if legs = [] then (Inr (), transport_params)
          else if re_type connection_resource = ''sender'' then
            resolve_sender_auto J C (nd_runtime_interfaces s) (sender_defaults s (re_id connection_resource))
              (1 < length legs) transport_params
          else if re_type connection_resource = ''receiver'' then
            resolve_receiver_auto J C (nd_runtime_interfaces s) (receiver_defaults L s (re_id connection_resource))
              (1 < length legs) transport_params
          else (Inr (), transport_params))"

section \<open>Transport files of senders\<close>

definition media_stream_id :: "nat \<Rightarrow> string" where
  "media_stream_id leg =
     (if leg = 0 then ''PRIMARY'' else if leg = 1 then ''SECONDARY'' else ''LEG'' @ nat_to_string (leg + 1))"

definition media_stream_ids :: "('v, 'x) json_lib_scheme \<Rightarrow> 'v \<Rightarrow> exc + string list" where
  "media_stream_ids J transport_params =
     (if \<not> jis_array J transport_params then Inr []
      else rbind (jelems J transport_params) (\<lambda>legs.
        if length legs < 2 then Inr [] else Inr (map media_stream_id [0..<length legs])))"

definition valid_transport_params :: "os \<Rightarrow> ('v, 'x) json_lib_scheme \<Rightarrow> 'v \<Rightarrow> exc + 'v" where
  "valid_transport_params O' J transport_params =
     (if \<not> jis_array J transport_params then Inr transport_params
      else rbind (jelems J transport_params)
        (\<lambda>legs. rfold_index (\<lambda>leg transport_param acc.
           rbind (transport_param_with_valid_destination_ip O' J transport_param)
             (\<lambda>valid. Inr (jset_index J acc leg valid))) 0 legs (jarray J)))"

definition find_or_throw ::
    "('v, 'rs, 'y) nmos_lib_scheme \<Rightarrow> 'rs \<Rightarrow> string \<Rightarrow> string \<Rightarrow> string \<Rightarrow> exc + 'v resource" where
  "find_or_throw L rs resource_id type' message =
     (case nl_find L rs resource_id type' of None \<Rightarrow> Inl message | Some r \<Rightarrow> Inr r)"

text \<open>The kind of SDP that is made for a flow.\<close>

definition flow_sdp_kind :: "('v, 'p, 'm, 'c) connection_lib \<Rightarrow> 'v \<Rightarrow> exc + sdp_kind" where
  "flow_sdp_kind C flow =
     rbind (cl_text C ''format'' flow) (\<lambda>format.
     if format = ''urn:x-nmos:format:video'' then
       rbind (cl_text C ''media_type'' flow) (\<lambda>video_type.
       if video_type = ''video/raw'' then Inr Video_raw else Inl ''unexpected video media type'')
     else if format = ''urn:x-nmos:format:audio'' then Inr Audio_L
     else if format = ''urn:x-nmos:format:data'' then Inr Video_smpte291
     else if format = ''urn:x-nmos:format:mux'' then Inr Video_SMPTE2022_6
     else Inl ''unexpected flow format'')"

definition make_sdp_parameters ::
    "('v, 'p, 'm, 'c) connection_lib \<Rightarrow> int32 \<Rightarrow> string \<Rightarrow> string list \<Rightarrow> 'v \<Rightarrow> 'v \<Rightarrow> 'v \<Rightarrow> 'v \<Rightarrow> exc + 'p" where
  "make_sdp_parameters C ptp_domain_number session_name ids node source flow sender =
     rbind (flow_sdp_kind C flow) (\<lambda>kind.
     rbind (case cl_make_parameters C kind node source flow sender of
              Inr params \<Rightarrow> Inr params
            | Inl error \<Rightarrow>
                Inl (if kind = Video_raw
                     then ''failed to make video/raw SDP parameters: '' @ error @ '', flow='' @ cl_serialize C flow @
                          '', sender='' @ cl_serialize C sender
                     else error)) (\<lambda>params.
     rbind (cl_make_ts_refclk C node source sender ptp_domain_number) (\<lambda>ts_refclk.
     cl_make_sdp_parameters C kind session_name params ids ts_refclk)))"

text \<open>
  The setter. The current transport file is its last argument; it is returned unchanged for a sender
  the node has not registered.
\<close>

definition node_transportfile_setter ::
    "os \<Rightarrow> ('v, 'x) json_lib_scheme \<Rightarrow> ('v, 'rs, 'y) nmos_lib_scheme \<Rightarrow> ('v, 'p, 'm, 'c) connection_lib \<Rightarrow>
     ('v, 'rs) transportfile" where
  "node_transportfile_setter O' J L C s sender connection_sender endpoint_transportfile =
     (if re_id connection_sender \<notin> set (nd_sender_ids s) then Inr endpoint_transportfile
      else
        let node_resources = nd_node_resources s in
        rbind (find_or_throw L node_resources (nd_node_id s) ''node'' ''matching IS-04 node, source or flow not found'')
          (\<lambda>node.
        if \<not> jhas_field J (re_data sender) ''flow_id'' then Inl ''matching IS-04 sender flow_id not found''
        else
        rbind (rbind (cl_field C ''flow_id'' (re_data sender)) (jas_string J)) (\<lambda>flow_id.
        rbind (find_or_throw L node_resources flow_id ''flow'' ''matching IS-04 flow not found'') (\<lambda>flow.
        if \<not> jhas_field J (re_data flow) ''source_id'' then Inl ''matching IS-04 flow source_id not found''
        else
        rbind (cl_text C ''source_id'' (re_data flow)) (\<lambda>source_id.
        rbind (find_or_throw L node_resources source_id ''source'' ''matching IS-04 source not found'') (\<lambda>source.
        rbind (cl_text C ''description'' (re_data sender)) (\<lambda>session_name.
        rbind (rbind (cl_field C ''endpoint_active'' (re_data connection_sender)) (cl_field C ''transport_params''))
          (\<lambda>transport_params.
        rbind (valid_transport_params O' J transport_params) (\<lambda>transportfile_transport_params.
        rbind (media_stream_ids J transportfile_transport_params) (\<lambda>ids.
        rbind (make_sdp_parameters C (nd_ptp_domain_number s) session_name ids (re_data node) (re_data source)
                 (re_data flow) (re_data sender)) (\<lambda>sdp_params.
        rbind (cl_session_description C sdp_params transportfile_transport_params) (\<lambda>sdp.
        Inr (cl_sender_transportfile C sdp)))))))))))))"

section \<open>The resolver\<close>

text \<open>
  The documented behaviour of the two functions of the library: a parameter that is the text \<open>auto\<close>
  takes the value, an explicit one is kept, and no other parameter changes; the second function leaves
  explicit parameters alone and gives \<open>auto\<close> ports the port it is passed.
\<close>

definition is_auto :: "('v, 'x) json_lib_scheme \<Rightarrow> 'v \<Rightarrow> bool" where
  "is_auto J v \<longleftrightarrow> jas_string J v = Inr ''auto''"

locale auto_library = json_api J for J :: "('v, 'x) json_lib_scheme" +
  fixes C :: "('v, 'p, 'm, 'c) connection_lib"
  assumes resolve_present: "jtype J param = JObject \<Longrightarrow> jat J param name = Inr v \<Longrightarrow>
      \<exists>q. cl_resolve_auto C name x param = Inr q \<and> jtype J q = JObject \<and>
          jat J q name = Inr (if is_auto J v then x else v) \<and> (\<forall>m. m \<noteq> name \<longrightarrow> jat J q m = jat J param m)"
    and resolve_explicit: "cl_resolve_auto C name x param = Inr q \<Longrightarrow> jat J param m = Inr v \<Longrightarrow> \<not> is_auto J v \<Longrightarrow>
      jat J q m = Inr v"
    and rtp_explicit: "jelems J a = Inr legs \<Longrightarrow> cl_resolve_rtp_auto C type' given a = (r, b) \<Longrightarrow>
      \<exists>legs'. jelems J b = Inr legs' \<and> length legs' = length legs \<and>
        (\<forall>k < length legs. \<forall>m v. jat J (legs ! k) m = Inr v \<longrightarrow> \<not> is_auto J v \<longrightarrow> jat J (legs' ! k) m = Inr v)"
    and rtp_port: "jelems J a = Inr legs \<Longrightarrow> cl_resolve_rtp_auto C ''sender'' (Some port) a = (Inr (), b) \<Longrightarrow>
      jelems J b = Inr legs' \<Longrightarrow> k < length legs \<Longrightarrow> jat J (legs ! k) ''destination_port'' = Inr v \<Longrightarrow> is_auto J v \<Longrightarrow>
      jat J (legs' ! k) ''destination_port'' = Inr (jint J port)"

text \<open>What becomes of a leg; and that the explicit parameters of all legs are kept.\<close>

definition leg_resolved :: "('v, 'x) json_lib_scheme \<Rightarrow> (string \<times> 'v) list \<Rightarrow> 'v \<Rightarrow> 'v \<Rightarrow> bool" where
  "leg_resolved J vals old new \<longleftrightarrow> jtype J new = JObject \<and>
     (\<forall>m v. jat J old m = Inr v \<longrightarrow>
        jat J new m = Inr (if is_auto J v then (case map_of vals m of Some x \<Rightarrow> x | None \<Rightarrow> v) else v))"

definition explicit_kept :: "('v, 'x) json_lib_scheme \<Rightarrow> 'v \<Rightarrow> 'v \<Rightarrow> bool" where
  "explicit_kept J old new \<longleftrightarrow> (\<forall>legs. jelems J old = Inr legs \<longrightarrow>
     (\<exists>legs'. jelems J new = Inr legs' \<and> length legs' = length legs \<and>
        (\<forall>k < length legs. \<forall>m v. jat J (legs ! k) m = Inr v \<longrightarrow> \<not> is_auto J v \<longrightarrow> jat J (legs' ! k) m = Inr v)))"

lemma leg_resolved_append:
  assumes "leg_resolved J vs p q" "leg_resolved J ws q r" "fst ` set vs \<inter> fst ` set ws = {}"
  shows "leg_resolved J (vs @ ws) p r"
  unfolding leg_resolved_def
proof (intro conjI allI impI)
  show "jtype J r = JObject" using assms(2) by (simp add: leg_resolved_def)
  fix m v
  assume v: "jat J p m = Inr v"
  have "map_of ws m = None" if "map_of vs m = Some x" for x
    using that assms(3) by (force simp: map_of_eq_None_iff dest: map_of_SomeD)
  moreover from assms(1) v have
    "jat J q m = Inr (if is_auto J v then (case map_of vs m of Some x \<Rightarrow> x | None \<Rightarrow> v) else v)"
    by (simp add: leg_resolved_def)
  ultimately show "jat J r m = Inr (if is_auto J v then (case map_of (vs @ ws) m of Some x \<Rightarrow> x | None \<Rightarrow> v) else v)"
    using assms(2) by (cases "map_of vs m") (simp_all add: leg_resolved_def map_add_def split: option.split)
qed

lemma explicit_kept_refl [simp]: "explicit_kept J a a"
  by (simp add: explicit_kept_def)

lemma explicit_kept_trans:
  assumes "explicit_kept J a b" "explicit_kept J b c"
  shows "explicit_kept J a c"
  unfolding explicit_kept_def
proof (intro allI impI)
  fix legs
  assume "jelems J a = Inr legs"
  with assms(1) obtain legs1 where 1: "jelems J b = Inr legs1" "length legs1 = length legs"
    "\<forall>k < length legs. \<forall>m v. jat J (legs ! k) m = Inr v \<longrightarrow> \<not> is_auto J v \<longrightarrow> jat J (legs1 ! k) m = Inr v"
    unfolding explicit_kept_def by blast
  with assms(2) obtain legs2 where "jelems J c = Inr legs2" "length legs2 = length legs1"
    "\<forall>k < length legs1. \<forall>m v. jat J (legs1 ! k) m = Inr v \<longrightarrow> \<not> is_auto J v \<longrightarrow> jat J (legs2 ! k) m = Inr v"
    unfolding explicit_kept_def by blast
  with 1 show "\<exists>legs'. jelems J c = Inr legs' \<and> length legs' = length legs \<and>
      (\<forall>k < length legs. \<forall>m v. jat J (legs ! k) m = Inr v \<longrightarrow> \<not> is_auto J v \<longrightarrow> jat J (legs' ! k) m = Inr v)"
    by (intro exI [of _ legs2]) simp
qed

context auto_library
begin

lemma leg_resolved_Nil [simp]: "jtype J p = JObject \<Longrightarrow> leg_resolved J [] p p"
  by (simp add: leg_resolved_def)

lemma has_field_resolved: "leg_resolved J vs p q \<Longrightarrow> jhas_field J p m \<Longrightarrow> jhas_field J q m"
  by (auto simp: has_field_iff leg_resolved_def)

lemma resolve_param_effect:
  assumes "jelems J a = Inr legs" "k < length legs" "jtype J (legs ! k) = JObject" "jhas_field J (legs ! k) n"
  shows "\<exists>b q. resolve_param J C k n x a = (Inr (), b) \<and> jelems J b = Inr (legs[k := q]) \<and>
    leg_resolved J [(n, x)] (legs ! k) q"
proof -
  from assms(4) obtain v where v: "jat J (legs ! k) n = Inr v" by (auto simp: has_field_iff)
  from resolve_present [OF assms(3) v, of x] obtain q where
    q: "cl_resolve_auto C n x (legs ! k) = Inr q" "jtype J q = JObject"
      "jat J q n = Inr (if is_auto J v then x else v)" "\<forall>m. m \<noteq> n \<longrightarrow> jat J q m = jat J (legs ! k) m" by blast
  with v have "leg_resolved J [(n, x)] (legs ! k) q" by (auto simp: leg_resolved_def)
  then show ?thesis using assms(1,2) q(1) elems_update [OF assms(1,2)] by (auto simp: resolve_param_def)
qed

lemma resolve_params_effect:
  assumes "jelems J a = Inr legs" "k < length legs" "jtype J (legs ! k) = JObject"
    and "\<forall>n \<in> fst ` set vals. jhas_field J (legs ! k) n" "distinct (map fst vals)"
  shows "\<exists>b q. resolve_params J C k vals a = (Inr (), b) \<and> jelems J b = Inr (legs[k := q]) \<and>
    leg_resolved J vals (legs ! k) q"
  using assms
proof (induction vals arbitrary: a legs)
  case Nil
  then show ?case by (intro exI [of _ a] exI [of _ "legs ! k"]) (simp add: resolve_params_def eff_simps)
next
  case (Cons nx vals)
  obtain n x where nx: "nx = (n, x)" by (cases nx)
  with Cons.prems(4) have "jhas_field J (legs ! k) n" by simp
  from resolve_param_effect [OF Cons.prems(1-3) this, of x] obtain b q where
    b: "resolve_param J C k n x a = (Inr (), b)" "jelems J b = Inr (legs[k := q])"
    and q: "leg_resolved J [(n, x)] (legs ! k) q" by blast
  have "\<exists>c p. resolve_params J C k vals b = (Inr (), c) \<and> jelems J c = Inr ((legs[k := q])[k := p]) \<and>
      leg_resolved J vals (legs[k := q] ! k) p"
  proof (rule Cons.IH [OF b(2)])
    show "k < length (legs[k := q])" "distinct (map fst vals)" using Cons.prems(2,5) by simp_all
    show "jtype J (legs[k := q] ! k) = JObject" using q Cons.prems(2) by (simp add: leg_resolved_def)
    show "\<forall>n \<in> fst ` set vals. jhas_field J (legs[k := q] ! k) n"
      using Cons.prems(2,4) has_field_resolved [OF q] by simp
  qed
  then obtain c p where c: "resolve_params J C k vals b = (Inr (), c)" "jelems J c = Inr (legs[k := p])"
    and p: "leg_resolved J vals q p" using Cons.prems(2) by auto
  from leg_resolved_append [OF q p] Cons.prems(5) nx have "leg_resolved J (nx # vals) (legs ! k) p" by auto
  then show ?case using b(1) c nx by (auto simp: resolve_params_def eff_simps)
qed

lemma resolve_param_explicit: "explicit_kept J a (snd (resolve_param J C k n x a))"
proof (cases "\<exists>legs q. jelems J a = Inr legs \<and> k < length legs \<and> cl_resolve_auto C n x (legs ! k) = Inr q")
  case True
  then obtain legs q where q: "jelems J a = Inr legs" "k < length legs" "cl_resolve_auto C n x (legs ! k) = Inr q"
    by blast
  have "jat J (legs[k := q] ! i) m = Inr v" if "i < length legs" "jat J (legs ! i) m = Inr v" "\<not> is_auto J v" for i m v
    using that resolve_explicit [OF q(3)] by (cases "i = k") auto
  with q elems_update [OF q(1,2)] show ?thesis by (simp add: resolve_param_def explicit_kept_def)
next
  case False
  then show ?thesis by (auto simp: resolve_param_def split: sum.splits)
qed

lemma resolve_params_explicit: "explicit_kept J a (snd (resolve_params J C k vals a))"
  unfolding resolve_params_def
  by (rule eforeach_invariant [where I = "explicit_kept J a"])
     (auto intro: explicit_kept_trans [OF _ resolve_param_explicit])

lemma rtp_auto_explicit: "explicit_kept J a (snd (cl_resolve_rtp_auto C t given a))"
  unfolding explicit_kept_def using rtp_explicit by (metis prod.collapse)

text \<open>One step of the resolver: a leg is resolved, or nothing happens.\<close>

lemma resolve_step:
  assumes "jelems J a = Inr legs" "distinct (map fst vals)"
    and "cond \<Longrightarrow> k < length legs \<and> jtype J (legs ! k) = JObject \<and> (\<forall>n \<in> fst ` set vals. jhas_field J (legs ! k) n)"
  shows "\<exists>b legs'. (if cond then resolve_params J C k vals else eret ()) a = (Inr (), b) \<and>
    jelems J b = Inr legs' \<and> length legs' = length legs \<and>
    (\<forall>j < length legs. if cond \<and> j = k then leg_resolved J vals (legs ! j) (legs' ! j) else legs' ! j = legs ! j)"
proof (cases cond)
  case True
  with assms(3) have k: "k < length legs" "jtype J (legs ! k) = JObject" "\<forall>n \<in> fst ` set vals. jhas_field J (legs ! k) n"
    by blast+
  from resolve_params_effect [OF assms(1) k assms(2)] obtain b q where
    "resolve_params J C k vals a = (Inr (), b)" "jelems J b = Inr (legs[k := q])" "leg_resolved J vals (legs ! k) q"
    by blast
  with True k(1) show ?thesis by (intro exI [of _ b] exI [of _ "legs[k := q]"]) auto
qed (use assms(1) in \<open>auto simp: eff_simps\<close>)

end

text \<open>The parameters the resolver gives the legs.\<close>

definition sender_leg_auto :: "('v, 'x) json_lib_scheme \<Rightarrow> runtime_interface_selection \<Rightarrow> auto_defaults \<Rightarrow> nat \<Rightarrow> (string \<times> 'v) list" where
  "sender_leg_auto J selection d k =
     [(''source_ip'', jstring J (il_ip (if k = 0 then is_primary selection else is_redundancy selection))),
      (''destination_ip'', jstring J (if k = 0 then ad_ip d else ad_redudancy_ip d))]"

definition receiver_leg_auto :: "('v, 'x) json_lib_scheme \<Rightarrow> runtime_interface_selection \<Rightarrow> auto_defaults \<Rightarrow> nat \<Rightarrow> (string \<times> 'v) list" where
  "receiver_leg_auto J selection d k =
     (if k = 0
      then [(''multicast_ip'', jstring J (ad_ip d)), (''source_ip'', jstring J []),
            (''destination_port'', jint J (ad_port d)), (''interface_ip'', jstring J (il_ip (is_primary selection)))]
      else [(''multicast_ip'', jstring J (ad_redudancy_ip d)), (''destination_port'', jint J (ad_redudancy_port d)),
            (''interface_ip'', jstring J (il_ip (is_redundancy selection)))])"

abbreviation auto_selection :: "host_interface list \<Rightarrow> auto_defaults \<Rightarrow> runtime_interface_selection" where
  "auto_selection interfaces d \<equiv>
     select_runtime_interfaces interfaces (ad_source_ip d) (ad_redudancy_source_ip d) (ad_smpte2022_7 d)"

text \<open>The legs before and after: the first, and the second of a stream with redundancy, are resolved.\<close>

definition legs_resolved ::
    "('v, 'x) json_lib_scheme \<Rightarrow> (nat \<Rightarrow> (string \<times> 'v) list) \<Rightarrow> bool \<Rightarrow> 'v list \<Rightarrow> 'v list \<Rightarrow> bool" where
  "legs_resolved J vals redundant legs legs' \<longleftrightarrow> length legs' = length legs \<and>
     (\<forall>k < length legs. if k = 0 \<or> k = 1 \<and> redundant then leg_resolved J (vals k) (legs ! k) (legs' ! k)
                         else legs' ! k = legs ! k)"

context auto_library
begin

lemma resolve_sender_effect:
  assumes legs: "jelems J a = Inr legs" "legs \<noteq> []"
    and leg: "\<forall>p \<in> set legs. jtype J p = JObject \<and> jhas_field J p ''source_ip'' \<and> jhas_field J p ''destination_ip''"
  shows "\<exists>b legs'. resolve_sender_auto J C interfaces d (1 < length legs) a =
      cl_resolve_rtp_auto C ''sender'' (Some (ad_port d)) b \<and> jelems J b = Inr legs' \<and>
      legs_resolved J (sender_leg_auto J (auto_selection interfaces d) d) (ad_smpte2022_7 d) legs legs'"
proof -
  let ?s = "auto_selection interfaces d"
  let ?two = "ad_smpte2022_7 d \<and> 1 < length legs"
  have L: "k < length legs \<Longrightarrow> jtype J (legs ! k) = JObject \<and> jhas_field J (legs ! k) ''source_ip'' \<and>
      jhas_field J (legs ! k) ''destination_ip''" for k using leg by simp
  have zero: "0 < length legs" using legs(2) by simp
  let ?v1 = "[(''source_ip'', jstring J (il_ip (is_primary ?s)))]"
  obtain b l1 where 1: "resolve_params J C 0 ?v1 a = (Inr (), b)" "jelems J b = Inr l1" "length l1 = length legs"
    "\<forall>j < length legs. if j = 0 then leg_resolved J ?v1 (legs ! j) (l1 ! j) else l1 ! j = legs ! j"
    using resolve_step [OF legs(1), of ?v1 True 0] L [OF zero] zero by auto
  let ?v2 = "[(''source_ip'', jstring J (il_ip (is_redundancy ?s)))]"
  obtain c l2 where 2: "(if ?two then resolve_params J C 1 ?v2 else eret ()) b = (Inr (), c)" "jelems J c = Inr l2"
    "length l2 = length legs"
    "\<forall>j < length legs. if ?two \<and> j = 1 then leg_resolved J ?v2 (l1 ! j) (l2 ! j) else l2 ! j = l1 ! j"
    using resolve_step [OF 1(2), of ?v2 ?two 1] L [of 1] 1(3,4) by auto
  let ?v3 = "[(''destination_ip'', jstring J (ad_ip d))]"
  have at0: "leg_resolved J ?v1 (legs ! 0) (l2 ! 0)" using 1(4) 2(4) zero by auto
  with has_field_resolved [OF this] L [OF zero]
  have "jtype J (l2 ! 0) = JObject \<and> jhas_field J (l2 ! 0) ''destination_ip''" by (simp add: leg_resolved_def)
  then obtain e l3 where 3: "resolve_params J C 0 ?v3 c = (Inr (), e)" "jelems J e = Inr l3" "length l3 = length legs"
    "\<forall>j < length legs. if j = 0 then leg_resolved J ?v3 (l2 ! j) (l3 ! j) else l3 ! j = l2 ! j"
    using resolve_step [OF 2(2), of ?v3 True 0] 2(3) zero by auto
  let ?v4 = "[(''destination_ip'', jstring J (ad_redudancy_ip d))]"
  have at1: "leg_resolved J ?v2 (legs ! 1) (l3 ! 1)" if ?two using that 1(4) 2(4) 3(4) by auto
  have "jtype J (l3 ! 1) = JObject \<and> jhas_field J (l3 ! 1) ''destination_ip''" if ?two
    using at1 [OF that] has_field_resolved [OF at1 [OF that]] L [of 1] that by (simp add: leg_resolved_def)
  then obtain f l4 where 4: "(if ?two then resolve_params J C 1 ?v4 else eret ()) e = (Inr (), f)" "jelems J f = Inr l4"
    "length l4 = length legs"
    "\<forall>j < length legs. if ?two \<and> j = 1 then leg_resolved J ?v4 (l3 ! j) (l4 ! j) else l4 ! j = l3 ! j"
    using resolve_step [OF 3(2), of ?v4 ?two 1] 3(3) by auto
  have "legs_resolved J (sender_leg_auto J ?s d) (ad_smpte2022_7 d) legs l4"
    unfolding legs_resolved_def
  proof (intro conjI allI impI)
    show "length l4 = length legs" by (rule 4(3))
    fix k
    assume k: "k < length legs"
    consider "k = 0" | "k = 1" "ad_smpte2022_7 d" | "k \<noteq> 0" "\<not> (k = 1 \<and> ad_smpte2022_7 d)" by blast
    then show "if k = 0 \<or> k = 1 \<and> ad_smpte2022_7 d then leg_resolved J (sender_leg_auto J ?s d k) (legs ! k) (l4 ! k)
        else l4 ! k = legs ! k"
    proof cases
      case 1
      then have "leg_resolved J ?v3 (l2 ! 0) (l4 ! 0)" using 3(4) 4(4) zero by auto
      from leg_resolved_append [OF at0 this] 1 show ?thesis by (simp add: sender_leg_auto_def)
    next
      case 2
      with k have two: ?two by simp
      then have "leg_resolved J ?v4 (l3 ! 1) (l4 ! 1)" using 4(4) by auto
      from leg_resolved_append [OF at1 [OF two] this] 2 show ?thesis by (simp add: sender_leg_auto_def)
    next
      case 3
      then have "l4 ! k = l3 ! k" "l3 ! k = l2 ! k" "l2 ! k = l1 ! k" "l1 ! k = legs ! k"
        using k 1 2 \<open>\<forall>j < length legs. if j = 0 then leg_resolved J ?v3 (l2 ! j) (l3 ! j) else l3 ! j = l2 ! j\<close> 4(4)
        by auto
      with 3 show ?thesis by auto
    qed
  qed
  moreover have "resolve_sender_auto J C interfaces d (1 < length legs) a = cl_resolve_rtp_auto C ''sender'' (Some (ad_port d)) f"
    using 1(1) 2(1) 3(1) 4(1) by (simp add: resolve_sender_auto_def eff_simps Let_def split del: if_split)
  ultimately show ?thesis using 4(2) by blast
qed

lemma resolve_receiver_effect:
  assumes legs: "jelems J a = Inr legs" "legs \<noteq> []"
    and leg: "\<forall>p \<in> set legs. jtype J p = JObject \<and>
      (\<forall>n \<in> {''multicast_ip'', ''source_ip'', ''destination_port'', ''interface_ip''}. jhas_field J p n)"
  shows "\<exists>b legs'. resolve_receiver_auto J C interfaces d (1 < length legs) a =
      cl_resolve_rtp_auto C ''receiver'' None b \<and> jelems J b = Inr legs' \<and>
      legs_resolved J (receiver_leg_auto J (auto_selection interfaces d) d) (ad_smpte2022_7 d) legs legs'"
proof -
  let ?s = "auto_selection interfaces d"
  let ?two = "ad_smpte2022_7 d \<and> 1 < length legs"
  let ?v = "receiver_leg_auto J ?s d"
  have L: "k < length legs \<Longrightarrow> jtype J (legs ! k) = JObject \<and>
      (\<forall>n \<in> {''multicast_ip'', ''source_ip'', ''destination_port'', ''interface_ip''}. jhas_field J (legs ! k) n)" for k
    using leg by simp
  have zero: "0 < length legs" using legs(2) by simp
  have names: "distinct (map fst (?v k))" for k by (simp add: receiver_leg_auto_def)
  have F: "\<forall>n \<in> fst ` set (?v k). jhas_field J (legs ! j) n" if "j < length legs" for j k
    using L [OF that] by (simp add: receiver_leg_auto_def)
  obtain b l1 where 1: "resolve_params J C 0 (?v 0) a = (Inr (), b)" "jelems J b = Inr l1" "length l1 = length legs"
    "\<forall>j < length legs. if j = 0 then leg_resolved J (?v 0) (legs ! j) (l1 ! j) else l1 ! j = legs ! j"
    using resolve_step [OF legs(1) names, of True 0 0] L [OF zero] zero F [OF zero, of 0] by auto
  have at1: "l1 ! 1 = legs ! 1" if ?two using 1(4) that by auto
  obtain c l2 where 2: "(if ?two then resolve_params J C 1 (?v 1) else eret ()) b = (Inr (), c)" "jelems J c = Inr l2"
    "length l2 = length legs"
    "\<forall>j < length legs. if ?two \<and> j = 1 then leg_resolved J (?v 1) (l1 ! j) (l2 ! j) else l2 ! j = l1 ! j"
    using resolve_step [OF 1(2) names, of ?two 1 1] L [of 1] 1(3) at1 F [of 1 1] by auto
  have "legs_resolved J ?v (ad_smpte2022_7 d) legs l2"
    using 1(4) 2(3,4) by (auto simp: legs_resolved_def)
  moreover have "resolve_receiver_auto J C interfaces d (1 < length legs) a = cl_resolve_rtp_auto C ''receiver'' None c"
    using 1(1) 2(1)
    by (simp add: resolve_receiver_auto_def eff_simps Let_def receiver_leg_auto_def cong: if_cong split del: if_split)
  ultimately show ?thesis using 2(2) by blast
qed

end

section \<open>Explicit parameters\<close>

definition keeps_explicit :: "('v, 'x) json_lib_scheme \<Rightarrow> ('v, unit) eff \<Rightarrow> bool" where
  "keeps_explicit J m \<longleftrightarrow> (\<forall>a. explicit_kept J a (snd (m a)))"

lemma keeps_explicit_eret: "keeps_explicit J (eret ())"
  by (simp add: keeps_explicit_def eff_simps)

lemma keeps_explicit_eseq: "keeps_explicit J m \<Longrightarrow> keeps_explicit J n \<Longrightarrow> keeps_explicit J (eseq m n)"
  unfolding keeps_explicit_def
  by (auto simp: eff_simps split: prod.splits sum.splits) (metis explicit_kept_trans snd_conv)+

context auto_library
begin

lemma keeps_explicit_params: "keeps_explicit J (resolve_params J C k vals)"
  by (simp add: keeps_explicit_def resolve_params_explicit)

lemma keeps_explicit_rtp: "keeps_explicit J (cl_resolve_rtp_auto C t given)"
  by (simp add: keeps_explicit_def rtp_auto_explicit)

lemmas keeps_explicit_steps = keeps_explicit_eseq keeps_explicit_eret keeps_explicit_params keeps_explicit_rtp

lemma auto_resolver_explicit: "explicit_kept J a (snd (auto_resolver J L C s r a))"
proof -
  have "keeps_explicit J (resolve_sender_auto J C interfaces d two)"
    "keeps_explicit J (resolve_receiver_auto J C interfaces d two)" for interfaces d two
    unfolding resolve_sender_auto_def resolve_receiver_auto_def Let_def
    by (simp_all add: keeps_explicit_steps)
  then show ?thesis by (auto simp: auto_resolver_def keeps_explicit_def split: sum.split)
qed

end

section \<open>Whose parameters are taken\<close>

lemma find_same: "(\<And>x. x \<in> set xs \<Longrightarrow> P x = Q x) \<Longrightarrow> List.find P xs = List.find Q xs"
  by (induction xs) auto

lemma find_none: "(\<And>x. x \<in> set xs \<Longrightarrow> \<not> P x) \<Longrightarrow> List.find P xs = None"
  by (induction xs) auto

context resource_store
begin

lemma make_id_port_neq:
  "make_id L seed ty port_video i \<noteq> make_id L seed ty port_audio j"
  "make_id L seed ty port_video i \<noteq> make_id L seed ty port_data j"
  "make_id L seed ty port_audio i \<noteq> make_id L seed ty port_data j"
  by (simp_all add: make_id_def id_inj port_video_def port_audio_def port_data_def)

lemmas make_id_neq = make_id_port_neq make_id_port_neq [symmetric]

lemma sender_defaults_cached:
  assumes "node_good L s"
  shows "sender_defaults s (make_id L (nd_seed_id s) ''sender'' port_video i) = overwrite auto_defaults_none
      (\<lambda>v. sender_auto (vs_source_ip v) (vs_ip v) (vs_port v) (vs_redudancy v)) (find_by_id vs_id (nd_video_senders s) i)"
    and "sender_defaults s (make_id L (nd_seed_id s) ''sender'' port_audio i) = overwrite auto_defaults_none
      (\<lambda>v. sender_auto (as_source_ip v) (as_ip v) (as_port v) (as_redudancy v)) (find_by_id as_id (nd_audio_senders s) i)"
    and "sender_defaults s (make_id L (nd_seed_id s) ''sender'' port_data i) = overwrite auto_defaults_none
      (\<lambda>v. sender_auto (ns_source_ip v) (ns_ip v) (ns_port v) (ns_redudancy v)) (find_by_id ns_id (nd_ancillary_senders s) i)"
proof -
  have own: "v \<in> set (nd_video_senders s) \<Longrightarrow> vs_sender_id v = make_id L (nd_seed_id s) ''sender'' port_video (vs_id v)"
    "u \<in> set (nd_audio_senders s) \<Longrightarrow> as_sender_id u = make_id L (nd_seed_id s) ''sender'' port_audio (as_id u)"
    "w \<in> set (nd_ancillary_senders s) \<Longrightarrow> ns_sender_id w = make_id L (nd_seed_id s) ''sender'' port_data (ns_id w)"
    for v u w using assms by (simp_all add: node_good_def cache_good_def list_all_iff)
  show "sender_defaults s (make_id L (nd_seed_id s) ''sender'' port_video i) = overwrite auto_defaults_none
      (\<lambda>v. sender_auto (vs_source_ip v) (vs_ip v) (vs_port v) (vs_redudancy v)) (find_by_id vs_id (nd_video_senders s) i)"
    "sender_defaults s (make_id L (nd_seed_id s) ''sender'' port_audio i) = overwrite auto_defaults_none
      (\<lambda>v. sender_auto (as_source_ip v) (as_ip v) (as_port v) (as_redudancy v)) (find_by_id as_id (nd_audio_senders s) i)"
    "sender_defaults s (make_id L (nd_seed_id s) ''sender'' port_data i) = overwrite auto_defaults_none
      (\<lambda>v. sender_auto (ns_source_ip v) (ns_ip v) (ns_port v) (ns_redudancy v)) (find_by_id ns_id (nd_ancillary_senders s) i)"
    by (simp_all add: own make_id_inj make_id_neq overwrite_def sender_defaults_def find_resource_defs find_by_id_def find_none cong: find_same)
qed

lemma receiver_defaults_cached:
  "receiver_defaults L s (make_id L (nd_seed_id s) ''receiver'' port_video i) = overwrite auto_defaults_none
     (\<lambda>v. receiver_auto (vr_source_ip v) (vr_ip v) (vr_port v) (vr_redudancy v)) (find_by_id vr_id (nd_video_receivers s) i)"
  "receiver_defaults L s (make_id L (nd_seed_id s) ''receiver'' port_audio i) = overwrite auto_defaults_none
     (\<lambda>v. receiver_auto (ar_source_ip v) (ar_ip v) (ar_port v) (ar_redudancy v)) (find_by_id ar_id (nd_audio_receivers s) i)"
  "receiver_defaults L s (make_id L (nd_seed_id s) ''receiver'' port_data i) = overwrite auto_defaults_none
     (\<lambda>v. receiver_auto (nr_source_ip v) (nr_ip v) (nr_port v) (nr_redudancy v)) (find_by_id nr_id (nd_ancillary_receivers s) i)"
  by (simp_all add: make_id_inj make_id_neq overwrite_def receiver_defaults_def find_resource_defs find_by_id_def find_none cong: find_same)

end

text \<open>The same for a stream of any kind; the identity of its resource.\<close>

fun is_receiver :: "stream_kind \<Rightarrow> bool" where
  "is_receiver Video_receiver = True" | "is_receiver Audio_receiver = True" | "is_receiver Ancillary_receiver = True"
| "is_receiver Video_sender = False" | "is_receiver Audio_sender = False" | "is_receiver Ancillary_sender = False"

definition kind_type :: "stream_kind \<Rightarrow> string" where
  "kind_type k = (if is_receiver k then ''receiver'' else ''sender'')"

fun kind_port :: "stream_kind \<Rightarrow> string" where
  "kind_port Video_receiver = port_video" | "kind_port Audio_receiver = port_audio" | "kind_port Ancillary_receiver = port_data"
| "kind_port Video_sender = port_video" | "kind_port Audio_sender = port_audio" | "kind_port Ancillary_sender = port_data"

definition stream_resource_id :: "('v, 'rs, 'y) nmos_lib_scheme \<Rightarrow> ('v, 'rs) node \<Rightarrow> stream_kind \<Rightarrow> string \<Rightarrow> string" where
  "stream_resource_id L s k i = make_id L (nd_seed_id s) (kind_type k) (kind_port k) i"

fun stream_auto :: "stream \<Rightarrow> auto_defaults" where
  "stream_auto (VR v) = receiver_auto (vr_source_ip v) (vr_ip v) (vr_port v) (vr_redudancy v)"
| "stream_auto (AR v) = receiver_auto (ar_source_ip v) (ar_ip v) (ar_port v) (ar_redudancy v)"
| "stream_auto (NR v) = receiver_auto (nr_source_ip v) (nr_ip v) (nr_port v) (nr_redudancy v)"
| "stream_auto (VS v) = sender_auto (vs_source_ip v) (vs_ip v) (vs_port v) (vs_redudancy v)"
| "stream_auto (AS v) = sender_auto (as_source_ip v) (as_ip v) (as_port v) (as_redudancy v)"
| "stream_auto (NS v) = sender_auto (ns_source_ip v) (ns_ip v) (ns_port v) (ns_redudancy v)"

definition stream_leg_auto ::
    "('v, 'x) json_lib_scheme \<Rightarrow> stream_kind \<Rightarrow> host_interface list \<Rightarrow> auto_defaults \<Rightarrow> nat \<Rightarrow> (string \<times> 'v) list" where
  "stream_leg_auto J k interfaces d =
     (if is_receiver k then receiver_leg_auto J (auto_selection interfaces d) d
      else sender_leg_auto J (auto_selection interfaces d) d)"

definition auto_fields :: "stream_kind \<Rightarrow> string set" where
  "auto_fields k = (if is_receiver k then {''multicast_ip'', ''source_ip'', ''destination_port'', ''interface_ip''}
                    else {''source_ip'', ''destination_ip''})"

context resource_store
begin

lemma defaults_of_stream:
  assumes "node_good L s" "node_stream s k i = Some x"
  shows "is_receiver k \<Longrightarrow> receiver_defaults L s (stream_resource_id L s k i) = stream_auto x"
    and "\<not> is_receiver k \<Longrightarrow> sender_defaults s (stream_resource_id L s k i) = stream_auto x"
  using assms(2)
  by (cases k; auto simp: stream_resource_id_def kind_type_def receiver_defaults_cached
        sender_defaults_cached [OF assms(1)] view_defs cached_view_def overwrite_def obs_defs)+

end

section \<open>Legs of transport files\<close>

lemma nat_to_string_nonempty: "nat_to_string n \<noteq> []"
  by (subst nat_to_string.simps) simp

lemma digit_inj: "a < 10 \<Longrightarrow> b < 10 \<Longrightarrow> (char_of (48 + a) :: char) = char_of (48 + b) \<longleftrightarrow> a = (b :: nat)"
proof -
  assume "a < 10" "b < 10"
  then have "(of_char (char_of (48 + a) :: char) :: nat) = 48 + a" "(of_char (char_of (48 + b) :: char) :: nat) = 48 + b"
    by simp_all
  then show ?thesis by (metis add_left_cancel)
qed

lemma nat_to_string_inj: "nat_to_string m = nat_to_string n \<Longrightarrow> m = n"
proof (induction m arbitrary: n rule: less_induct)
  case (less m)
  have m: "nat_to_string m = (if m < 10 then [char_of (48 + m)] else nat_to_string (m div 10) @ [char_of (48 + m mod 10)])"
    and n: "nat_to_string n = (if n < 10 then [char_of (48 + n)] else nat_to_string (n div 10) @ [char_of (48 + n mod 10)])"
    by (subst nat_to_string.simps, simp)+
  show ?case
  proof (cases "m < 10 \<or> n < 10")
    case True
    with less.prems m n show ?thesis
      by (auto simp: nat_to_string_nonempty nat_to_string_nonempty [symmetric] digit_inj append_eq_Cons_conv
          split: if_splits)
  next
    case False
    with less.prems m n have "nat_to_string (m div 10) = nat_to_string (n div 10)"
      "(char_of (48 + m mod 10) :: char) = char_of (48 + n mod 10)" by simp_all
    with less.IH [of "m div 10" "n div 10"] False have "m div 10 = n div 10" "m mod 10 = n mod 10"
      by (simp_all add: digit_inj)
    then show ?thesis by (metis mult_div_mod_eq)
  qed
qed

lemma media_stream_ids_distinct: "distinct (map media_stream_id [0..<n])"
  by (auto simp: distinct_map inj_on_def media_stream_id_def split: if_splits dest: nat_to_string_inj)

text \<open>A leg after the check of its destination: a valid one is kept, any other becomes \<open>0.0.0.0\<close>.\<close>

definition leg_destination_valid :: "os \<Rightarrow> ('v, 'x) json_lib_scheme \<Rightarrow> 'v \<Rightarrow> 'v \<Rightarrow> bool" where
  "leg_destination_valid O' J old new \<longleftrightarrow> jtype J new = JObject \<and>
     (\<forall>m. m \<noteq> ''destination_ip'' \<longrightarrow> jat J new m = jat J old m) \<and>
     (if \<exists>v ip. jat J old ''destination_ip'' = Inr v \<and> jas_string J v = Inr ip \<and> is_valid_ip_literal O' ip
      then jat J new ''destination_ip'' = jat J old ''destination_ip''
      else jat J new ''destination_ip'' = Inr (jstring J ''0.0.0.0''))"

context json_api
begin

lemma destination_made_valid:
  assumes p: "jtype J p = JObject"
  shows "\<exists>q. transport_param_with_valid_destination_ip O' J p = Inr q \<and> leg_destination_valid O' J p q"
proof (cases "\<exists>v ip. jat J p ''destination_ip'' = Inr v \<and> jas_string J v = Inr ip \<and> is_valid_ip_literal O' ip")
  case True
  then obtain v ip where v: "jat J p ''destination_ip'' = Inr v" "jas_string J v = Inr ip" "is_valid_ip_literal O' ip"
    by blast
  then have "jtype J v = JString" using as_string_other [of v] by auto
  with v p have "transport_param_with_valid_destination_ip O' J p = Inr p"
    by (simp add: transport_param_with_valid_destination_ip_def has_field_iff)
  with True p show ?thesis by (simp add: leg_destination_valid_def)
next
  case False
  let ?q = "jset J p ''destination_ip'' (jstring J ''0.0.0.0'')"
  have "leg_destination_valid O' J p ?q"
    unfolding leg_destination_valid_def if_not_P [OF False] using p by (simp add: at_set type_set)
  moreover have "transport_param_with_valid_destination_ip O' J p = Inr ?q"
  proof (cases "jat J p ''destination_ip''")
    case (Inr v)
    then show ?thesis using p False as_string_string [of v]
      by (cases "jtype J v = JString") (auto simp: transport_param_with_valid_destination_ip_def has_field_iff)
  qed (use p in \<open>simp add: transport_param_with_valid_destination_ip_def has_field_iff\<close>)
  ultimately show ?thesis by blast
qed

lemma valid_transport_params_loop:
  assumes "\<forall>p \<in> set legs. jtype J p = JObject" "jelems J acc = Inr before"
  shows "\<exists>b legs'. rfold_index (\<lambda>leg p acc. rbind (transport_param_with_valid_destination_ip O' J p)
      (\<lambda>valid. Inr (jset_index J acc leg valid))) (length before) legs acc = Inr b \<and>
    jelems J b = Inr (before @ legs') \<and> list_all2 (leg_destination_valid O' J) legs legs'"
  using assms
proof (induction legs arbitrary: before acc)
  case Nil
  then show ?case by auto
next
  case (Cons p legs)
  from Cons.prems(1) destination_made_valid [of p O'] obtain q where
    q: "transport_param_with_valid_destination_ip O' J p = Inr q" "leg_destination_valid O' J p q" by auto
  from Cons.IH [of "jset_index J acc (length before) q" "before @ [q]"] Cons.prems
    elems_append [OF Cons.prems(2), of q]
  obtain b legs' where "rfold_index (\<lambda>leg p acc. rbind (transport_param_with_valid_destination_ip O' J p)
      (\<lambda>valid. Inr (jset_index J acc leg valid))) (Suc (length before)) legs (jset_index J acc (length before) q) = Inr b"
    "jelems J b = Inr (before @ q # legs')" "list_all2 (leg_destination_valid O' J) legs legs'" by auto
  with q show ?case by (intro exI [of _ b] exI [of _ "q # legs'"]) simp
qed

lemma valid_transport_params_effect:
  assumes "jelems J a = Inr legs" "\<forall>p \<in> set legs. jtype J p = JObject"
  shows "\<exists>b legs'. valid_transport_params O' J a = Inr b \<and> jelems J b = Inr legs' \<and>
    list_all2 (leg_destination_valid O' J) legs legs'"
  using valid_transport_params_loop [OF assms(2), of "jarray J" "[]" O'] assms(1) elems_iff
  by (auto simp: valid_transport_params_def)

lemma media_stream_ids_effect:
  assumes "jelems J a = Inr legs"
  shows "media_stream_ids J a = Inr (if length legs < 2 then [] else map media_stream_id [0..<length legs])"
  using assms elems_iff by (auto simp: media_stream_ids_def)

end

section \<open>The resolver on a cached stream\<close>

lemma resolver_effect:
  assumes "auto_library J C" "resource_store L ids" "node_good L s" "node_stream s k i = Some x"
    and "re_id r = stream_resource_id L s k i" "re_type r = kind_type k"
    and "jelems J a = Inr legs" "legs \<noteq> []"
    and "\<forall>p \<in> set legs. jtype J p = JObject \<and> (\<forall>n \<in> auto_fields k. jhas_field J p n)"
  shows "\<exists>b legs'. auto_resolver J L C s r a =
      cl_resolve_rtp_auto C (kind_type k) (if is_receiver k then None else Some (ad_port (stream_auto x))) b \<and>
    jelems J b = Inr legs' \<and>
    legs_resolved J (stream_leg_auto J k (nd_runtime_interfaces s) (stream_auto x)) (ad_smpte2022_7 (stream_auto x)) legs legs'"
proof -
  have "json_api J" using assms(1) by (simp add: auto_library_def)
  then have arr: "jtype J a = JArray" using json_api.elems_iff [of J a] assms(7) by simp
  note d = resource_store.defaults_of_stream [OF assms(2-4)]
  have run: "auto_resolver J L C s r a =
      (if is_receiver k then resolve_receiver_auto J C (nd_runtime_interfaces s) (stream_auto x) (1 < length legs) a
       else resolve_sender_auto J C (nd_runtime_interfaces s) (stream_auto x) (1 < length legs) a)"
    using assms(5-8) arr d by (cases "is_receiver k") (simp_all add: auto_resolver_def kind_type_def)
  show ?thesis
  proof (cases "is_receiver k")
    case True
    with assms(9) have "\<forall>p \<in> set legs. jtype J p = JObject \<and>
        (\<forall>n \<in> {''multicast_ip'', ''source_ip'', ''destination_port'', ''interface_ip''}. jhas_field J p n)"
      by (simp add: auto_fields_def)
    from auto_library.resolve_receiver_effect [OF assms(1,7,8) this] True run
    show ?thesis by (simp add: kind_type_def stream_leg_auto_def)
  next
    case False
    with assms(9) have "\<forall>p \<in> set legs. jtype J p = JObject \<and> jhas_field J p ''source_ip'' \<and> jhas_field J p ''destination_ip''"
      by (simp add: auto_fields_def)
    from auto_library.resolve_sender_effect [OF assms(1,7,8) this] False run
    show ?thesis by (simp add: kind_type_def stream_leg_auto_def)
  qed
qed

section \<open>A concrete library\<close>

text \<open>SDP texts are media types here.\<close>

definition sample_rtp_auto :: "int32 option \<Rightarrow> doc \<Rightarrow> doc" where
  "sample_rtp_auto given leg =
     (if jat doc_lib leg ''destination_port'' = Inr (DStr ''auto'')
      then jset doc_lib leg ''destination_port'' (jint doc_lib (case given of Some port \<Rightarrow> port | None \<Rightarrow> 5004))
      else leg)"

definition sample_conn :: "(doc, string, sdp_kind, int32) connection_lib" where
  "sample_conn =
     \<lparr> cl_field = (\<lambda>n v. jat doc_lib v n),
       cl_text = (\<lambda>n v. rbind (jat doc_lib v n) (jas_string doc_lib)),
       cl_master_enable = (\<lambda>v. rbind (jat doc_lib v ''master_enable'') (jas_bool doc_lib)),
       cl_resolve_auto = (\<lambda>n x v. rbind (jat doc_lib v n) (\<lambda>w. Inr (if w = DStr ''auto'' then jset doc_lib v n x else v))),
       cl_resolve_rtp_auto = (\<lambda>t given. emod (\<lambda>v. case v of DArr legs \<Rightarrow> DArr (map (sample_rtp_auto given) legs) | _ \<Rightarrow> v)),
       cl_parse_sdp = Inr,
       cl_media_type = (\<lambda>p. p),
       cl_video_raw = (\<lambda>_. Inr \<lparr> vp_width = 1920, vp_height = 1080, vp_exactframerate = 25, vp_interlace = False,
                                 vp_colorimetry = ''BT709'', vp_tcs = ''SDR'' \<rparr>),
       cl_video_jxsv = (\<lambda>_. Inr (''BT709'', ''SDR'')),
       cl_audio_L = (\<lambda>_. Inr (2, 24, 48000, 1)),
       cl_serialize = (\<lambda>_. []),
       cl_make_parameters = (\<lambda>kind node source flow sender. Inr kind),
       cl_make_ts_refclk = (\<lambda>node source sender domain. Inr domain),
       cl_make_sdp_parameters = (\<lambda>kind name params ids clock. Inr (concat ids)),
       cl_session_description = (\<lambda>p v. Inr p),
       cl_sender_transportfile = DStr \<rparr>"

lemma doc_is_auto: "is_auto doc_lib v \<longleftrightarrow> v = DStr ''auto''"
  by (cases v) (auto simp: is_auto_def doc_lib_def doc_mismatch_def)

lemma doc_elems_iff: "jelems doc_lib v = Inr xs \<longleftrightarrow> v = DArr xs"
  by (cases v) (simp_all add: doc_lib_def)

lemma sample_rtp_explicit:
  "jat doc_lib leg m = Inr v \<Longrightarrow> v \<noteq> DStr ''auto'' \<Longrightarrow> jat doc_lib (sample_rtp_auto given leg) m = Inr v"
  by (auto simp: sample_rtp_auto_def doc_lib_def map_of_doc_upd split: option.splits)

interpretation sample_auto: auto_library doc_lib sample_conn
proof
  fix param :: doc and name v x
  assume p: "jtype doc_lib param = JObject" and v: "jat doc_lib param name = Inr v"
  show "\<exists>q. cl_resolve_auto sample_conn name x param = Inr q \<and> jtype doc_lib q = JObject \<and>
      jat doc_lib q name = Inr (if is_auto doc_lib v then x else v) \<and>
      (\<forall>m. m \<noteq> name \<longrightarrow> jat doc_lib q m = jat doc_lib param m)"
    using p v doc.at_set [OF p, of name x] doc.type_set [OF p, of name x]
    by (cases "v = DStr ''auto''") (simp_all add: sample_conn_def doc_is_auto)
next
  fix name m and x param q v :: doc
  assume "cl_resolve_auto sample_conn name x param = Inr q" "jat doc_lib param m = Inr v" "\<not> is_auto doc_lib v"
  then show "jat doc_lib q m = Inr v"
    using doc.at_set [of param name x] doc.has_field_object [of param m] doc.has_field_iff [of param m]
    by (auto simp: sample_conn_def doc_is_auto rbind_Inr_iff split: if_splits)
next
  fix a :: doc and legs t given and r :: "exc + unit" and b
  assume "jelems doc_lib a = Inr legs" "cl_resolve_rtp_auto sample_conn t given a = (r, b)"
  then have "jelems doc_lib b = Inr (map (sample_rtp_auto given) legs)"
    by (auto simp: doc_elems_iff sample_conn_def emod_def)
  then show "\<exists>legs'. jelems doc_lib b = Inr legs' \<and> length legs' = length legs \<and>
      (\<forall>k < length legs. \<forall>m v. jat doc_lib (legs ! k) m = Inr v \<longrightarrow> \<not> is_auto doc_lib v \<longrightarrow> jat doc_lib (legs' ! k) m = Inr v)"
    by (auto simp: doc_is_auto sample_rtp_explicit)
next
  fix a :: doc and legs port b legs' k v
  assume "jelems doc_lib a = Inr legs" "cl_resolve_rtp_auto sample_conn ''sender'' (Some port) a = (Inr (), b)"
    "jelems doc_lib b = Inr legs'" "k < length legs" "jat doc_lib (legs ! k) ''destination_port'' = Inr v" "is_auto doc_lib v"
  then show "jat doc_lib (legs' ! k) ''destination_port'' = Inr (jint doc_lib port)"
    using doc.at_set [of "legs ! k" "''destination_port''"] doc.has_field_object [of "legs ! k" "''destination_port''"]
      doc.has_field_iff [of "legs ! k" "''destination_port''"]
    by (auto simp: doc_elems_iff sample_conn_def emod_def doc_is_auto sample_rtp_auto_def)
qed

definition sample_auto_sender :: ancillary_sender where
  "sample_auto_sender = sample_bad_sender
     \<lparr> ns_sender_id := make_id sample_lib ''s'' ''sender'' port_data ''x'', ns_ip := ''239.0.0.1'', ns_port := 5004,
       ns_redudancy := (redudancy_default 5006)\<lparr> rd_present := True, rd_ip := ''239.0.0.2'' \<rparr> \<rparr>"

definition sample_auto_node :: "(doc, doc resource list) node" where
  "sample_auto_node = sample_node\<lparr> nd_ancillary_senders := [sample_auto_sender] \<rparr>"

definition sample_auto_leg :: doc where
  "sample_auto_leg = DObj [(''source_ip'', DStr ''10.0.0.1''), (''destination_ip'', DStr ''auto''),
                           (''destination_port'', DStr ''auto'')]"

definition sample_auto_resource :: "doc resource" where
  "sample_auto_resource =
     \<lparr> re_id = make_id sample_lib ''s'' ''sender'' port_data ''x'', re_type = ''sender'', re_data = DNull \<rparr>"

lemma sample_auto_good: "node_good sample_lib sample_auto_node"
  by (simp add: node_good_def cache_good_def sample_auto_node_def sample_auto_sender_def sample_node_def sample_bad_sender_def)

lemma sample_auto_stream:
  "node_stream sample_auto_node Ancillary_sender ''x'' = Some (NS (ns_obs sample_auto_sender))"
  by (simp add: view_defs cached_view_def find_by_id_def sample_auto_node_def sample_auto_sender_def sample_bad_sender_def)

lemma sample_auto_id: "re_id sample_auto_resource = stream_resource_id sample_lib sample_auto_node Ancillary_sender ''x''"
  by (simp add: sample_auto_resource_def stream_resource_id_def kind_type_def sample_auto_node_def sample_node_def)

lemma sample_auto_elems: "jelems doc_lib (DArr xs) = Inr xs"
  by (simp add: doc_lib_def)

lemma sample_auto_leg_fields: "jtype doc_lib sample_auto_leg = JObject"
  "n \<in> auto_fields Ancillary_sender \<Longrightarrow> jhas_field doc_lib sample_auto_leg n"
  by (auto simp: sample_auto_leg_def auto_fields_def doc_lib_def)

section \<open>Properties\<close>

text \<open>
  C21. The resolver of \<open>auto\<close> parameters: for the connection of a cached stream of any kind, the first leg,
  and the second one of a stream with redundancy, take each \<open>auto\<close> parameter from the stream and the
  selected network interfaces, keep each explicit one and leave the other legs alone; what is left is
  passed to the library, for senders with the port of the primary leg.
\<close>
theorem auto_resolver_result:
  assumes "auto_library J C" "resource_store L ids" "node_good L s" "node_stream s k i = Some x"
    and "re_id r = stream_resource_id L s k i" "re_type r = kind_type k"
    and "jelems J a = Inr legs" "legs \<noteq> []"
    and "\<forall>p \<in> set legs. jtype J p = JObject \<and> (\<forall>n \<in> auto_fields k. jhas_field J p n)"
  shows "\<exists>b legs'. auto_resolver J L C s r a =
      cl_resolve_rtp_auto C (kind_type k) (if is_receiver k then None else Some (ad_port (stream_auto x))) b \<and>
    jelems J b = Inr legs' \<and>
    legs_resolved J (stream_leg_auto J k (nd_runtime_interfaces s) (stream_auto x)) (ad_smpte2022_7 (stream_auto x)) legs legs'"
  using resolver_effect [OF assms] .

theorem auto_resolver_result_witness:
  "\<exists>b legs'. auto_resolver doc_lib sample_lib sample_conn sample_auto_node sample_auto_resource (DArr [sample_auto_leg]) =
      cl_resolve_rtp_auto sample_conn ''sender'' (Some 5004) b \<and> jelems doc_lib b = Inr legs' \<and>
      jat doc_lib (legs' ! 0) ''destination_ip'' = Inr (jstring doc_lib ''239.0.0.1'')"
proof -
  let ?d = "stream_auto (NS (ns_obs sample_auto_sender))"
  have r: "re_type sample_auto_resource = kind_type Ancillary_sender"
    by (simp add: sample_auto_resource_def kind_type_def)
  have fields: "\<forall>p \<in> set [sample_auto_leg]. jtype doc_lib p = JObject \<and> (\<forall>n \<in> auto_fields Ancillary_sender. jhas_field doc_lib p n)"
    using sample_auto_leg_fields by simp
  obtain b legs' where b: "auto_resolver doc_lib sample_lib sample_conn sample_auto_node sample_auto_resource (DArr [sample_auto_leg]) =
      cl_resolve_rtp_auto sample_conn (kind_type Ancillary_sender)
        (if is_receiver Ancillary_sender then None else Some (ad_port ?d)) b" "jelems doc_lib b = Inr legs'"
    "legs_resolved doc_lib (stream_leg_auto doc_lib Ancillary_sender (nd_runtime_interfaces sample_auto_node) ?d)
       (ad_smpte2022_7 ?d) [sample_auto_leg] legs'"
    using auto_resolver_result [OF sample_auto.auto_library_axioms sample.resource_store_axioms sample_auto_good
      sample_auto_stream sample_auto_id r sample_auto_elems _ fields] by auto
  have d: "ad_ip ?d = ''239.0.0.1''" "ad_port ?d = 5004"
    by (simp_all add: sender_auto_def obs_defs sample_auto_sender_def)
  have "leg_resolved doc_lib (sender_leg_auto doc_lib (auto_selection (nd_runtime_interfaces sample_auto_node) ?d) ?d 0)
      sample_auto_leg (legs' ! 0)"
    using b(3) by (simp add: legs_resolved_def stream_leg_auto_def del: stream_auto.simps)
  moreover have "jat doc_lib sample_auto_leg ''destination_ip'' = Inr (DStr ''auto'')"
    by (simp add: sample_auto_leg_def doc_lib_def)
  ultimately have "jat doc_lib (legs' ! 0) ''destination_ip'' = Inr (jstring doc_lib ''239.0.0.1'')"
    by (auto simp: leg_resolved_def doc_is_auto sender_leg_auto_def d simp del: stream_auto.simps)
  with b d(2) show ?thesis by (auto simp: kind_type_def simp del: stream_auto.simps)
qed

text \<open>
  Whatever the resource, the state of the node and the outcome, the resolver never changes a
  parameter that was given explicitly, and never adds or removes a leg.
\<close>
theorem explicit_parameters_kept:
  assumes "auto_library J C" "jelems J a = Inr legs" "auto_resolver J L C s r a = (q, b)"
  shows "\<exists>legs'. jelems J b = Inr legs' \<and> length legs' = length legs \<and>
    (\<forall>k < length legs. \<forall>m v. jat J (legs ! k) m = Inr v \<longrightarrow> \<not> is_auto J v \<longrightarrow> jat J (legs' ! k) m = Inr v)"
  using auto_library.auto_resolver_explicit [OF assms(1), of a L s r] assms(2,3) by (simp add: explicit_kept_def)

theorem explicit_parameters_kept_witness:
  "\<exists>legs'. jelems doc_lib (snd (auto_resolver doc_lib sample_lib sample_conn sample_auto_node sample_auto_resource
      (DArr [sample_auto_leg]))) = Inr legs' \<and> jat doc_lib (legs' ! 0) ''source_ip'' = Inr (DStr ''10.0.0.1'')"
proof -
  obtain q b where run: "auto_resolver doc_lib sample_lib sample_conn sample_auto_node sample_auto_resource
      (DArr [sample_auto_leg]) = (q, b)" by fastforce
  from explicit_parameters_kept [OF sample_auto.auto_library_axioms sample_auto_elems this]
  obtain legs' where l: "jelems doc_lib b = Inr legs'"
    "\<forall>m v. jat doc_lib sample_auto_leg m = Inr v \<longrightarrow> \<not> is_auto doc_lib v \<longrightarrow> jat doc_lib (legs' ! 0) m = Inr v" by auto
  have "jat doc_lib sample_auto_leg ''source_ip'' = Inr (DStr ''10.0.0.1'')"
    by (simp add: sample_auto_leg_def doc_lib_def)
  with l have "jat doc_lib (legs' ! 0) ''source_ip'' = Inr (DStr ''10.0.0.1'')" by (simp add: doc_is_auto)
  with run l(1) show ?thesis by auto
qed

text \<open>
  The second leg of a sender with redundancy: an \<open>auto\<close> destination port becomes the port of the primary
  leg, whatever port the stream has configured for its redundant leg, while the address is the configured one.
\<close>
theorem sender_second_leg_port:
  assumes "auto_library J C" "resource_store L ids" "node_good L s" "node_stream s k i = Some x" "\<not> is_receiver k"
    and "re_id r = stream_resource_id L s k i" "re_type r = ''sender''" "ad_smpte2022_7 (stream_auto x)"
    and "jelems J a = Inr [leg1, leg2]"
    and "\<forall>p \<in> {leg1, leg2}. jtype J p = JObject \<and> (\<forall>n \<in> auto_fields k. jhas_field J p n)"
    and "jat J leg2 ''destination_ip'' = Inr v" "is_auto J v" "jat J leg2 ''destination_port'' = Inr w" "is_auto J w"
    and "ad_redudancy_ip (stream_auto x) \<noteq> ''auto''"
    and "auto_resolver J L C s r a = (Inr (), b)"
  shows "\<exists>legs'. jelems J b = Inr legs' \<and>
    jat J (legs' ! 1) ''destination_ip'' = Inr (jstring J (ad_redudancy_ip (stream_auto x))) \<and>
    jat J (legs' ! 1) ''destination_port'' = Inr (jint J (ad_port (stream_auto x)))"
proof -
  have k: "re_type r = kind_type k" using assms(5,7) by (simp add: kind_type_def)
  have f: "\<forall>p \<in> set [leg1, leg2]. jtype J p = JObject \<and> (\<forall>n \<in> auto_fields k. jhas_field J p n)"
    using assms(10) by simp
  have leg_vals: "stream_leg_auto J k ifs d 1 = sender_leg_auto J (auto_selection ifs d) d 1" for ifs d
    using assms(5) by (simp add: stream_leg_auto_def)
  from resolver_effect [OF assms(1-4,6) k assms(9) _ f] assms(5,8) obtain c m where
    run: "auto_resolver J L C s r a = cl_resolve_rtp_auto C ''sender'' (Some (ad_port (stream_auto x))) c"
    and c: "jelems J c = Inr m"
    and m: "legs_resolved J (stream_leg_auto J k (nd_runtime_interfaces s) (stream_auto x)) True [leg1, leg2] m"
    by (auto simp: kind_type_def)
  from m have m1: "length m = 2" by (simp add: legs_resolved_def)
  have "leg_resolved J (stream_leg_auto J k (nd_runtime_interfaces s) (stream_auto x) 1) ([leg1, leg2] ! 1) (m ! 1)"
    using m by (force simp: legs_resolved_def)
  then have m2: "leg_resolved J (sender_leg_auto J (auto_selection (nd_runtime_interfaces s) (stream_auto x))
      (stream_auto x) 1) leg2 (m ! 1)" by (simp only: leg_vals) simp
  have ip: "jat J (m ! 1) ''destination_ip'' = Inr (jstring J (ad_redudancy_ip (stream_auto x)))"
    and port: "jat J (m ! 1) ''destination_port'' = Inr w"
    using m2 assms(11-14) by (auto simp: leg_resolved_def sender_leg_auto_def)
  have str: "\<not> is_auto J (jstring J (ad_redudancy_ip (stream_auto x)))"
    using assms(1,15) by (simp add: is_auto_def auto_library_def json_api.as_string)
  from run assms(16) have r: "cl_resolve_rtp_auto C ''sender'' (Some (ad_port (stream_auto x))) c = (Inr (), b)" by simp
  from auto_library.rtp_explicit [OF assms(1) c r] obtain legs' where legs': "jelems J b = Inr legs'"
    "\<forall>k < length m. \<forall>n v. jat J (m ! k) n = Inr v \<longrightarrow> \<not> is_auto J v \<longrightarrow> jat J (legs' ! k) n = Inr v" by blast
  have "jat J (legs' ! 1) ''destination_port'' = Inr (jint J (ad_port (stream_auto x)))"
    using auto_library.rtp_port [OF assms(1) c r legs'(1) _ port assms(14)] m1 by simp
  with legs' ip str m1 show ?thesis by auto
qed

theorem sender_second_leg_port_witness:
  "\<exists>b legs'. auto_resolver doc_lib sample_lib sample_conn sample_auto_node sample_auto_resource
      (DArr [sample_auto_leg, sample_auto_leg]) = (Inr (), b) \<and> jelems doc_lib b = Inr legs' \<and>
    rd_port (ns_redudancy sample_auto_sender) = 5006 \<and>
    jat doc_lib (legs' ! 1) ''destination_port'' = Inr (jint doc_lib 5004)"
proof -
  let ?x = "NS (ns_obs sample_auto_sender)"
  have d: "ad_redudancy_ip (stream_auto ?x) = ''239.0.0.2''" "ad_port (stream_auto ?x) = 5004" "ad_smpte2022_7 (stream_auto ?x)"
    "rd_port (ns_redudancy sample_auto_sender) = 5006"
    by (simp_all add: sender_auto_def obs_defs sample_auto_sender_def redudancy_default_def)
  have fields: "\<forall>p \<in> {sample_auto_leg, sample_auto_leg}. jtype doc_lib p = JObject \<and>
      (\<forall>n \<in> auto_fields Ancillary_sender. jhas_field doc_lib p n)" using sample_auto_leg_fields by simp
  have at: "jat doc_lib sample_auto_leg ''destination_ip'' = Inr (DStr ''auto'')"
    "jat doc_lib sample_auto_leg ''destination_port'' = Inr (DStr ''auto'')"
    by (simp_all add: sample_auto_leg_def doc_lib_def)
  have r: "re_type sample_auto_resource = ''sender''" by (simp add: sample_auto_resource_def)
  have "fst (auto_resolver doc_lib sample_lib sample_conn sample_auto_node sample_auto_resource
      (DArr [sample_auto_leg, sample_auto_leg])) = Inr ()" by code_simp
  then obtain b where run: "auto_resolver doc_lib sample_lib sample_conn sample_auto_node sample_auto_resource
      (DArr [sample_auto_leg, sample_auto_leg]) = (Inr (), b)" by (metis prod.collapse)
  show ?thesis
    using sender_second_leg_port [OF sample_auto.auto_library_axioms sample.resource_store_axioms sample_auto_good
      sample_auto_stream _ sample_auto_id r d(3) sample_auto_elems fields at(1) _ at(2) _ _ run] run d
    by (auto simp: doc_is_auto simp del: stream_auto.simps)
qed

text \<open>
  C22. The transport file of a registered sender whose node, flow and source resources are there: it is the
  SDP of the active legs, each with its destination kept when that is an IP address and \<open>0.0.0.0\<close>
  otherwise, and with one stream identity per leg, all different, when there are two legs or more. A sender
  that is not registered keeps its file.
\<close>
theorem transportfile_of_legs:
  assumes "json_api J"
    and "nl_find L (nd_node_resources s) (nd_node_id s) ''node'' = Some node"
    and "jhas_field J (re_data sender) ''flow_id''" "rbind (cl_field C ''flow_id'' (re_data sender)) (jas_string J) = Inr flow_id"
    and "nl_find L (nd_node_resources s) flow_id ''flow'' = Some flow"
    and "jhas_field J (re_data flow) ''source_id''" "cl_text C ''source_id'' (re_data flow) = Inr source_id"
    and "nl_find L (nd_node_resources s) source_id ''source'' = Some source"
    and "cl_text C ''description'' (re_data sender) = Inr session_name"
    and "rbind (cl_field C ''endpoint_active'' (re_data connection)) (cl_field C ''transport_params'') = Inr params"
    and "jelems J params = Inr legs" "\<forall>p \<in> set legs. jtype J p = JObject"
  shows "\<exists>b legs' ids. jelems J b = Inr legs' \<and> list_all2 (leg_destination_valid O' J) legs legs' \<and>
    distinct ids \<and> length ids = (if length legs < 2 then 0 else length legs) \<and>
    node_transportfile_setter O' J L C s sender connection file =
      (if re_id connection \<notin> set (nd_sender_ids s) then Inr file
       else rbind (make_sdp_parameters C (nd_ptp_domain_number s) session_name ids (re_data node) (re_data source)
                     (re_data flow) (re_data sender)) (\<lambda>sdp_params.
            rbind (cl_session_description C sdp_params b) (\<lambda>sdp. Inr (cl_sender_transportfile C sdp))))"
proof -
  from json_api.valid_transport_params_effect [OF assms(1,11,12)] obtain b legs' where
    b: "valid_transport_params O' J params = Inr b" "jelems J b = Inr legs'"
      "list_all2 (leg_destination_valid O' J) legs legs'" by blast
  let ?ids = "if length legs' < 2 then [] else map media_stream_id [0..<length legs']"
  have ids: "media_stream_ids J b = Inr ?ids" by (rule json_api.media_stream_ids_effect [OF assms(1) b(2)])
  have "length legs' = length legs" using b(3) by (simp add: list_all2_lengthD)
  moreover have "distinct ?ids" by (simp add: media_stream_ids_distinct)
  moreover have "node_transportfile_setter O' J L C s sender connection file =
      (if re_id connection \<notin> set (nd_sender_ids s) then Inr file
       else rbind (make_sdp_parameters C (nd_ptp_domain_number s) session_name ?ids (re_data node) (re_data source)
                     (re_data flow) (re_data sender)) (\<lambda>sdp_params.
            rbind (cl_session_description C sdp_params b) (\<lambda>sdp. Inr (cl_sender_transportfile C sdp))))"
    using assms(2-10) b(1) ids by (simp add: node_transportfile_setter_def find_or_throw_def Let_def)
  ultimately show ?thesis using b(2,3) by (intro exI [of _ b] exI [of _ legs'] exI [of _ ?ids]) simp
qed

definition sample_file_flow :: "doc resource" where
  "sample_file_flow = \<lparr> re_id = ''f'', re_type = ''flow'',
     re_data = DObj [(''source_id'', DStr ''so''), (''format'', DStr ''urn:x-nmos:format:audio'')] \<rparr>"

definition sample_file_node :: "(doc, doc resource list) node" where
  "sample_file_node = sample_node\<lparr> nd_sender_ids := [''se''],
     nd_node_resources := [sample_resource ''node'' ''n'', sample_file_flow, sample_resource ''source'' ''so''] \<rparr>"

definition sample_file_sender :: "doc resource" where
  "sample_file_sender = \<lparr> re_id = ''se'', re_type = ''sender'',
     re_data = DObj [(''flow_id'', DStr ''f''), (''description'', DStr ''mic'')] \<rparr>"

definition sample_file_connection :: "doc resource" where
  "sample_file_connection = \<lparr> re_id = ''se'', re_type = ''sender'',
     re_data = DObj [(''endpoint_active'', DObj [(''transport_params'', DArr [DObj [], DObj []])])] \<rparr>"

lemma sample_file_results:
  "nl_find sample_lib (nd_node_resources sample_file_node) (nd_node_id sample_file_node) ''node'' = Some (sample_resource ''node'' ''n'')"
  "jhas_field doc_lib (re_data sample_file_sender) ''flow_id''"
  "rbind (cl_field sample_conn ''flow_id'' (re_data sample_file_sender)) (jas_string doc_lib) = Inr ''f''"
  "nl_find sample_lib (nd_node_resources sample_file_node) ''f'' ''flow'' = Some sample_file_flow"
  "jhas_field doc_lib (re_data sample_file_flow) ''source_id''"
  "cl_text sample_conn ''source_id'' (re_data sample_file_flow) = Inr ''so''"
  "nl_find sample_lib (nd_node_resources sample_file_node) ''so'' ''source'' = Some (sample_resource ''source'' ''so'')"
  "cl_text sample_conn ''description'' (re_data sample_file_sender) = Inr ''mic''"
  "rbind (cl_field sample_conn ''endpoint_active'' (re_data sample_file_connection)) (cl_field sample_conn ''transport_params'')
     = Inr (DArr [DObj [], DObj []])"
  "\<forall>p \<in> set [DObj [], DObj []]. jtype doc_lib p = JObject"
  by (simp_all add: sample_lib_def sample_file_node_def sample_node_def sample_resource_def sample_file_flow_def
      sample_file_sender_def sample_file_connection_def sample_conn_def doc_lib_def)

theorem transportfile_of_legs_witness:
  "\<exists>ids. length ids = 2 \<and>
     node_transportfile_setter sample_os doc_lib sample_lib sample_conn sample_file_node sample_file_sender sample_file_connection DNull
       = Inr (DStr (concat ids))"
proof -
  from transportfile_of_legs [OF doc.json_api_axioms sample_file_results(1-9) sample_auto_elems sample_file_results(10),
      of sample_os DNull]
  obtain b legs' ids where r: "length ids = (if length [DObj [], DObj []] < 2 then 0 else length [DObj [], DObj []])"
    "node_transportfile_setter sample_os doc_lib sample_lib sample_conn sample_file_node sample_file_sender sample_file_connection DNull =
      (if re_id sample_file_connection \<notin> set (nd_sender_ids sample_file_node) then Inr DNull
       else rbind (make_sdp_parameters sample_conn (nd_ptp_domain_number sample_file_node) ''mic'' ids
          (re_data (sample_resource ''node'' ''n'')) (re_data (sample_resource ''source'' ''so''))
          (re_data sample_file_flow) (re_data sample_file_sender)) (\<lambda>sdp_params.
          rbind (cl_session_description sample_conn sdp_params b) (\<lambda>sdp. Inr (cl_sender_transportfile sample_conn sdp))))"
    by blast
  have "make_sdp_parameters sample_conn d t ids n so (re_data sample_file_flow) se = Inr (concat ids)" for d t n so se
    by (simp add: make_sdp_parameters_def flow_sdp_kind_def sample_conn_def sample_file_flow_def doc_lib_def)
  moreover have "re_id sample_file_connection \<in> set (nd_sender_ids sample_file_node)"
    by (simp add: sample_file_connection_def sample_file_node_def)
  moreover have "cl_session_description sample_conn p b = Inr p" "cl_sender_transportfile sample_conn t = DStr t" for p t
    by (simp_all add: sample_conn_def)
  ultimately show ?thesis using r by (intro exI [of _ ids]) simp
qed

end
