(* ===== verification/Node_Connection.thy ===== *)
theory Node_Connection
  imports App_Sync Node_Transport
begin

text \<open>
  Connection activation (\<open>make_node_implementation_connection_activation_handler\<close> in \<open>node.cpp\<close>), which
  edits the cached stream from the active parameters and reports it; the way of a report through
  \<open>NodeRuntime\<close> to the handlers of \<open>App\<close>; and the daemon with these events. A handler runs as one step. The
  search functions \<open>find_..._by_sender_id\<close> and \<open>find_..._by_resource_id\<close> are \<open>List.find\<close>; a stream that is
  found is edited in place.
\<close>

section \<open>Connection parameters\<close>

definition transport_param_rtp_enabled :: "('v, 'x) json_lib_scheme \<Rightarrow> 'v \<Rightarrow> bool \<Rightarrow> bool" where
  "transport_param_rtp_enabled J transport_param fallback =
     (if \<not> jis_object J transport_param \<or> \<not> jhas_field J transport_param ''rtp_enabled'' then fallback
      else case rbind (jat J transport_param ''rtp_enabled'')
                  (\<lambda>v. if jis_boolean J v then jas_bool J v else Inr fallback) of
             Inr b \<Rightarrow> b | Inl _ \<Rightarrow> fallback)"

section \<open>Formats from the transport file\<close>

text \<open>The text of an SDP transport file; no text where the two functions return early.\<close>

definition sdp_text :: "('v, 'x) json_lib_scheme \<Rightarrow> ('v, 'p, 'm, 'c) connection_lib \<Rightarrow> 'v \<Rightarrow> exc + string option" where
  "sdp_text J C transport_file =
     (if \<not> jis_object J transport_file then Inr None
      else if \<not> jhas_field J transport_file ''type'' \<or> \<not> jhas_field J transport_file ''data'' then Inr None
      else rbind (cl_text C ''type'' transport_file) (\<lambda>transport_file_type.
           if transport_file_type \<noteq> ''application/sdp'' then Inr None
           else rbind (cl_field C ''data'' transport_file) (\<lambda>transport_file_data.
           if \<not> jis_string J transport_file_data then Inr None
           else rbind (jas_string J transport_file_data) (\<lambda>text'. Inr (Some text')))))"

text \<open>An exception of the parser or of a reader is logged: the receiver stays as it was.\<close>

definition update_video_receiver_from_transport_file ::
    "('v, 'x) json_lib_scheme \<Rightarrow> ('v, 'p, 'm, 'c) connection_lib \<Rightarrow> 'v \<Rightarrow> (video_receiver, bool) eff" where
  "update_video_receiver_from_transport_file J C transport_file =
     ebind (elift (sdp_text J C transport_file)) (\<lambda>found.
     case found of None \<Rightarrow> eret False
     | Some text' \<Rightarrow>
         (case cl_parse_sdp C text' of
            Inl _ \<Rightarrow> eret False
          | Inr sdp_params \<Rightarrow>
              if cl_media_type C sdp_params = ''video/raw'' then
                (case cl_video_raw C sdp_params of
                   Inl _ \<Rightarrow> eret False
                 | Inr video \<Rightarrow>
                     eseq (emod (\<lambda>receiver.
                       (if guess_video_format_name video \<noteq> []
                        then receiver\<lparr> vr_format := guess_video_format_name video \<rparr> else receiver)
                       \<lparr> vr_colorspace := vp_colorimetry video, vr_transfer_characteristics := vp_tcs video \<rparr>)) (eret True))
              else if cl_media_type C sdp_params = ''video/jxsv'' then
                (case cl_video_jxsv C sdp_params of
                   Inl _ \<Rightarrow> eret False
                 | Inr (colorimetry, tcs) \<Rightarrow>
                     eseq (emod (\<lambda>receiver. receiver
                       \<lparr> vr_colorspace := colorimetry, vr_transfer_characteristics := tcs \<rparr>)) (eret True))
              else eret False))"

definition update_audio_receiver_from_transport_file ::
    "('v, 'x) json_lib_scheme \<Rightarrow> ('v, 'p, 'm, 'c) connection_lib \<Rightarrow> 'v \<Rightarrow> (audio_receiver, bool) eff" where
  "update_audio_receiver_from_transport_file J C transport_file =
     ebind (elift (sdp_text J C transport_file)) (\<lambda>found.
     case found of None \<Rightarrow> eret False
     | Some text' \<Rightarrow>
         (case cl_parse_sdp C text' of
            Inl _ \<Rightarrow> eret False
          | Inr sdp_params \<Rightarrow>
              if take 7 (cl_media_type C sdp_params) = ''audio/L'' then
                (case cl_audio_L C sdp_params of
                   Inl _ \<Rightarrow> eret False
                 | Inr (channel_count, bit_depth, sample_rate, packet_time) \<Rightarrow>
                     eseq (emod (\<lambda>receiver. receiver
                       \<lparr> ar_channel_count := channel_count, ar_bit_depth := bit_depth,
                         ar_sample_rate := ucast sample_rate, ar_packet_time := packet_time \<rparr>)) (eret True))
              else eret False))"

section \<open>Connection activation\<close>

text \<open>
  The parameters of one leg: \<open>lg_ip\<close> is the multicast address of a receiver and the destination of a
  sender, \<open>lg_source_ip\<close> the interface address of a receiver and the source address of a sender.
\<close>

record transport_leg =
  lg_port :: int32
  lg_ip :: string
  lg_source_ip :: string

definition string_param :: "('v, 'x) json_lib_scheme \<Rightarrow> ('v, 'p, 'm, 'c) connection_lib \<Rightarrow> string \<Rightarrow> 'v \<Rightarrow> exc + string" where
  "string_param J C name transport_param = rbind (cl_field C name transport_param) (jas_string J)"

definition port_param :: "('v, 'x) json_lib_scheme \<Rightarrow> ('v, 'p, 'm, 'c) connection_lib \<Rightarrow> 'v \<Rightarrow> exc + int32" where
  "port_param J C transport_param = rbind (cl_field C ''destination_port'' transport_param) (jas_integer J)"

text \<open>The source address of a receiver is read, and not used.\<close>

definition read_receiver_leg :: "('v, 'x) json_lib_scheme \<Rightarrow> ('v, 'p, 'm, 'c) connection_lib \<Rightarrow> 'v \<Rightarrow> exc + transport_leg" where
  "read_receiver_leg J C transport_param =
     rbind (port_param J C transport_param) (\<lambda>dest_port.
     rbind (string_param J C ''interface_ip'' transport_param) (\<lambda>interface_ip.
     rbind (string_param J C ''multicast_ip'' transport_param) (\<lambda>multicast_ip.
     rbind (string_param J C ''source_ip'' transport_param) (\<lambda>source_ip.
     Inr \<lparr> lg_port = dest_port, lg_ip = multicast_ip, lg_source_ip = interface_ip \<rparr>))))"

definition read_sender_leg :: "('v, 'x) json_lib_scheme \<Rightarrow> ('v, 'p, 'm, 'c) connection_lib \<Rightarrow> 'v \<Rightarrow> exc + transport_leg" where
  "read_sender_leg J C transport_param =
     rbind (port_param J C transport_param) (\<lambda>dest_port.
     rbind (string_param J C ''destination_ip'' transport_param) (\<lambda>destination_ip.
     rbind (string_param J C ''source_ip'' transport_param) (\<lambda>source_ip.
     if sint dest_port < 0 \<or> 65535 < sint dest_port then Inl ''destination_port out of range''
     else Inr \<lparr> lg_port = dest_port, lg_ip = destination_ip, lg_source_ip = source_ip \<rparr>)))"

text \<open>The first leg, and the second with whether it is enabled, if there is one.\<close>

type_synonym legs = "transport_leg \<times> (transport_leg \<times> bool) option"

definition read_legs ::
    "('v, 'x) json_lib_scheme \<Rightarrow> ('v \<Rightarrow> exc + transport_leg) \<Rightarrow> 'v list \<Rightarrow> exc + legs" where
  "read_legs J read_leg transport_params =
     (case transport_params of
        [] \<Rightarrow> Inl ''no transport parameters''
      | primary # rest \<Rightarrow>
          rbind (read_leg primary) (\<lambda>leg.
          case rest of [] \<Rightarrow> Inr (leg, None)
          | secondary # _ \<Rightarrow>
              rbind (read_leg secondary) (\<lambda>leg_07.
              Inr (leg, Some (leg_07, transport_param_rtp_enabled J secondary False)))))"

definition active_redudancy :: "(transport_leg \<times> bool) option \<Rightarrow> redudancy \<Rightarrow> redudancy" where
  "active_redudancy secondary rd =
     (case secondary of None \<Rightarrow> rd
      | Some (leg, redundancy_enable) \<Rightarrow>
          if rd_present rd
          then rd\<lparr> rd_enable := redundancy_enable, rd_source_ip := lg_source_ip leg, rd_ip := lg_ip leg,
                   rd_port := lg_port leg \<rparr>
          else rd)"

fun active_video_receiver :: "bool \<Rightarrow> legs \<Rightarrow> video_receiver \<Rightarrow> video_receiver" where
  "active_video_receiver stream_enable (leg, secondary) v =
     v\<lparr> vr_enable := stream_enable, vr_source_ip := lg_source_ip leg, vr_ip := lg_ip leg, vr_port := lg_port leg,
        vr_redudancy := active_redudancy secondary (vr_redudancy v) \<rparr>"

fun active_audio_receiver :: "bool \<Rightarrow> legs \<Rightarrow> audio_receiver \<Rightarrow> audio_receiver" where
  "active_audio_receiver stream_enable (leg, secondary) v =
     v\<lparr> ar_enable := stream_enable, ar_source_ip := lg_source_ip leg, ar_ip := lg_ip leg, ar_port := lg_port leg,
        ar_redudancy := active_redudancy secondary (ar_redudancy v) \<rparr>"

fun active_ancillary_receiver :: "bool \<Rightarrow> legs \<Rightarrow> ancillary_receiver \<Rightarrow> ancillary_receiver" where
  "active_ancillary_receiver stream_enable (leg, secondary) v =
     v\<lparr> nr_enable := stream_enable, nr_source_ip := lg_source_ip leg, nr_ip := lg_ip leg, nr_port := lg_port leg,
        nr_redudancy := active_redudancy secondary (nr_redudancy v) \<rparr>"

fun active_video_sender :: "bool \<Rightarrow> legs \<Rightarrow> video_sender \<Rightarrow> video_sender" where
  "active_video_sender stream_enable (leg, secondary) v =
     v\<lparr> vs_enable := stream_enable, vs_source_ip := lg_source_ip leg, vs_ip := lg_ip leg, vs_port := lg_port leg,
        vs_redudancy := active_redudancy secondary (vs_redudancy v) \<rparr>"

fun active_audio_sender :: "bool \<Rightarrow> legs \<Rightarrow> audio_sender \<Rightarrow> audio_sender" where
  "active_audio_sender stream_enable (leg, secondary) v =
     v\<lparr> as_enable := stream_enable, as_source_ip := lg_source_ip leg, as_ip := lg_ip leg, as_port := lg_port leg,
        as_redudancy := active_redudancy secondary (as_redudancy v) \<rparr>"

fun active_ancillary_sender :: "bool \<Rightarrow> legs \<Rightarrow> ancillary_sender \<Rightarrow> ancillary_sender" where
  "active_ancillary_sender stream_enable (leg, secondary) v =
     v\<lparr> ns_enable := stream_enable, ns_source_ip := lg_source_ip leg, ns_ip := lg_ip leg, ns_port := lg_port leg,
        ns_redudancy := active_redudancy secondary (ns_redudancy v) \<rparr>"

text \<open>The first element with the property is edited in place; the copy of it that was taken, if any.\<close>

fun edit_first :: "('a \<Rightarrow> bool) \<Rightarrow> ('a, unit) eff \<Rightarrow> 'a list \<Rightarrow> (exc + 'a option) \<times> 'a list" where
  "edit_first P m [] = (Inr None, [])"
| "edit_first P m (x # xs) =
     (if P x then (case m x of (Inl e, y) \<Rightarrow> (Inl e, y # xs) | (Inr _, y) \<Rightarrow> (Inr (Some y), y # xs))
      else (case edit_first P m xs of (r, ys) \<Rightarrow> (r, x # ys)))"

definition edit_cache ::
    "(('v, 'rs) node \<Rightarrow> 'a list) \<Rightarrow> ('a list \<Rightarrow> ('v, 'rs) node \<Rightarrow> ('v, 'rs) node) \<Rightarrow> ('a \<Rightarrow> bool) \<Rightarrow> ('a, unit) eff \<Rightarrow>
     ('v, 'rs, 'a option) node_eff" where
  "edit_cache get_cache set_cache P m = (\<lambda>s. case edit_first P m (get_cache s) of (r, ys) \<Rightarrow> (r, set_cache ys s))"

text \<open>The report of a snapshot when its kind has a callback.\<close>

definition report :: "(stream_kind \<Rightarrow> bool) \<Rightarrow> stream_kind \<Rightarrow> ('a \<Rightarrow> stream) \<Rightarrow> 'a option \<Rightarrow> stream list" where
  "report callbacks k con snapshot = (case snapshot of None \<Rightarrow> [] | Some x \<Rightarrow> if callbacks k then [con x] else [])"

definition activate_receiver ::
    "('v, 'x) json_lib_scheme \<Rightarrow> ('v, 'rs, 'y) nmos_lib_scheme \<Rightarrow> ('v, 'p, 'm, 'c) connection_lib \<Rightarrow> (stream_kind \<Rightarrow> bool) \<Rightarrow>
     string \<Rightarrow> bool \<Rightarrow> legs \<Rightarrow> 'v \<Rightarrow> ('v, 'rs, stream list) node_eff" where
  "activate_receiver J L C callbacks resource_id stream_enable legs transport_file =
     ebind (eget (\<lambda>s port i. make_id L (nd_seed_id s) ''receiver'' port i)) (\<lambda>receiver_id.
     ebind (edit_cache nd_video_receivers (\<lambda>xs s. s\<lparr> nd_video_receivers := xs \<rparr>)
              (\<lambda>v. receiver_id port_video (vr_id v) = resource_id)
              (eseq (emod (active_video_receiver stream_enable legs))
                    (eseq (update_video_receiver_from_transport_file J C transport_file) (eret ())))) (\<lambda>video.
     ebind (edit_cache nd_audio_receivers (\<lambda>xs s. s\<lparr> nd_audio_receivers := xs \<rparr>)
              (\<lambda>v. receiver_id port_audio (ar_id v) = resource_id)
              (eseq (emod (active_audio_receiver stream_enable legs))
                    (eseq (update_audio_receiver_from_transport_file J C transport_file) (eret ())))) (\<lambda>audio.
     ebind (edit_cache nd_ancillary_receivers (\<lambda>xs s. s\<lparr> nd_ancillary_receivers := xs \<rparr>)
              (\<lambda>v. receiver_id port_data (nr_id v) = resource_id)
              (emod (active_ancillary_receiver stream_enable legs))) (\<lambda>ancillary.
     eret (report callbacks Video_receiver VR video @ report callbacks Audio_receiver AR audio @
           report callbacks Ancillary_receiver NR ancillary)))))"

definition activate_sender ::
    "(stream_kind \<Rightarrow> bool) \<Rightarrow> string \<Rightarrow> bool \<Rightarrow> legs \<Rightarrow> ('v, 'rs, stream list) node_eff" where
  "activate_sender callbacks resource_id stream_enable legs =
     ebind (edit_cache nd_video_senders (\<lambda>xs s. s\<lparr> nd_video_senders := xs \<rparr>) (\<lambda>v. vs_sender_id v = resource_id)
              (emod (active_video_sender stream_enable legs))) (\<lambda>video.
     ebind (edit_cache nd_audio_senders (\<lambda>xs s. s\<lparr> nd_audio_senders := xs \<rparr>) (\<lambda>v. as_sender_id v = resource_id)
              (emod (active_audio_sender stream_enable legs))) (\<lambda>audio.
     ebind (edit_cache nd_ancillary_senders (\<lambda>xs s. s\<lparr> nd_ancillary_senders := xs \<rparr>) (\<lambda>v. ns_sender_id v = resource_id)
              (emod (active_ancillary_sender stream_enable legs))) (\<lambda>ancillary.
     eret (report callbacks Video_sender VS video @ report callbacks Audio_sender AS audio @
           report callbacks Ancillary_sender NS ancillary))))"

text \<open>The result is what was reported, in order; the parameters of a sender that cannot be read are ignored.\<close>

definition connection_activated ::
    "('v, 'x) json_lib_scheme \<Rightarrow> ('v, 'rs, 'y) nmos_lib_scheme \<Rightarrow> ('v, 'p, 'm, 'c) connection_lib \<Rightarrow> (stream_kind \<Rightarrow> bool) \<Rightarrow>
     'v resource \<Rightarrow> 'v resource \<Rightarrow> ('v, 'rs, stream list) node_eff" where
  "connection_activated J L C callbacks resource connection_resource =
     ebind (elift (cl_field C ''endpoint_active'' (re_data connection_resource))) (\<lambda>endpoint_active.
     ebind (elift (cl_field C ''transport_params'' endpoint_active)) (\<lambda>transport_params_value.
     if \<not> jis_array J transport_params_value then eret []
     else
     ebind (elift (jelems J transport_params_value)) (\<lambda>transport_params.
     if transport_params = [] then eret []
     else
     ebind (elift (cl_master_enable C endpoint_active)) (\<lambda>master_enable.
     let stream_enable = (master_enable \<and> transport_param_rtp_enabled J (hd transport_params) False) in
     if re_type resource = ''receiver'' then
       ebind (elift (cl_field C ''transport_file'' endpoint_active)) (\<lambda>transport_file.
       ebind (elift (read_legs J (read_receiver_leg J C) transport_params)) (\<lambda>legs.
       activate_receiver J L C callbacks (re_id resource) stream_enable legs transport_file))
     else if re_type resource = ''sender'' then
       (case read_legs J (read_sender_leg J C) transport_params of
          Inl _ \<Rightarrow> eret []
        | Inr legs \<Rightarrow> activate_sender callbacks (re_id resource) stream_enable legs)
     else eret []))))"

section \<open>Events\<close>

text \<open>
  Which callbacks the node has, and which handlers \<open>NodeRuntime\<close> has; each is set by a function of its own. The six
  functions for the kinds of streams have the same body.
\<close>

record node_callbacks =
  cb_stream :: "stream_kind \<Rightarrow> bool"
  cb_registration :: bool

definition callbacks_new :: node_callbacks where
  "callbacks_new = \<lparr> cb_stream = (\<lambda>_. False), cb_registration = False \<rparr>"

definition set_update_callback :: "stream_kind \<Rightarrow> node_callbacks \<Rightarrow> node_callbacks" where
  "set_update_callback k s = s\<lparr> cb_stream := (cb_stream s)(k := True) \<rparr>"

definition set_registration_changed_callback :: "node_callbacks \<Rightarrow> node_callbacks" where
  "set_registration_changed_callback s = s\<lparr> cb_registration := True \<rparr>"

text \<open>The constructor of \<open>NodeRuntime\<close> sets all seven.\<close>

definition runtime_callbacks :: node_callbacks where
  "runtime_callbacks = set_registration_changed_callback
     (fold set_update_callback [Video_sender, Audio_sender, Ancillary_sender, Video_receiver, Audio_receiver,
        Ancillary_receiver] callbacks_new)"

record event_handlers =
  eh_receiver :: bool
  eh_sender :: bool
  eh_registration :: bool

definition handlers_new :: event_handlers where
  "handlers_new = \<lparr> eh_receiver = False, eh_sender = False, eh_registration = False \<rparr>"

definition set_receiver_event_handler :: "event_handlers \<Rightarrow> event_handlers" where
  "set_receiver_event_handler s = s\<lparr> eh_receiver := True \<rparr>"

definition set_sender_event_handler :: "event_handlers \<Rightarrow> event_handlers" where
  "set_sender_event_handler s = s\<lparr> eh_sender := True \<rparr>"

definition set_registration_event_handler :: "event_handlers \<Rightarrow> event_handlers" where
  "set_registration_event_handler s = s\<lparr> eh_registration := True \<rparr>"

text \<open>\<open>App::run\<close> sets all three before it starts the node. An event is passed to \<open>App\<close>, which sends a message.\<close>

definition run_handlers :: event_handlers where
  "run_handlers = set_registration_event_handler (set_sender_event_handler (set_receiver_event_handler handlers_new))"

lemma callbacks_set [simp]:
  "cb_stream runtime_callbacks = (\<lambda>_. True)" "cb_registration runtime_callbacks"
  "run_handlers = \<lparr> eh_receiver = True, eh_sender = True, eh_registration = True \<rparr>"
proof -
  show "cb_stream runtime_callbacks = (\<lambda>_. True)"
    by (intro ext, rename_tac k, case_tac k) (simp_all add: runtime_callbacks_def set_update_callback_def
      set_registration_changed_callback_def callbacks_new_def)
  show "cb_registration runtime_callbacks" by (simp add: runtime_callbacks_def set_registration_changed_callback_def)
  show "run_handlers = \<lparr> eh_receiver = True, eh_sender = True, eh_registration = True \<rparr>"
    by (simp add: run_handlers_def set_registration_event_handler_def set_sender_event_handler_def
      set_receiver_event_handler_def handlers_new_def)
qed

definition publish_receiver_event :: "('v, 'rs) app_env \<Rightarrow> event_handlers \<Rightarrow> receiver_event \<Rightarrow> ('v, 'rs) app \<Rightarrow> ('v, 'rs) app" where
  "publish_receiver_event E H event s = (if eh_receiver H then handle_receiver_event E event s else s)"

definition publish_sender_event :: "('v, 'rs) app_env \<Rightarrow> event_handlers \<Rightarrow> sender_event \<Rightarrow> ('v, 'rs) app \<Rightarrow> ('v, 'rs) app" where
  "publish_sender_event E H event s = (if eh_sender H then handle_sender_event E event s else s)"

definition publish_registration_event :: "event_handlers \<Rightarrow> registration_status \<Rightarrow> ('v, 'rs) app \<Rightarrow> ('v, 'rs) app" where
  "publish_registration_event H status s = (if eh_registration H then handle_registration_event status s else s)"

text \<open>What the callbacks do that the constructor of \<open>NodeRuntime\<close> gives the node.\<close>

fun stream_callback :: "('v, 'rs) app_env \<Rightarrow> event_handlers \<Rightarrow> stream \<Rightarrow> ('v, 'rs) app \<Rightarrow> ('v, 'rs) app" where
  "stream_callback E H (VS sender) = publish_sender_event E H (Sender_video_event sender)"
| "stream_callback E H (AS sender) = publish_sender_event E H (Sender_audio_event sender)"
| "stream_callback E H (NS sender) = publish_sender_event E H (Sender_ancillary_event sender)"
| "stream_callback E H (VR receiver) = publish_receiver_event E H (Receiver_video_event receiver)"
| "stream_callback E H (AR receiver) = publish_receiver_event E H (Receiver_audio_event receiver)"
| "stream_callback E H (NR receiver) = publish_receiver_event E H (Receiver_ancillary_event receiver)"

text \<open>\<open>callback\<close> tells whether the node has a callback for the change of the registration.\<close>

definition registration_handler :: "event_handlers \<Rightarrow> bool \<Rightarrow> uri \<Rightarrow> ('v, 'rs) app \<Rightarrow> ('v, 'rs) app" where
  "registration_handler H callback registration_uri s =
     (if \<not> callback then s else publish_registration_event H (registration_status_from_uri registration_uri) s)"

text \<open>An activation in the running daemon: the edit of the caches, then the reports.\<close>

definition activation ::
    "('v, 'rs) app_env \<Rightarrow> ('v, 'p, 'm, 'c) connection_lib \<Rightarrow> (stream_kind \<Rightarrow> bool) \<Rightarrow> event_handlers \<Rightarrow>
     'v resource \<Rightarrow> 'v resource \<Rightarrow> (('v, 'rs) app, unit) eff" where
  "activation E C callbacks H resource connection_resource =
     ebind (on_node (connection_activated (ae_json E) (ae_nmos E) C callbacks resource connection_resource)) (\<lambda>reports.
     emod (fold (stream_callback E H) reports))"

inductive daemon_step ::
    "('v, 'rs) app_env \<Rightarrow> ('v, 'p, 'm, 'c) connection_lib \<Rightarrow> ('v, 'rs) app \<Rightarrow> ('v, 'rs) app \<Rightarrow> bool" for E C where
  Threads: "app_step E s t \<Longrightarrow> daemon_step E C s t"
| Activated: "activation E C callbacks H resource connection_resource s = (r, t) \<Longrightarrow> daemon_step E C s t"
| Registered: "daemon_step E C s (registration_handler H callback u s)"

section \<open>Edits of the caches\<close>

lemma edit_first_none: "(\<And>v. v \<in> set xs \<Longrightarrow> \<not> P v) \<Longrightarrow> edit_first P m xs = (Inr None, xs)"
  by (induction xs) auto

lemma edit_first_by_id:
  assumes "\<And>v. v \<in> set xs \<Longrightarrow> P v \<longleftrightarrow> ident v = i" "\<And>v. ident (snd (m v)) = ident v"
    and "find_by_id ident xs i = Some x"
  shows "edit_first P m xs =
    (case fst (m x) of Inl e \<Rightarrow> Inl e | Inr _ \<Rightarrow> Inr (Some (snd (m x))), replace_cached_by_id ident (snd (m x)) xs)"
  using assms(1,3)
proof (induction xs)
  case Nil
  then show ?case by (simp add: find_by_id_def)
next
  case (Cons v xs)
  show ?case
  proof (cases "ident v = i")
    case True
    with Cons.prems have x: "v = x" "P v" by (simp_all add: find_by_id_def)
    then show ?thesis using assms(2) [of v] by (cases "m v"; cases "fst (m v)") auto
  next
    case False
    with Cons.prems have rest: "find_by_id ident xs i = Some x" "\<not> P v" by (simp_all add: find_by_id_def)
    then have "ident x = i" by (auto simp: find_by_id_def dest: find_Some_in)
    with Cons rest False assms(2) [of x] show ?thesis by simp
  qed
qed

text \<open>A kind without the wanted stream is left as it is.\<close>

lemma edit_cache_miss:
  "(\<And>v. v \<in> set (nd_video_receivers s) \<Longrightarrow> \<not> P1 v) \<Longrightarrow>
     edit_cache nd_video_receivers (\<lambda>xs s. s\<lparr> nd_video_receivers := xs \<rparr>) P1 m1 s = (Inr None, s)"
  "(\<And>v. v \<in> set (nd_audio_receivers s) \<Longrightarrow> \<not> P2 v) \<Longrightarrow>
     edit_cache nd_audio_receivers (\<lambda>xs s. s\<lparr> nd_audio_receivers := xs \<rparr>) P2 m2 s = (Inr None, s)"
  "(\<And>v. v \<in> set (nd_ancillary_receivers s) \<Longrightarrow> \<not> P3 v) \<Longrightarrow>
     edit_cache nd_ancillary_receivers (\<lambda>xs s. s\<lparr> nd_ancillary_receivers := xs \<rparr>) P3 m3 s = (Inr None, s)"
  "(\<And>v. v \<in> set (nd_video_senders s) \<Longrightarrow> \<not> P4 v) \<Longrightarrow>
     edit_cache nd_video_senders (\<lambda>xs s. s\<lparr> nd_video_senders := xs \<rparr>) P4 m4 s = (Inr None, s)"
  "(\<And>v. v \<in> set (nd_audio_senders s) \<Longrightarrow> \<not> P5 v) \<Longrightarrow>
     edit_cache nd_audio_senders (\<lambda>xs s. s\<lparr> nd_audio_senders := xs \<rparr>) P5 m5 s = (Inr None, s)"
  "(\<And>v. v \<in> set (nd_ancillary_senders s) \<Longrightarrow> \<not> P6 v) \<Longrightarrow>
     edit_cache nd_ancillary_senders (\<lambda>xs s. s\<lparr> nd_ancillary_senders := xs \<rparr>) P6 m6 s = (Inr None, s)"
  by (simp_all add: edit_cache_def edit_first_none)

text \<open>What an activation does to a stream.\<close>

fun activated :: "bool \<Rightarrow> legs \<Rightarrow> stream \<Rightarrow> stream" where
  "activated enable legs (VR v) = VR (active_video_receiver enable legs v)"
| "activated enable legs (AR v) = AR (active_audio_receiver enable legs v)"
| "activated enable legs (NR v) = NR (active_ancillary_receiver enable legs v)"
| "activated enable legs (VS v) = VS (active_video_sender enable legs v)"
| "activated enable legs (AS v) = AS (active_audio_sender enable legs v)"
| "activated enable legs (NS v) = NS (active_ancillary_sender enable legs v)"

fun file_applied :: "('v, 'x) json_lib_scheme \<Rightarrow> ('v, 'p, 'm, 'c) connection_lib \<Rightarrow> 'v \<Rightarrow> stream \<Rightarrow> (exc + bool) \<times> stream" where
  "file_applied J C transport_file (VR v) =
     (case update_video_receiver_from_transport_file J C transport_file v of (q, w) \<Rightarrow> (q, VR w))"
| "file_applied J C transport_file (AR v) =
     (case update_audio_receiver_from_transport_file J C transport_file v of (q, w) \<Rightarrow> (q, AR w))"
| "file_applied J C transport_file x = (Inr False, x)"

fun obs_stream :: "stream \<Rightarrow> stream" where
  "obs_stream (VS v) = VS (vs_obs v)" | "obs_stream (AS v) = AS (as_obs v)" | "obs_stream (NS v) = NS (ns_obs v)"
| "obs_stream x = x"

definition without_caches :: "('v, 'rs) node \<Rightarrow> ('v, 'rs) node" where
  "without_caches s = s\<lparr> nd_video_senders := [], nd_audio_senders := [], nd_ancillary_senders := [],
                          nd_video_receivers := [], nd_audio_receivers := [], nd_ancillary_receivers := [] \<rparr>"

lemma active_ids [simp]:
  "vr_id (active_video_receiver en legs v) = vr_id v" "ar_id (active_audio_receiver en legs a) = ar_id a"
  "nr_id (active_ancillary_receiver en legs n) = nr_id n" "vs_id (active_video_sender en legs vs) = vs_id vs"
  "as_id (active_audio_sender en legs asd) = as_id asd" "ns_id (active_ancillary_sender en legs ns) = ns_id ns"
  "vs_sender_id (active_video_sender en legs vs) = vs_sender_id vs"
  "as_sender_id (active_audio_sender en legs asd) = as_sender_id asd"
  "ns_sender_id (active_ancillary_sender en legs ns) = ns_sender_id ns"
  by (cases legs; simp)+

lemma file_keeps_id [simp]:
  "vr_id (snd (update_video_receiver_from_transport_file J C tf v)) = vr_id v"
  "ar_id (snd (update_audio_receiver_from_transport_file J C tf a)) = ar_id a"
  by (auto simp: update_video_receiver_from_transport_file_def update_audio_receiver_from_transport_file_def eff_simps
      split: sum.split option.split prod.split)

text \<open>
  What the six caches share: the test of the handler finds the stream whose resource has the identity, and
  replacing a cached stream by one with the same identities changes its entry in the table only.
\<close>

locale edited_cache =
  fixes L :: "('v, 'rs, 'y) nmos_lib_scheme"
    and K :: stream_kind
    and get_cache :: "('v, 'rs) node \<Rightarrow> 'a list"
    and set_cache :: "'a list \<Rightarrow> ('v, 'rs) node \<Rightarrow> ('v, 'rs) node"
    and ident :: "'a \<Rightarrow> string"
    and own :: "('v, 'rs) node \<Rightarrow> 'a \<Rightarrow> bool"
    and con :: "'a \<Rightarrow> stream"
    and matches :: "('v, 'rs) node \<Rightarrow> string \<Rightarrow> 'a \<Rightarrow> bool"
  assumes match: "node_good L s \<Longrightarrow> v \<in> set (get_cache s) \<Longrightarrow>
      matches s (stream_resource_id L s k i) v \<longleftrightarrow> k = K \<and> ident v = i"
    and good: "node_good L s \<Longrightarrow> cache_good ident (own s) (get_cache s)"
    and good_set: "node_good L s \<Longrightarrow> cache_good ident (own s) xs \<Longrightarrow> node_good L (set_cache xs s)"
    and cached: "node_stream s K i = map_option (obs_stream \<circ> con) (find_by_id ident (get_cache s) i)"
    and set_same: "node_stream (set_cache xs s) K i = map_option (obs_stream \<circ> con) (find_by_id ident xs i)"
    and set_other: "k \<noteq> K \<Longrightarrow> node_stream (set_cache xs s) k i = node_stream s k i"
    and set_rest: "without_caches (set_cache xs s) = without_caches s"
begin

lemma edit_hit:
  assumes "node_good L s" "find_by_id ident (get_cache s) i = Some x" "\<And>v. ident (snd (m v)) = ident v"
    and "own s (snd (m x))"
  shows "\<exists>t. edit_cache get_cache set_cache (matches s (stream_resource_id L s K i)) m s =
      (case fst (m x) of Inl e \<Rightarrow> Inl e | Inr _ \<Rightarrow> Inr (Some (snd (m x))), t) \<and>
    t = set_cache (replace_cached_by_id ident (snd (m x)) (get_cache s)) s \<and>
    node_good L t \<and> without_caches t = without_caches s \<and>
    node_stream t = (node_stream s)(K := (node_stream s K)(i \<mapsto> obs_stream (con (snd (m x)))))"
proof -
  let ?y = "snd (m x)"
  let ?t = "set_cache (replace_cached_by_id ident ?y (get_cache s)) s"
  have i: "ident ?y = i" using assms(2,3) by (auto simp: find_by_id_def dest: find_Some_in)
  then have found: "find_by_id ident (get_cache s) (ident ?y) \<noteq> None" using assms(2) by simp
  note new = cache_replace [OF good [OF assms(1)] found assms(4), of "obs_stream \<circ> con"]
  have "node_stream ?t k j = ((node_stream s)(K := (node_stream s K)(i \<mapsto> obs_stream (con ?y)))) k j" for k j
    using new i by (cases "k = K") (simp_all add: set_other set_same cached [of s] cached_view_def fun_eq_iff)
  moreover have "edit_cache get_cache set_cache (matches s (stream_resource_id L s K i)) m s =
      (case fst (m x) of Inl e \<Rightarrow> Inl e | Inr _ \<Rightarrow> Inr (Some ?y), ?t)"
    unfolding edit_cache_def
    by (subst edit_first_by_id [OF _ assms(3,2)]) (simp_all add: match [OF assms(1)])
  ultimately show ?thesis
    using new good_set [OF assms(1)] by (simp add: set_rest fun_eq_iff)
qed

lemma no_match: "node_good L s \<Longrightarrow> k \<noteq> K \<Longrightarrow> v \<in> set (get_cache s) \<Longrightarrow> \<not> matches s (stream_resource_id L s k i) v"
  by (simp add: match)

end

context resource_store
begin

lemma resource_id_inj:
  "stream_resource_id L s k i = stream_resource_id L s l j \<longleftrightarrow> k = l \<and> i = j"
  by (cases k; cases l) (simp_all add: stream_resource_id_def kind_type_def make_id_def id_inj
      port_video_def port_audio_def port_data_def)

end

sublocale resource_store \<subseteq> vr_cache: edited_cache L Video_receiver nd_video_receivers "\<lambda>xs s. s\<lparr> nd_video_receivers := xs \<rparr>"
    vr_id "\<lambda>s v. True" VR "\<lambda>s rid v. make_id L (nd_seed_id s) ''receiver'' port_video (vr_id v) = rid"
proof
  show "make_id L (nd_seed_id s) ''receiver'' port_video (vr_id v) = stream_resource_id L s k i \<longleftrightarrow>
      k = Video_receiver \<and> vr_id v = i" for s :: "('v, 'rs) node" and k i v
    using resource_id_inj [of s Video_receiver "vr_id v" k i] by (auto simp: stream_resource_id_def kind_type_def)
next
  show "node_stream (s\<lparr> nd_video_receivers := xs \<rparr>) k i = node_stream s k i" if "k \<noteq> Video_receiver" for k xs i and s :: "('v, 'rs) node"
    using that by (cases k) (simp_all add: view_defs)
qed (simp_all add: node_good_def view_defs cached_view_def without_caches_def option.map_comp comp_def)

sublocale resource_store \<subseteq> ar_cache: edited_cache L Audio_receiver nd_audio_receivers "\<lambda>xs s. s\<lparr> nd_audio_receivers := xs \<rparr>"
    ar_id "\<lambda>s v. True" AR "\<lambda>s rid v. make_id L (nd_seed_id s) ''receiver'' port_audio (ar_id v) = rid"
proof
  show "make_id L (nd_seed_id s) ''receiver'' port_audio (ar_id v) = stream_resource_id L s k i \<longleftrightarrow>
      k = Audio_receiver \<and> ar_id v = i" for s :: "('v, 'rs) node" and k i v
    using resource_id_inj [of s Audio_receiver "ar_id v" k i] by (auto simp: stream_resource_id_def kind_type_def)
next
  show "node_stream (s\<lparr> nd_audio_receivers := xs \<rparr>) k i = node_stream s k i" if "k \<noteq> Audio_receiver" for k xs i and s :: "('v, 'rs) node"
    using that by (cases k) (simp_all add: view_defs)
qed (simp_all add: node_good_def view_defs cached_view_def without_caches_def option.map_comp comp_def)

sublocale resource_store \<subseteq> nr_cache: edited_cache L Ancillary_receiver nd_ancillary_receivers "\<lambda>xs s. s\<lparr> nd_ancillary_receivers := xs \<rparr>"
    nr_id "\<lambda>s v. True" NR "\<lambda>s rid v. make_id L (nd_seed_id s) ''receiver'' port_data (nr_id v) = rid"
proof
  show "make_id L (nd_seed_id s) ''receiver'' port_data (nr_id v) = stream_resource_id L s k i \<longleftrightarrow>
      k = Ancillary_receiver \<and> nr_id v = i" for s :: "('v, 'rs) node" and k i v
    using resource_id_inj [of s Ancillary_receiver "nr_id v" k i] by (auto simp: stream_resource_id_def kind_type_def)
next
  show "node_stream (s\<lparr> nd_ancillary_receivers := xs \<rparr>) k i = node_stream s k i" if "k \<noteq> Ancillary_receiver" for k xs i and s :: "('v, 'rs) node"
    using that by (cases k) (simp_all add: view_defs)
qed (simp_all add: node_good_def view_defs cached_view_def without_caches_def option.map_comp comp_def)

sublocale resource_store \<subseteq> vs_cache: edited_cache L Video_sender nd_video_senders "\<lambda>xs s. s\<lparr> nd_video_senders := xs \<rparr>"
    vs_id "\<lambda>s v. vs_sender_id v = make_id L (nd_seed_id s) ''sender'' port_video (vs_id v)" VS "\<lambda>s rid v. vs_sender_id v = rid"
proof
  fix s :: "('v, 'rs) node" and k i v
  assume "node_good L s" "v \<in> set (nd_video_senders s)"
  then have "vs_sender_id v = stream_resource_id L s Video_sender (vs_id v)"
    by (simp add: node_good_def cache_good_def list_all_iff stream_resource_id_def kind_type_def)
  then show "vs_sender_id v = stream_resource_id L s k i \<longleftrightarrow> k = Video_sender \<and> vs_id v = i"
    using resource_id_inj [of s Video_sender "vs_id v" k i] by auto
next
  show "node_stream (s\<lparr> nd_video_senders := xs \<rparr>) k i = node_stream s k i" if "k \<noteq> Video_sender" for k xs i and s :: "('v, 'rs) node"
    using that by (cases k) (simp_all add: view_defs)
qed (simp_all add: node_good_def view_defs cached_view_def without_caches_def option.map_comp comp_def)

sublocale resource_store \<subseteq> as_cache: edited_cache L Audio_sender nd_audio_senders "\<lambda>xs s. s\<lparr> nd_audio_senders := xs \<rparr>"
    as_id "\<lambda>s v. as_sender_id v = make_id L (nd_seed_id s) ''sender'' port_audio (as_id v)" AS "\<lambda>s rid v. as_sender_id v = rid"
proof
  fix s :: "('v, 'rs) node" and k i v
  assume "node_good L s" "v \<in> set (nd_audio_senders s)"
  then have "as_sender_id v = stream_resource_id L s Audio_sender (as_id v)"
    by (simp add: node_good_def cache_good_def list_all_iff stream_resource_id_def kind_type_def)
  then show "as_sender_id v = stream_resource_id L s k i \<longleftrightarrow> k = Audio_sender \<and> as_id v = i"
    using resource_id_inj [of s Audio_sender "as_id v" k i] by auto
next
  show "node_stream (s\<lparr> nd_audio_senders := xs \<rparr>) k i = node_stream s k i" if "k \<noteq> Audio_sender" for k xs i and s :: "('v, 'rs) node"
    using that by (cases k) (simp_all add: view_defs)
qed (simp_all add: node_good_def view_defs cached_view_def without_caches_def option.map_comp comp_def)

sublocale resource_store \<subseteq> ns_cache: edited_cache L Ancillary_sender nd_ancillary_senders "\<lambda>xs s. s\<lparr> nd_ancillary_senders := xs \<rparr>"
    ns_id "\<lambda>s v. ns_sender_id v = make_id L (nd_seed_id s) ''sender'' port_data (ns_id v)" NS "\<lambda>s rid v. ns_sender_id v = rid"
proof
  fix s :: "('v, 'rs) node" and k i v
  assume "node_good L s" "v \<in> set (nd_ancillary_senders s)"
  then have "ns_sender_id v = stream_resource_id L s Ancillary_sender (ns_id v)"
    by (simp add: node_good_def cache_good_def list_all_iff stream_resource_id_def kind_type_def)
  then show "ns_sender_id v = stream_resource_id L s k i \<longleftrightarrow> k = Ancillary_sender \<and> ns_id v = i"
    using resource_id_inj [of s Ancillary_sender "ns_id v" k i] by auto
next
  show "node_stream (s\<lparr> nd_ancillary_senders := xs \<rparr>) k i = node_stream s k i" if "k \<noteq> Ancillary_sender" for k xs i and s :: "('v, 'rs) node"
    using that by (cases k) (simp_all add: view_defs)
qed (simp_all add: node_good_def view_defs cached_view_def without_caches_def option.map_comp comp_def)

section \<open>Activation of a cached stream\<close>

text \<open>What a table looks like after one stream has changed, and what is reported.\<close>

definition stream_changed ::
    "('v, 'rs, 'y) nmos_lib_scheme \<Rightarrow> ('v, 'rs) node \<Rightarrow> stream_kind \<Rightarrow> string \<Rightarrow> stream \<Rightarrow> ('v, 'rs) node \<Rightarrow> bool" where
  "stream_changed L s k i y t \<longleftrightarrow> node_good L t \<and> without_caches t = without_caches s \<and>
     node_stream t = (node_stream s)(k := (node_stream s k)(i \<mapsto> obs_stream y))"

definition reported :: "(stream_kind \<Rightarrow> bool) \<Rightarrow> stream_kind \<Rightarrow> exc + 'a \<Rightarrow> stream \<Rightarrow> exc + stream list" where
  "reported callbacks k q y = (case q of Inl e \<Rightarrow> Inl e | Inr _ \<Rightarrow> Inr (if callbacks k then [y] else []))"

text \<open>The cached stream with its own sender identity; the table hides that.\<close>

fun cached_stream :: "('v, 'rs) node \<Rightarrow> stream_kind \<Rightarrow> string \<Rightarrow> stream option" where
  "cached_stream s Video_receiver i = map_option VR (find_by_id vr_id (nd_video_receivers s) i)"
| "cached_stream s Audio_receiver i = map_option AR (find_by_id ar_id (nd_audio_receivers s) i)"
| "cached_stream s Ancillary_receiver i = map_option NR (find_by_id nr_id (nd_ancillary_receivers s) i)"
| "cached_stream s Video_sender i = map_option VS (find_by_id vs_id (nd_video_senders s) i)"
| "cached_stream s Audio_sender i = map_option AS (find_by_id as_id (nd_audio_senders s) i)"
| "cached_stream s Ancillary_sender i = map_option NS (find_by_id ns_id (nd_ancillary_senders s) i)"

lemma node_cached: "node_stream s k i = map_option obs_stream (cached_stream s k i)"
  by (cases k) (simp_all add: view_defs cached_view_def option.map_comp comp_def)

lemma receiver_edits:
  "snd (eseq (emod f) (eseq m (eret ())) v) = snd (m (f v))"
  "fst (eseq (emod f) (eseq m (eret ())) v) = (case fst (m (f v)) of Inl e \<Rightarrow> Inl e | Inr _ \<Rightarrow> Inr ())"
  by (auto simp: eff_simps split: prod.split sum.split)

context resource_store
begin

lemma receiver_activated:
  assumes good: "node_good L s" and x: "cached_stream s k i = Some x" and k: "is_receiver k"
    and run: "activate_receiver J L C callbacks (stream_resource_id L s k i) enable legs fl s = (r, t)"
    and fl: "file_applied J C fl (activated enable legs x) = (q, y)"
  shows "stream_changed L s k i y t \<and> r = reported callbacks k q y"
proof (cases k)
  case Video_receiver
  with x obtain v where v: "find_by_id vr_id (nd_video_receivers s) i = Some v" "x = VR v" by auto
  let ?m = "eseq (emod (active_video_receiver enable legs)) (eseq (update_video_receiver_from_transport_file J C fl) (eret ()))"
  obtain w where w: "update_video_receiver_from_transport_file J C fl (active_video_receiver enable legs v) = (q, w)" "y = VR w"
    using fl v(2) by (auto split: prod.splits)
  from vr_cache.edit_hit [OF good v(1), of ?m] w obtain t' where hit:
    "edit_cache nd_video_receivers (\<lambda>xs s. s\<lparr> nd_video_receivers := xs \<rparr>)
      (\<lambda>v. make_id L (nd_seed_id s) ''receiver'' port_video (vr_id v) = stream_resource_id L s k i) ?m s =
      (case q of Inl e \<Rightarrow> Inl e | Inr _ \<Rightarrow> Inr (Some w), t')"
    "stream_changed L s k i y t'"
    by (cases q) (auto simp: receiver_edits stream_changed_def Video_receiver)
  show ?thesis
    using run hit Video_receiver
    by (cases q) (simp_all add: activate_receiver_def ebind_apply eget_apply eret_apply edit_cache_miss report_def
        reported_def stream_resource_id_def kind_type_def make_id_neq w(2))
next
  case Audio_receiver
  with x obtain v where v: "find_by_id ar_id (nd_audio_receivers s) i = Some v" "x = AR v" by auto
  let ?m = "eseq (emod (active_audio_receiver enable legs)) (eseq (update_audio_receiver_from_transport_file J C fl) (eret ()))"
  obtain w where w: "update_audio_receiver_from_transport_file J C fl (active_audio_receiver enable legs v) = (q, w)" "y = AR w"
    using fl v(2) by (auto split: prod.splits)
  from ar_cache.edit_hit [OF good v(1), of ?m] w obtain t' where hit:
    "edit_cache nd_audio_receivers (\<lambda>xs s. s\<lparr> nd_audio_receivers := xs \<rparr>)
      (\<lambda>v. make_id L (nd_seed_id s) ''receiver'' port_audio (ar_id v) = stream_resource_id L s k i) ?m s =
      (case q of Inl e \<Rightarrow> Inl e | Inr _ \<Rightarrow> Inr (Some w), t')"
    "stream_changed L s k i y t'"
    by (cases q) (auto simp: receiver_edits stream_changed_def Audio_receiver)
  show ?thesis
    using run hit Audio_receiver
    by (cases q) (simp_all add: activate_receiver_def ebind_apply eget_apply eret_apply edit_cache_miss report_def
        reported_def stream_resource_id_def kind_type_def make_id_neq w(2))
next
  case Ancillary_receiver
  with x obtain v where v: "find_by_id nr_id (nd_ancillary_receivers s) i = Some v" "x = NR v" by auto
  let ?w = "active_ancillary_receiver enable legs v"
  have y: "q = Inr False" "y = NR ?w" using fl v(2) by auto
  from nr_cache.edit_hit [OF good v(1), of "emod (active_ancillary_receiver enable legs)"] obtain t' where hit:
    "edit_cache nd_ancillary_receivers (\<lambda>xs s. s\<lparr> nd_ancillary_receivers := xs \<rparr>)
      (\<lambda>v. make_id L (nd_seed_id s) ''receiver'' port_data (nr_id v) = stream_resource_id L s k i)
      (emod (active_ancillary_receiver enable legs)) s = (Inr (Some ?w), t')"
    "stream_changed L s k i y t'"
    by (auto simp: emod_apply stream_changed_def y Ancillary_receiver)
  show ?thesis
    using run hit Ancillary_receiver
    by (simp add: activate_receiver_def ebind_apply eget_apply eret_apply edit_cache_miss report_def
        reported_def stream_resource_id_def kind_type_def make_id_neq y)
qed (use k in simp_all)

lemma sender_activated:
  assumes good: "node_good L s" and x: "cached_stream s k i = Some x" and k: "\<not> is_receiver k"
    and run: "activate_sender callbacks (stream_resource_id L s k i) enable legs s = (r, t)"
  shows "stream_changed L s k i (activated enable legs x) t \<and> r = reported callbacks k (Inr ()) (activated enable legs x)"
proof (cases k)
  case Video_sender
  with x obtain v where v: "find_by_id vs_id (nd_video_senders s) i = Some v" "x = VS v" by auto
  let ?w = "active_video_sender enable legs v"
  have own: "vs_sender_id v = make_id L (nd_seed_id s) ''sender'' port_video (vs_id v)"
    using good v(1) by (auto simp: node_good_def cache_good_def list_all_iff find_by_id_def dest: find_Some_in)
  from vs_cache.edit_hit [OF good v(1), of "emod (active_video_sender enable legs)"] own obtain t' where hit:
    "edit_cache nd_video_senders (\<lambda>xs s. s\<lparr> nd_video_senders := xs \<rparr>) (\<lambda>v. vs_sender_id v = stream_resource_id L s k i)
      (emod (active_video_sender enable legs)) s = (Inr (Some ?w), t')"
    "t' = s\<lparr> nd_video_senders := replace_cached_by_id vs_id ?w (nd_video_senders s) \<rparr>"
    "stream_changed L s k i (VS ?w) t'"
    by (auto simp: emod_apply stream_changed_def Video_sender)
  have miss:
    "nd_audio_senders u = nd_audio_senders s \<Longrightarrow> edit_cache nd_audio_senders (\<lambda>xs s. s\<lparr> nd_audio_senders := xs \<rparr>)
       (\<lambda>v. as_sender_id v = stream_resource_id L s Video_sender i) mas u = (Inr None, u)"
    "nd_ancillary_senders u = nd_ancillary_senders s \<Longrightarrow> edit_cache nd_ancillary_senders (\<lambda>xs s. s\<lparr> nd_ancillary_senders := xs \<rparr>)
       (\<lambda>v. ns_sender_id v = stream_resource_id L s Video_sender i) mns u = (Inr None, u)"
    for u mas mns
    by (rule edit_cache_miss, use as_cache.no_match [OF good] ns_cache.no_match [OF good] in force)+
  show ?thesis
    using run hit(1,3) Video_sender v(2)
    by (simp add: activate_sender_def ebind_apply eget_apply eret_apply miss report_def reported_def hit(2))
next
  case Audio_sender
  with x obtain v where v: "find_by_id as_id (nd_audio_senders s) i = Some v" "x = AS v" by auto
  let ?w = "active_audio_sender enable legs v"
  have own: "as_sender_id v = make_id L (nd_seed_id s) ''sender'' port_audio (as_id v)"
    using good v(1) by (auto simp: node_good_def cache_good_def list_all_iff find_by_id_def dest: find_Some_in)
  from as_cache.edit_hit [OF good v(1), of "emod (active_audio_sender enable legs)"] own obtain t' where hit:
    "edit_cache nd_audio_senders (\<lambda>xs s. s\<lparr> nd_audio_senders := xs \<rparr>) (\<lambda>v. as_sender_id v = stream_resource_id L s k i)
      (emod (active_audio_sender enable legs)) s = (Inr (Some ?w), t')"
    "t' = s\<lparr> nd_audio_senders := replace_cached_by_id as_id ?w (nd_audio_senders s) \<rparr>"
    "stream_changed L s k i (AS ?w) t'"
    by (auto simp: emod_apply stream_changed_def Audio_sender)
  have miss:
    "nd_video_senders u = nd_video_senders s \<Longrightarrow> edit_cache nd_video_senders (\<lambda>xs s. s\<lparr> nd_video_senders := xs \<rparr>)
       (\<lambda>v. vs_sender_id v = stream_resource_id L s Audio_sender i) mvs u = (Inr None, u)"
    "nd_ancillary_senders u = nd_ancillary_senders s \<Longrightarrow> edit_cache nd_ancillary_senders (\<lambda>xs s. s\<lparr> nd_ancillary_senders := xs \<rparr>)
       (\<lambda>v. ns_sender_id v = stream_resource_id L s Audio_sender i) mns u = (Inr None, u)"
    for u mvs mns
    by (rule edit_cache_miss, use vs_cache.no_match [OF good] ns_cache.no_match [OF good] in force)+
  show ?thesis
    using run hit(1,3) Audio_sender v(2)
    by (simp add: activate_sender_def ebind_apply eget_apply eret_apply miss report_def reported_def hit(2))
next
  case Ancillary_sender
  with x obtain v where v: "find_by_id ns_id (nd_ancillary_senders s) i = Some v" "x = NS v" by auto
  let ?w = "active_ancillary_sender enable legs v"
  have own: "ns_sender_id v = make_id L (nd_seed_id s) ''sender'' port_data (ns_id v)"
    using good v(1) by (auto simp: node_good_def cache_good_def list_all_iff find_by_id_def dest: find_Some_in)
  from ns_cache.edit_hit [OF good v(1), of "emod (active_ancillary_sender enable legs)"] own obtain t' where hit:
    "edit_cache nd_ancillary_senders (\<lambda>xs s. s\<lparr> nd_ancillary_senders := xs \<rparr>) (\<lambda>v. ns_sender_id v = stream_resource_id L s k i)
      (emod (active_ancillary_sender enable legs)) s = (Inr (Some ?w), t')"
    "t' = s\<lparr> nd_ancillary_senders := replace_cached_by_id ns_id ?w (nd_ancillary_senders s) \<rparr>"
    "stream_changed L s k i (NS ?w) t'"
    by (auto simp: emod_apply stream_changed_def Ancillary_sender)
  have miss:
    "nd_video_senders u = nd_video_senders s \<Longrightarrow> edit_cache nd_video_senders (\<lambda>xs s. s\<lparr> nd_video_senders := xs \<rparr>)
       (\<lambda>v. vs_sender_id v = stream_resource_id L s Ancillary_sender i) mvs u = (Inr None, u)"
    "nd_audio_senders u = nd_audio_senders s \<Longrightarrow> edit_cache nd_audio_senders (\<lambda>xs s. s\<lparr> nd_audio_senders := xs \<rparr>)
       (\<lambda>v. as_sender_id v = stream_resource_id L s Ancillary_sender i) mas u = (Inr None, u)"
    for u mvs mas
    by (rule edit_cache_miss, use vs_cache.no_match [OF good] as_cache.no_match [OF good] in force)+
  show ?thesis
    using run hit(1,3) Ancillary_sender v(2)
    by (simp add: activate_sender_def ebind_apply eget_apply eret_apply miss report_def reported_def hit(2))
qed (use k in simp_all)

end

text \<open>No stream of the type has a resource with the identity: nothing happens.\<close>

context resource_store
begin

lemma nothing_activated:
  assumes "\<And>k i. cached_stream s k i \<noteq> None \<Longrightarrow> is_receiver k \<Longrightarrow> rid \<noteq> stream_resource_id L s k i"
  shows "activate_receiver J L C callbacks rid enable legs fl s = (Inr [], s)"
proof -
  have cached: "find_by_id ident xs (ident v) \<noteq> None" if "v \<in> set xs" for ident :: "'z \<Rightarrow> string" and xs v
    using that by (auto simp: find_by_id_None)
  have "edit_cache nd_video_receivers (\<lambda>xs s. s\<lparr> nd_video_receivers := xs \<rparr>)
      (\<lambda>v. make_id L (nd_seed_id s) ''receiver'' port_video (vr_id v) = rid) m s = (Inr None, s)" for m
  proof (rule edit_cache_miss)
    show "make_id L (nd_seed_id s) ''receiver'' port_video (vr_id v) \<noteq> rid" if "v \<in> set (nd_video_receivers s)" for v
      using assms [of Video_receiver "vr_id v"] cached [OF that, of vr_id] by (simp add: stream_resource_id_def kind_type_def)
  qed
  moreover have "edit_cache nd_audio_receivers (\<lambda>xs s. s\<lparr> nd_audio_receivers := xs \<rparr>)
      (\<lambda>v. make_id L (nd_seed_id s) ''receiver'' port_audio (ar_id v) = rid) m s = (Inr None, s)" for m
  proof (rule edit_cache_miss)
    show "make_id L (nd_seed_id s) ''receiver'' port_audio (ar_id v) \<noteq> rid" if "v \<in> set (nd_audio_receivers s)" for v
      using assms [of Audio_receiver "ar_id v"] cached [OF that, of ar_id] by (simp add: stream_resource_id_def kind_type_def)
  qed
  moreover have "edit_cache nd_ancillary_receivers (\<lambda>xs s. s\<lparr> nd_ancillary_receivers := xs \<rparr>)
      (\<lambda>v. make_id L (nd_seed_id s) ''receiver'' port_data (nr_id v) = rid) m s = (Inr None, s)" for m
  proof (rule edit_cache_miss)
    show "make_id L (nd_seed_id s) ''receiver'' port_data (nr_id v) \<noteq> rid" if "v \<in> set (nd_ancillary_receivers s)" for v
      using assms [of Ancillary_receiver "nr_id v"] cached [OF that, of nr_id] by (simp add: stream_resource_id_def kind_type_def)
  qed
  ultimately show ?thesis
    by (simp add: activate_receiver_def ebind_apply eget_apply eret_apply report_def)
qed

lemma no_sender_activated:
  assumes good: "node_good L s"
    and "\<And>k i. cached_stream s k i \<noteq> None \<Longrightarrow> \<not> is_receiver k \<Longrightarrow> rid \<noteq> stream_resource_id L s k i"
  shows "activate_sender callbacks rid enable legs s = (Inr [], s)"
proof -
  have cached: "find_by_id ident xs (ident v) \<noteq> None" if "v \<in> set xs" for ident :: "'z \<Rightarrow> string" and xs v
    using that by (auto simp: find_by_id_None)
  have "edit_cache nd_video_senders (\<lambda>xs s. s\<lparr> nd_video_senders := xs \<rparr>) (\<lambda>v. vs_sender_id v = rid) m s
      = (Inr None, s)" for m
  proof (rule edit_cache_miss)
    fix v
    assume v: "v \<in> set (nd_video_senders s)"
    then have "vs_sender_id v = stream_resource_id L s Video_sender (vs_id v)"
      using good by (simp add: stream_resource_id_def kind_type_def node_good_def cache_good_def list_all_iff)
    then show "vs_sender_id v \<noteq> rid" using assms(2) [of Video_sender "vs_id v"] cached [OF v, of vs_id] by simp
  qed
  moreover have "edit_cache nd_audio_senders (\<lambda>xs s. s\<lparr> nd_audio_senders := xs \<rparr>) (\<lambda>v. as_sender_id v = rid) m s
      = (Inr None, s)" for m
  proof (rule edit_cache_miss)
    fix v
    assume v: "v \<in> set (nd_audio_senders s)"
    then have "as_sender_id v = stream_resource_id L s Audio_sender (as_id v)"
      using good by (simp add: stream_resource_id_def kind_type_def node_good_def cache_good_def list_all_iff)
    then show "as_sender_id v \<noteq> rid" using assms(2) [of Audio_sender "as_id v"] cached [OF v, of as_id] by simp
  qed
  moreover have "edit_cache nd_ancillary_senders (\<lambda>xs s. s\<lparr> nd_ancillary_senders := xs \<rparr>) (\<lambda>v. ns_sender_id v = rid) m s
      = (Inr None, s)" for m
  proof (rule edit_cache_miss)
    fix v
    assume v: "v \<in> set (nd_ancillary_senders s)"
    then have "ns_sender_id v = stream_resource_id L s Ancillary_sender (ns_id v)"
      using good by (simp add: stream_resource_id_def kind_type_def node_good_def cache_good_def list_all_iff)
    then show "ns_sender_id v \<noteq> rid" using assms(2) [of Ancillary_sender "ns_id v"] cached [OF v, of ns_id] by simp
  qed
  ultimately show ?thesis
    by (simp add: activate_sender_def ebind_apply eret_apply report_def)
qed

end

section \<open>The handler\<close>

text \<open>What the handler reads first: the active endpoint, its legs and whether the stream is enabled.\<close>

definition endpoint_parameters ::
    "('v, 'x) json_lib_scheme \<Rightarrow> ('v, 'p, 'm, 'c) connection_lib \<Rightarrow> 'v resource \<Rightarrow> 'v \<Rightarrow> 'v list \<Rightarrow> bool \<Rightarrow> bool" where
  "endpoint_parameters J C connection endpoint params enable \<longleftrightarrow>
     cl_field C ''endpoint_active'' (re_data connection) = Inr endpoint \<and>
     (\<exists>v. cl_field C ''transport_params'' endpoint = Inr v \<and> jtype J v = JArray \<and> jelems J v = Inr params) \<and> params \<noteq> [] \<and>
     (\<exists>b. cl_master_enable C endpoint = Inr b \<and> enable = (b \<and> transport_param_rtp_enabled J (hd params) False))"

text \<open>The file and the legs a receiver reads; both before anything is edited.\<close>

definition receiver_parameters ::
    "('v, 'x) json_lib_scheme \<Rightarrow> ('v, 'p, 'm, 'c) connection_lib \<Rightarrow> 'v \<Rightarrow> 'v list \<Rightarrow> exc + 'v \<times> legs" where
  "receiver_parameters J C endpoint params =
     rbind (cl_field C ''transport_file'' endpoint) (\<lambda>fl.
     rbind (read_legs J (read_receiver_leg J C) params) (\<lambda>legs. Inr (fl, legs)))"

lemma connection_activated_run:
  assumes "endpoint_parameters J C connection endpoint params enable"
  shows "connection_activated J L C callbacks resource connection s =
    (if re_type resource = ''receiver'' then
       (case receiver_parameters J C endpoint params of Inl e \<Rightarrow> (Inl e, s)
        | Inr (fl, legs) \<Rightarrow> activate_receiver J L C callbacks (re_id resource) enable legs fl s)
     else if re_type resource = ''sender'' then
       (case read_legs J (read_sender_leg J C) params of Inl _ \<Rightarrow> (Inr [], s)
        | Inr legs \<Rightarrow> activate_sender callbacks (re_id resource) enable legs s)
     else (Inr [], s))"
proof -
  from assms obtain v b where "cl_field C ''endpoint_active'' (re_data connection) = Inr endpoint"
    "cl_field C ''transport_params'' endpoint = Inr v" "jtype J v = JArray" "jelems J v = Inr params" "params \<noteq> []"
    "cl_master_enable C endpoint = Inr b" "enable = (b \<and> transport_param_rtp_enabled J (hd params) False)"
    unfolding endpoint_parameters_def by blast
  then show ?thesis
    by (auto simp: connection_activated_def ebind_apply elift_apply eret_apply receiver_parameters_def Let_def
        split: sum.split)
qed

text \<open>Every way through the handler.\<close>

lemma connection_activated_cases:
  assumes "connection_activated J L C callbacks resource connection s = (r, t)"
  obtains (nothing) "t = s" "r = Inr [] \<or> (\<exists>e. r = Inl e)"
  | (receiver) enable legs fl where "re_type resource = ''receiver''"
      "activate_receiver J L C callbacks (re_id resource) enable legs fl s = (r, t)"
  | (sender) enable legs where "re_type resource = ''sender''"
      "activate_sender callbacks (re_id resource) enable legs s = (r, t)"
  using assms
  by (auto simp: connection_activated_def ebind_apply elift_apply eret_apply Let_def split: sum.splits if_splits)

text \<open>The handler on any resource: nothing, or one cached stream of the type of the resource.\<close>

lemma activation_cases:
  assumes lib: "resource_store L ids" and good: "node_good L s"
    and run: "connection_activated J L C callbacks resource connection s = (r, t)"
  obtains (nothing) "t = s" "r = Inr [] \<or> (\<exists>e. r = Inl e)"
  | (one) k i x y where "cached_stream s k i = Some x" "re_id resource = stream_resource_id L s k i"
      "re_type resource = kind_type k" "stream_changed L s k i y t"
      "(\<exists>e. r = Inl e) \<or> r = Inr (if callbacks k then [y] else [])"
  using run
proof (cases rule: connection_activated_cases)
  case nothing
  then show ?thesis using that(1) by blast
next
  case (receiver enable legs fl)
  show ?thesis
  proof (cases "\<exists>k i. cached_stream s k i \<noteq> None \<and> is_receiver k \<and> re_id resource = stream_resource_id L s k i")
    case True
    then obtain k i x where k: "cached_stream s k i = Some x" "is_receiver k" "re_id resource = stream_resource_id L s k i" by blast
    obtain q y where "file_applied J C fl (activated enable legs x) = (q, y)" by fastforce
    from resource_store.receiver_activated [OF lib good k(1,2) receiver(2) [unfolded k(3)] this] k receiver(1)
    show ?thesis using that(2) [of k i x y] by (auto simp: kind_type_def reported_def split: sum.splits)
  next
    case False
    with resource_store.nothing_activated [OF lib, of s "re_id resource"] receiver(2) show ?thesis
      using that(1) by (metis prod.inject)
  qed
next
  case (sender enable legs)
  show ?thesis
  proof (cases "\<exists>k i. cached_stream s k i \<noteq> None \<and> \<not> is_receiver k \<and> re_id resource = stream_resource_id L s k i")
    case True
    then obtain k i x where k: "cached_stream s k i = Some x" "\<not> is_receiver k" "re_id resource = stream_resource_id L s k i" by blast
    from resource_store.sender_activated [OF lib good k(1,2) sender(2) [unfolded k(3)]] k sender(1)
    show ?thesis using that(2) [of k i x "activated enable legs x"] by (auto simp: kind_type_def reported_def)
  next
    case False
    with resource_store.no_sender_activated [OF lib good, of "re_id resource"] sender(2) show ?thesis
      using that(1) by (metis prod.inject)
  qed
qed

section \<open>The daemon with activations\<close>

lemma stream_callback_fields [simp]:
  "ap_node (stream_callback E H x s) = ap_node s" "ap_store (stream_callback E H x s) = ap_store s"
  "ap_pc (stream_callback E H x s) = ap_pc s" "ap_stop_requested (stream_callback E H x s) = ap_stop_requested s"
  "ap_sync_pending (stream_callback E H x s) = ap_sync_pending s"
  "ap_ws_connected (stream_callback E H x s) = ap_ws_connected s"
  by (cases x; simp add: publish_sender_event_def publish_receiver_event_def handle_sender_event_def
      handle_receiver_event_def send_json_def)+

lemma callbacks_fields [simp]:
  "ap_node (fold (stream_callback E H) xs s) = ap_node s" "ap_store (fold (stream_callback E H) xs s) = ap_store s"
  "ap_pc (fold (stream_callback E H) xs s) = ap_pc s"
  "ap_stop_requested (fold (stream_callback E H) xs s) = ap_stop_requested s"
  "ap_sync_pending (fold (stream_callback E H) xs s) = ap_sync_pending s"
  by (induction xs arbitrary: s) simp_all

lemma activation_effect:
  assumes "activation E C callbacks H resource connection s = (r, t)"
  obtains q n where "connection_activated (ae_json E) (ae_nmos E) C callbacks resource connection (ap_node s) = (q, n)"
    and "t = fold (stream_callback E H) (case q of Inl _ \<Rightarrow> [] | Inr reports \<Rightarrow> reports) (s\<lparr> ap_node := n \<rparr>)"
    and "r = (case q of Inl e \<Rightarrow> Inl e | Inr _ \<Rightarrow> Inr ())"
proof (cases "connection_activated (ae_json E) (ae_nmos E) C callbacks resource connection (ap_node s)")
  case (Pair q n)
  with assms that show ?thesis
    by (cases q) (auto simp: activation_def on_node_def ebind_apply emod_apply)
qed

lemma app_good_daemon_step:
  assumes lib: "resource_store (ae_nmos E) ids" and ord: "iteration_order (ae_order E)" and s: "app_good E s"
    and step: "daemon_step E C s t"
  shows "app_good E t"
  using step
proof cases
  case Threads
  then show ?thesis by (rule app_good_step [OF lib ord s])
next
  case (Activated callbacks H resource connection r)
  from s have good: "node_good (ae_nmos E) (ap_node s)" by (simp add: app_good_def)
  from Activated show ?thesis
  proof (rule activation_effect)
    fix q n
    assume run: "connection_activated (ae_json E) (ae_nmos E) C callbacks resource connection (ap_node s) = (q, n)"
      and t: "t = fold (stream_callback E H) (case q of Inl _ \<Rightarrow> [] | Inr reports \<Rightarrow> reports) (s\<lparr> ap_node := n \<rparr>)"
    from lib good run have "node_good (ae_nmos E) n"
      by (rule activation_cases) (auto simp: good stream_changed_def)
    with s show "app_good E t" by (simp add: t app_good_def)
  qed
next
  case (Registered H callback u)
  with s show ?thesis
    by (auto simp: registration_handler_def publish_registration_event_def handle_registration_event_def on_store_def
        app_good_def set_registry_status_def)
qed

text \<open>The message sent for a reported stream.\<close>

fun stream_message :: "('v, 'x) json_lib_scheme \<Rightarrow> stream \<Rightarrow> 'v" where
  "stream_message J (VS v) = make_sender_video_observed_changed_message J v"
| "stream_message J (AS v) = make_sender_audio_observed_changed_message J v"
| "stream_message J (NS v) = make_sender_ancillary_observed_changed_message J v"
| "stream_message J (VR v) = make_receiver_video_observed_changed_message J v"
| "stream_message J (AR v) = make_receiver_audio_observed_changed_message J v"
| "stream_message J (NR v) = make_receiver_ancillary_observed_changed_message J v"

lemma stream_callback_sent:
  "eh_receiver H \<Longrightarrow> eh_sender H \<Longrightarrow> ap_ws_connected s \<Longrightarrow>
   ap_sent (stream_callback E H y s) = ap_sent s @ [stream_message (ae_json E) y]"
  by (cases y) (simp_all add: publish_sender_event_def publish_receiver_event_def handle_sender_event_def
      handle_receiver_event_def send_json_def)

text \<open>A synchronisation does not touch a stream in which the last and the new snapshot agree, whatever its outcome.\<close>

lemma sync_keeps_agreed_stream:
  assumes "resource_store (ae_nmos E) ids" "iteration_order (ae_order E)" "node_good (ae_nmos E) (ap_node s)"
    and agree: "held (ss_last_snapshot (ap_store s)) k i = snapshot_stream sn k i"
  shows "node_stream (ap_node (perform_sync E v (Inr sn) s)) k i = node_stream (ap_node s) k i"
proof (cases "ap_stop_requested s")
  case False
  let ?s = "on_store (set_daemon_state ''resyncing'') s"
  have t: "perform_sync E v (Inr sn) s = perform_sync_rest E v (ss_last_snapshot (ap_store s)) (Inr sn) ?s"
    using False by (simp add: perform_sync_def Let_def on_store_def)
  have step: "node_stream n k i = node_stream (ap_node s) k i"
    if "apply_snapshot (ae_json E) (ae_nmos E) (ae_transportfile E) (ae_order E) (ss_last_snapshot (ap_store s)) sn (ap_node s) = (r, n)"
    for r n
    using editsD(3) [OF resource_store.apply_snapshot_edits [OF assms(1,2)] assms(3) that, of k i] agree
    by (auto simp: reconciled_def simp del: node_stream.simps)
  show ?thesis unfolding t
  proof (cases rule: perform_sync_rest_cases [of "Inr sn" E v "ss_last_snapshot (ap_store s)" ?s])
    case (unapplied sn' e n)
    with step show "node_stream (ap_node (perform_sync_rest E v (ss_last_snapshot (ap_store s)) (Inr sn) ?s)) k i =
        node_stream (ap_node s) k i" by (simp add: on_store_def del: node_stream.simps)
  next
    case (applied sn' n)
    with step show "node_stream (ap_node (perform_sync_rest E v (ss_last_snapshot (ap_store s)) (Inr sn) ?s)) k i =
        node_stream (ap_node s) k i" by (simp add: on_store_def del: node_stream.simps)
  qed simp
qed (simp add: perform_sync_def)

section \<open>A concrete activation\<close>

text \<open>The connection of a receiver with one leg; the argument is its source address.\<close>

definition sample_leg :: "doc \<Rightarrow> doc" where
  "sample_leg source = DObj [(''rtp_enabled'', DBool True), (''destination_port'', DInt 6000),
     (''interface_ip'', DStr ''10.0.0.2''), (''multicast_ip'', DStr ''239.1.1.1''), (''source_ip'', source)]"

definition sample_endpoint :: "doc \<Rightarrow> doc" where
  "sample_endpoint source = DObj [(''master_enable'', DBool True), (''transport_params'', DArr [sample_leg source]),
     (''transport_file'', DNull)]"

definition sample_receiver_connection :: "doc \<Rightarrow> doc resource" where
  "sample_receiver_connection source = \<lparr> re_id = make_id sample_lib ''s'' ''receiver'' port_data ''a'', re_type = ''receiver'',
     re_data = DObj [(''endpoint_active'', sample_endpoint source)] \<rparr>"

definition sample_receiving :: "(doc, doc resource list) node" where
  "sample_receiving = sample_node\<lparr> nd_ancillary_receivers := [sample_ancillary_receiver ''a''] \<rparr>"

definition sample_activated :: ancillary_receiver where
  "sample_activated = (sample_ancillary_receiver ''a'')
     \<lparr> nr_enable := True, nr_source_ip := ''10.0.0.2'', nr_ip := ''239.1.1.1'', nr_port := 6000 \<rparr>"

lemma sample_receiving_good: "node_good sample_lib sample_receiving"
  by (simp add: node_good_def cache_good_def sample_receiving_def sample_node_def)

lemma sample_receiving_cached:
  "cached_stream sample_receiving Ancillary_receiver ''a'' = Some (NR (sample_ancillary_receiver ''a''))"
  by (simp add: find_by_id_def sample_receiving_def sample_node_def sample_ancillary_receiver_def)

lemma sample_receiver_id:
  "re_id (sample_receiver_connection src) = stream_resource_id sample_lib sample_receiving Ancillary_receiver ''a''"
  "re_type (sample_receiver_connection src) = kind_type Ancillary_receiver"
  by (simp_all add: sample_receiver_connection_def stream_resource_id_def kind_type_def sample_receiving_def sample_node_def)

lemma sample_endpoint_parameters:
  "endpoint_parameters doc_lib sample_conn (sample_receiver_connection src) (sample_endpoint src) [sample_leg src] True"
  by (auto simp: endpoint_parameters_def sample_receiver_connection_def sample_endpoint_def sample_leg_def sample_conn_def
      doc_lib_def transport_param_rtp_enabled_def)

lemma sample_receiver_parameters:
  "receiver_parameters doc_lib sample_conn (sample_endpoint (DStr x)) [sample_leg (DStr x)] =
     Inr (DNull, \<lparr> lg_port = 6000, lg_ip = ''239.1.1.1'', lg_source_ip = ''10.0.0.2'' \<rparr>, None)"
  "receiver_parameters doc_lib sample_conn (sample_endpoint DNull) [sample_leg DNull] = Inl doc_mismatch"
  by (simp_all add: receiver_parameters_def read_legs_def read_receiver_leg_def port_param_def string_param_def
      sample_endpoint_def sample_leg_def sample_conn_def doc_lib_def)

lemma sample_activates:
  "\<exists>t. connection_activated doc_lib sample_lib sample_conn (\<lambda>_. True) (sample_receiver_connection (DStr []))
      (sample_receiver_connection (DStr [])) sample_receiving = (Inr [NR sample_activated], t)"
proof -
  have "fst (connection_activated doc_lib sample_lib sample_conn (\<lambda>_. True) (sample_receiver_connection (DStr []))
      (sample_receiver_connection (DStr [])) sample_receiving) = Inr [NR sample_activated]" by code_simp
  then show ?thesis by (metis prod.collapse)
qed

section \<open>Properties\<close>

text \<open>
  C18. Activating the connection of a cached stream of any kind: once the parameters are read, this stream takes the
  enable state, addresses and ports of the legs, the second leg when it has redundancy, and a receiver
  the format of the SDP file; it is the only entry of the table that changes, nothing but the caches
  does, and the edited stream is what is reported. Unreadable parameters change nothing: for a sender they are
  ignored, as are ports outside 0 to 65535, for a receiver the exception passes.
\<close>
theorem activation_outcome:
  assumes "resource_store L ids" "node_good L s" "cached_stream s k i = Some x"
    and "re_id resource = stream_resource_id L s k i" "re_type resource = kind_type k"
    and "endpoint_parameters J C connection endpoint params enable"
    and "connection_activated J L C callbacks resource connection s = (r, t)"
  shows "if is_receiver k
    then (case receiver_parameters J C endpoint params of
            Inl e \<Rightarrow> r = Inl e \<and> t = s
          | Inr (fl, legs) \<Rightarrow>
              (case file_applied J C fl (activated enable legs x) of
                 (q, y) \<Rightarrow> stream_changed L s k i y t \<and> r = reported callbacks k q y))
    else (case read_legs J (read_sender_leg J C) params of
            Inl e \<Rightarrow> r = Inr [] \<and> t = s
          | Inr legs \<Rightarrow> stream_changed L s k i (activated enable legs x) t \<and>
                        r = reported callbacks k (Inr ()) (activated enable legs x))"
proof (cases "is_receiver k")
  case True
  note run = assms(7) [unfolded connection_activated_run [OF assms(6)]]
  show ?thesis
  proof (cases "receiver_parameters J C endpoint params")
    case (Inl e)
    with run assms(5) True show ?thesis by (simp add: kind_type_def)
  next
    case (Inr p)
    obtain fl legs where p: "p = (fl, legs)" by (cases p)
    obtain q y where fa: "file_applied J C fl (activated enable legs x) = (q, y)" by fastforce
    from run assms(4,5) True Inr p
    have "activate_receiver J L C callbacks (stream_resource_id L s k i) enable legs fl s = (r, t)"
      by (simp add: kind_type_def)
    from resource_store.receiver_activated [OF assms(1-3) True this fa] True Inr p fa show ?thesis by simp
  qed
next
  case False
  note run = assms(7) [unfolded connection_activated_run [OF assms(6)]]
  show ?thesis
  proof (cases "read_legs J (read_sender_leg J C) params")
    case (Inl e)
    with run assms(5) False show ?thesis by (simp add: kind_type_def)
  next
    case (Inr legs)
    with run assms(4,5) False
    have "activate_sender callbacks (stream_resource_id L s k i) enable legs s = (r, t)"
      by (simp add: kind_type_def)
    from resource_store.sender_activated [OF assms(1-3) False this] False Inr show ?thesis by simp
  qed
qed

theorem activation_outcome_witness:
  "\<exists>t. connection_activated doc_lib sample_lib sample_conn (\<lambda>_. True) (sample_receiver_connection (DStr []))
         (sample_receiver_connection (DStr [])) sample_receiving = (Inr [NR sample_activated], t) \<and>
       node_stream t Ancillary_receiver ''a'' = Some (NR sample_activated)"
proof -
  obtain r t where run: "connection_activated doc_lib sample_lib sample_conn (\<lambda>_. True) (sample_receiver_connection (DStr []))
      (sample_receiver_connection (DStr [])) sample_receiving = (r, t)" by fastforce
  have y: "active_ancillary_receiver True (\<lparr> lg_port = 6000, lg_ip = ''239.1.1.1'', lg_source_ip = ''10.0.0.2'' \<rparr>, None)
      (sample_ancillary_receiver ''a'') = sample_activated"
    by (simp add: sample_activated_def active_redudancy_def sample_ancillary_receiver_def)
  from activation_outcome [OF sample.resource_store_axioms sample_receiving_good sample_receiving_cached
      sample_receiver_id sample_endpoint_parameters run]
  have "stream_changed sample_lib sample_receiving Ancillary_receiver ''a'' (NR sample_activated) t"
    "r = Inr [NR sample_activated]"
    by (simp_all add: sample_receiver_parameters y reported_def del: active_ancillary_receiver.simps)
  with run show ?thesis by (simp add: stream_changed_def del: node_stream.simps)
qed

text \<open>
  C19. Whatever a connection that is activated holds, and whether or not the handler throws, at most one stream changes,
  one whose resource has the identity and the type that were activated; streams are never added or removed and
  nothing but the caches is touched. At most one report is made, and it is the stream as it is cached then.
\<close>
theorem activation_touches_one_stream:
  assumes "resource_store L ids" "node_good L s"
    and "connection_activated J L C callbacks resource connection s = (r, t)"
  shows "node_good L t \<and> without_caches t = without_caches s \<and>
    (\<forall>k i. node_stream t k i \<noteq> node_stream s k i \<longrightarrow>
       re_id resource = stream_resource_id L s k i \<and> re_type resource = kind_type k) \<and>
    (\<forall>k i. node_stream t k i = None \<longleftrightarrow> node_stream s k i = None) \<and>
    (\<forall>reports. r = Inr reports \<longrightarrow> reports = [] \<or>
       (\<exists>k i y. reports = [y] \<and> callbacks k \<and> re_id resource = stream_resource_id L s k i \<and>
          node_stream t k i = Some (obs_stream y)))"
  using assms
proof (rule activation_cases)
  assume "t = s" "r = Inr [] \<or> (\<exists>e. r = Inl e)"
  with assms(2) show ?thesis by auto
next
  fix k i x y
  assume x: "cached_stream s k i = Some x"
    and res: "re_id resource = stream_resource_id L s k i" "re_type resource = kind_type k"
    and t: "stream_changed L s k i y t" and r: "(\<exists>e. r = Inl e) \<or> r = Inr (if callbacks k then [y] else [])"
  have here: "node_stream t k i = Some (obs_stream y)" using t by (simp add: stream_changed_def del: node_stream.simps)
  have there: "l = k \<and> j = i \<or> node_stream t l j = node_stream s l j" for l j
    using t by (simp add: stream_changed_def del: node_stream.simps)
  have "node_stream s k i \<noteq> None" using x by (simp add: node_cached)
  with here there have none: "(node_stream t l j = None) = (node_stream s l j = None)" for l j
    by (metis option.distinct(1))
  show ?thesis
  proof (intro conjI allI impI)
    show "node_good L t" "without_caches t = without_caches s" using t by (simp_all add: stream_changed_def)
    show "re_id resource = stream_resource_id L s l j" "re_type resource = kind_type l"
      if "node_stream t l j \<noteq> node_stream s l j" for l j using there [of l j] that res by auto
    show "(node_stream t l j = None) = (node_stream s l j = None)" for l j by (rule none)
    show "reports = [] \<or> (\<exists>k i y. reports = [y] \<and> callbacks k \<and> re_id resource = stream_resource_id L s k i \<and>
        node_stream t k i = Some (obs_stream y))" if "r = Inr reports" for reports
      using r that here res(1) by (metis sum.distinct(1) sum.inject(2))
  qed
qed

theorem activation_touches_one_stream_witness:
  "\<exists>r t. connection_activated doc_lib sample_lib sample_conn (\<lambda>_. True) (sample_receiver_connection DNull)
      (sample_receiver_connection DNull) sample_receiving = (r, t) \<and> node_good sample_lib t"
proof -
  obtain r t where run: "connection_activated doc_lib sample_lib sample_conn (\<lambda>_. True) (sample_receiver_connection DNull)
      (sample_receiver_connection DNull) sample_receiving = (r, t)" by fastforce
  from activation_touches_one_stream [OF sample.resource_store_axioms sample_receiving_good run] run show ?thesis by blast
qed

text \<open>
  A receiver's connection whose first leg has a source address that is not a text, which is what a receiver
  that accepts any source has (null), cannot be activated: the handler throws because it reads the address, which
  it never uses, and the stream keeps its old address, port and enable state.
\<close>
theorem receiver_null_source_fails:
  assumes "json_api J" "endpoint_parameters J C connection endpoint (leg # legs) enable" "re_type resource = ''receiver''"
    and "cl_field C ''source_ip'' leg = Inr v" "jtype J v \<noteq> JString"
  shows "\<exists>e. connection_activated J L C callbacks resource connection s = (Inl e, s)"
proof -
  from json_api.as_string_other [OF assms(1,5)] obtain e where "jas_string J v = Inl e" by blast
  with assms(4) have "\<exists>e. read_receiver_leg J C leg = Inl e"
    by (cases "port_param J C leg"; cases "string_param J C ''interface_ip'' leg"; cases "string_param J C ''multicast_ip'' leg")
       (auto simp: read_receiver_leg_def string_param_def)
  then have "\<exists>e. receiver_parameters J C endpoint (leg # legs) = Inl e"
    by (cases "cl_field C ''transport_file'' endpoint") (auto simp: receiver_parameters_def read_legs_def)
  with assms(3) show ?thesis by (auto simp: connection_activated_run [OF assms(2)])
qed

theorem receiver_null_source_fails_witness:
  "\<exists>e. connection_activated doc_lib sample_lib sample_conn (\<lambda>_. True) (sample_receiver_connection DNull)
      (sample_receiver_connection DNull) sample_receiving = (Inl e, sample_receiving)"
proof -
  have "re_type (sample_receiver_connection DNull) = ''receiver''" by (simp add: sample_receiver_connection_def)
  moreover have "cl_field sample_conn ''source_ip'' (sample_leg DNull) = Inr DNull"
    by (simp add: sample_conn_def sample_leg_def doc_lib_def)
  moreover have "jtype doc_lib DNull \<noteq> JString" by (simp add: doc_lib_def)
  ultimately show ?thesis by (rule receiver_null_source_fails [OF doc.json_api_axioms sample_endpoint_parameters])
qed

text \<open>
  C20. An activated stream is reported and kept: with a connection the backend is sent exactly one message, the edited
  stream, and a later synchronisation leaves it as it was activated whenever the snapshot has not
  changed in this stream, even if the two differ, and whatever the synchronisation's outcome.
\<close>
theorem activation_reported_and_kept:
  assumes "resource_store (ae_nmos E) ids" "iteration_order (ae_order E)" "node_good (ae_nmos E) (ap_node s)"
    and "ap_ws_connected s" "eh_receiver H" "eh_sender H"
    and "re_id resource = stream_resource_id (ae_nmos E) (ap_node s) k i"
    and "connection_activated (ae_json E) (ae_nmos E) C callbacks resource connection (ap_node s) = (Inr [y], n)"
    and "activation E C callbacks H resource connection s = (r, t)"
    and "held (ss_last_snapshot (ap_store s)) k i = snapshot_stream sn k i"
  shows "ap_sent t = ap_sent s @ [stream_message (ae_json E) y] \<and>
    node_stream (ap_node (perform_sync E v (Inr sn) t)) k i = Some (obs_stream y)"
proof -
  from assms(9) obtain q m where "connection_activated (ae_json E) (ae_nmos E) C callbacks resource connection (ap_node s) = (q, m)"
    "t = fold (stream_callback E H) (case q of Inl _ \<Rightarrow> [] | Inr reports \<Rightarrow> reports) (s\<lparr> ap_node := m \<rparr>)"
    by (rule activation_effect)
  with assms(8) have t: "t = stream_callback E H y (s\<lparr> ap_node := n \<rparr>)" by simp
  from assms(1,3,8) have n: "node_good (ae_nmos E) n \<and> node_stream n k i = Some (obs_stream y)"
  proof (rule activation_cases)
    fix l j z w
    assume "re_id resource = stream_resource_id (ae_nmos E) (ap_node s) l j" "stream_changed (ae_nmos E) (ap_node s) l j w n"
      "(\<exists>e. (Inr [y] :: exc + stream list) = Inl e) \<or> Inr [y] = (Inr (if callbacks l then [w] else []) :: exc + stream list)"
    with assms(7) resource_store.resource_id_inj [OF assms(1)] show ?thesis
      by (auto simp: stream_changed_def simp del: node_stream.simps split: if_splits)
  qed simp
  have "node_stream (ap_node (perform_sync E v (Inr sn) t)) k i = node_stream (ap_node t) k i"
    using n assms(10) by (intro sync_keeps_agreed_stream [OF assms(1,2)]) (simp_all add: t)
  with n show ?thesis by (simp add: t stream_callback_sent assms(4-6) del: node_stream.simps)
qed

theorem activation_reported_and_kept_witness:
  "\<exists>t. activation sample_env sample_conn (\<lambda>_. True) \<lparr> eh_receiver = True, eh_sender = True, eh_registration = True \<rparr>
      (sample_receiver_connection (DStr []))
      (sample_receiver_connection (DStr [])) (sample_app\<lparr> ap_node := sample_receiving, ap_ws_connected := True \<rparr>) = (Inr (), t) \<and>
    ap_sent t = [make_receiver_ancillary_observed_changed_message doc_lib sample_activated]"
proof -
  let ?s = "sample_app\<lparr> ap_node := sample_receiving, ap_ws_connected := True \<rparr>"
  let ?H = "\<lparr> eh_receiver = True, eh_sender = True, eh_registration = True \<rparr>"
  let ?c = "sample_receiver_connection (DStr [])"
  have app: "ap_sent ?s = []" "held (ss_last_snapshot (ap_store ?s)) Ancillary_receiver ''a'' = snapshot_stream snapshot_default Ancillary_receiver ''a''"
    "node_good (ae_nmos sample_env) (ap_node ?s)" "ap_ws_connected ?s"
    by (simp_all add: sample_app_def app_started_def store_defs state_store_initial_def sample_receiving_good
        snapshot_default_def find_by_id_def)
  obtain n where c: "connection_activated (ae_json sample_env) (ae_nmos sample_env) sample_conn (\<lambda>_. True) ?c ?c (ap_node ?s) =
      (Inr [NR sample_activated], n)" using sample_activates by auto
  have i: "re_id ?c = stream_resource_id (ae_nmos sample_env) (ap_node ?s) Ancillary_receiver ''a''"
    by (simp add: sample_receiver_id)
  obtain r t where run: "activation sample_env sample_conn (\<lambda>_. True) ?H ?c ?c ?s = (r, t)" by fastforce
  from run c have "r = Inr ()" by (auto simp: activation_def on_node_def ebind_apply emod_apply)
  with run activation_reported_and_kept [OF sample_library sample_order app(3,4) _ _ i c run app(2)] app(1)
  show ?thesis by auto
qed

text \<open>
  The daemon with its threads, registrations and activations: in every state it can reach, however they
  interleave, the node's caches are well formed, streams are reported as registered only when the last snapshot has
  some, protection mode means that no snapshot is in force, and the snapshot a synchronisation reconciles
  against is the one in force.
\<close>
theorem daemon_invariant_with_activations:
  assumes "resource_store (ae_nmos E) ids" "iteration_order (ae_order E)" "node_good (ae_nmos E) n"
    and "(daemon_step E C)\<^sup>*\<^sup>* (app_started n now) s"
  shows "node_good (ae_nmos E) (ap_node s) \<and>
    (st_streams_registered (ss_status (ap_store s)) \<longrightarrow>
       (\<exists>sn. ss_last_snapshot (ap_store s) = Some sn \<and> has_any_streams sn)) \<and>
    (st_protection_mode (ss_status (ap_store s)) \<longrightarrow> ss_last_snapshot (ap_store s) = None) \<and>
    (\<forall>v b c. ap_pc s = Fetching v b c \<longrightarrow> c = ss_last_snapshot (ap_store s))"
proof -
  from assms(4) have "app_good E s"
    by induction (auto intro: app_good_started [OF assms(3)] app_good_daemon_step [OF assms(1,2)])
  then show ?thesis by (simp add: app_good_def)
qed

theorem daemon_invariant_with_activations_witness:
  "\<exists>t. activation sample_env sample_conn (\<lambda>_. True) \<lparr> eh_receiver = True, eh_sender = True, eh_registration = True \<rparr>
      (sample_receiver_connection DNull) (sample_receiver_connection DNull) (app_started sample_receiving 0) = (Inl doc_mismatch, t) \<and>
    node_good sample_lib (ap_node t)"
proof -
  let ?H = "\<lparr> eh_receiver = True, eh_sender = True, eh_registration = True \<rparr>"
  let ?c = "sample_receiver_connection DNull"
  obtain r t where run: "activation sample_env sample_conn (\<lambda>_. True) ?H ?c ?c (app_started sample_receiving 0) = (r, t)"
    by fastforce
  have "connection_activated doc_lib sample_lib sample_conn (\<lambda>_. True) ?c ?c sample_receiving = (Inl doc_mismatch, sample_receiving)"
    by (simp add: connection_activated_run [OF sample_endpoint_parameters] sample_receiver_parameters sample_receiver_id kind_type_def)
  with run have "r = Inl doc_mismatch" by (auto simp: activation_def on_node_def ebind_apply app_started_def)
  have runs: "(daemon_step sample_env sample_conn)\<^sup>*\<^sup>* (app_started sample_receiving 0) t"
    using Activated [OF run] by blast
  have "node_good (ae_nmos sample_env) (ap_node t)"
    using daemon_invariant_with_activations [OF sample_library sample_order _ runs] sample_receiving_good by simp
  with run \<open>r = Inl doc_mismatch\<close> show ?thesis by simp
qed

end
