(* ===== verification/App_Run.thy ===== *)
theory App_Run
  imports Config_Update Ws_Client Node_Connection
begin

text \<open>
  The whole process: \<open>App::run\<close>, \<open>request_stop\<close> and \<open>stop\<close> (\<open>daemon/app.cpp\<close>), \<open>main\<close>
  (\<open>daemon/main.cpp\<close>), start and stop of the listener (\<open>daemon/http_debug_server.cpp\<close>), the constructor of
  \<open>Node\<close> (\<open>node.cpp\<close>), and the composition of \<open>App\<close> with its \<open>WsClient\<close>.

  \<open>process_step\<close> interleaves the threads of the serving process: those of the WebSocket client, whose
  callbacks run the handlers of \<open>App\<close>, the sync thread, the threads of the node, and the thread of
  \<open>run\<close>, which stops the others one after the other. What the handlers send goes to the queue of the
  client. The requests of the control interface, which restart the node, are in \<open>Config_Update\<close>.
\<close>

section \<open>State\<close>

text \<open>Where \<open>App::stop\<close> is, on the thread of \<open>run\<close>.\<close>

datatype stop_pc = Not_stopping | Joining_client | Joining_sync | Closing_listener | Stopping_node | All_stopped

record ('v, 'rs) process =
  pr_app :: "('v, 'rs) app"
  pr_ws :: ws_client
  pr_started :: bool
  pr_listener :: bool
  pr_stop :: stop_pc

text \<open>What has become of the call of \<open>run\<close>: an exception, a result, or the loop that waits for a stop request.\<close>

datatype run_outcome = Run_threw exc | Run_returned int | Run_serving

text \<open>How the process ends; an exception on the thread of \<open>run\<close> ends it by \<open>std::terminate\<close>.\<close>

datatype process_end = Exit int | Terminated exc

section \<open>Construction\<close>

definition impl_new :: "('v, 'x) json_lib_scheme \<Rightarrow> ('v, 'rs, 'y) nmos_lib_scheme \<Rightarrow> ('v, 'rs) node" where
  "impl_new J L =
     \<lparr> nd_lifecycle_state = Stopped, nd_stop_requested = False, nd_needs_model_reset = False,
       nd_config_file = [], nd_node_id = [], nd_device_id = [], nd_seed_id = [],
       nd_sender_ids = [], nd_receiver_ids = [], nd_source_ids = [], nd_flow_ids = [],
       nd_runtime_interfaces = [], nd_video_senders = [], nd_audio_senders = [], nd_ancillary_senders = [],
       nd_video_receivers = [], nd_audio_receivers = [], nd_ancillary_receivers = [],
       nd_node_resources = nl_empty L, nd_connection_resources = nl_empty L, nd_settings = jnull J,
       nd_shutdown = False, nd_ptp_domain_number = 127, nd_thread_joinable = False \<rparr>"

definition node_new :: "('v, 'x) json_lib_scheme \<Rightarrow> ('v, 'rs, 'y) nmos_lib_scheme \<Rightarrow> string \<Rightarrow> ('v, 'rs) node" where
  "node_new J L node_config_path = (impl_new J L)\<lparr> nd_config_file := node_config_path \<rparr>"

text \<open>The members of \<open>App\<close> before \<open>run\<close>; it has no node yet.\<close>

definition app_new :: "('v, 'rs) node \<Rightarrow> int \<Rightarrow> ('v, 'rs) app" where
  "app_new n now =
     \<lparr> ap_stop_requested = False, ap_store = state_store_initial, ap_node = n,
       ap_ws_connected = False, ap_sent = [], ap_sync_pending = False, ap_force_sync_pending = False,
       ap_pending_revision = 0, ap_last_signal_time = 0, ap_next_sync_not_before = 0,
       ap_last_node_state = ''stopped'', ap_now = now, ap_pc = Waiting \<rparr>"

definition process_new :: "('v, 'rs) app_env \<Rightarrow> int \<Rightarrow> ('v, 'rs) process" where
  "process_new E now =
     \<lparr> pr_app = app_new (impl_new (ae_json E) (ae_nmos E)) now, pr_ws = ws_started now,
       pr_started = False, pr_listener = False, pr_stop = Not_stopping \<rparr>"

section \<open>Starting\<close>

text \<open>\<open>made\<close> and \<open>opened\<close> are the exceptions that making and opening the listener throw, if any.\<close>

definition http_start :: "exc option \<Rightarrow> exc option \<Rightarrow> string \<Rightarrow> ('v, 'rs) process \<Rightarrow> exc option \<times> ('v, 'rs) process" where
  "http_start made opened url p =
     (if url = [] \<or> pr_listener p then (None, p)
      else case made of
             Some error \<Rightarrow> (Some error, p)
           | None \<Rightarrow> (opened, p\<lparr> pr_listener := True \<rparr>))"

definition http_stop :: "('v, 'rs) process \<Rightarrow> ('v, 'rs) process" where
  "http_stop p = (if \<not> pr_listener p then p else p\<lparr> pr_listener := False \<rparr>)"

text \<open>The callbacks \<open>run\<close> gives the WebSocket client.\<close>

fun ws_callback :: "('v, 'rs) app_env \<Rightarrow> ws_call \<Rightarrow> ('v, 'rs) app \<Rightarrow> ('v, 'rs) app" where
  "ws_callback E On_connected s = handle_ws_connected E s"
| "ws_callback E On_disconnected s = snd (handle_ws_disconnected E s)"
| "ws_callback E (On_snapshot_changed message) s = handle_snapshot_changed message s"
| "ws_callback E (On_error message) s = handle_ws_error message s"

text \<open>
  \<open>run\<close> up to its waiting loop. \<open>file\<close> is the content of the daemon's configuration file, \<open>node_file\<close> what
  opening and parsing that of the node gives, \<open>server\<close> the exception of the node's server, if any.
\<close>

definition app_run ::
    "('v, 'rs) app_env \<Rightarrow> 'v config_env \<Rightarrow> (string \<Rightarrow> exc + 'v) \<Rightarrow> string \<Rightarrow> string option \<Rightarrow> exc + 'v \<Rightarrow>
     exc option \<Rightarrow> exc option \<Rightarrow> exc option \<Rightarrow> int \<Rightarrow> run_outcome \<times> ('v, 'rs) process" where
  "app_run E C parse config_path file node_file server made opened now =
     (let p = process_new E now; J = ae_json E in
      case load_from_file J parse config_path file of
        Inl error \<Rightarrow> (Run_threw error, p)
      | Inr config \<Rightarrow>
          (let a1 = on_store (set_daemon_state ''starting'') (pr_app p);
               a2 = a1\<lparr> ap_node := node_new J (ae_nmos E) (dc_node_config_path config) \<rparr>;
               a3 = app_set_node_state E ''starting'' a2
           in case node_start (ce_os C) J (ae_nmos E) (ce_node C) (ae_transportfile E) (ce_config_text C)
                     node_file server (ap_node a3) of
                (False, n) \<Rightarrow>
                  (Run_returned 1, p\<lparr> pr_app := app_set_node_state E ''stopped''
                     (on_store (mark_sync_failed ''failed to start node runtime'') (a3\<lparr> ap_node := n \<rparr>)) \<rparr>)
              | (True, n) \<Rightarrow>
                  (let a4 = app_set_node_state E ''running'' (a3\<lparr> ap_node := n \<rparr>) in
                   case http_start made opened (dc_debug_http_url config) (p\<lparr> pr_app := a4 \<rparr>) of
                     (Some error, p1) \<Rightarrow> (Run_threw error, p1)
                   | (None, p1) \<Rightarrow>
                       (Run_serving, p1\<lparr> pr_started := True, pr_ws := ws_started now,
                          pr_app := on_store (set_daemon_state ''connecting_ws'') (pr_app p1) \<rparr>))))"

text \<open>What the process ends with once a stop has been requested; the result of \<open>run\<close> is not looked at.\<close>

definition daemon_main :: "run_outcome \<Rightarrow> process_end" where
  "daemon_main outcome = (case outcome of Run_threw error \<Rightarrow> Terminated error | _ \<Rightarrow> Exit 0)"

section \<open>Serving and stopping\<close>

text \<open>
  An operation of \<open>App\<close> in the process: what it has sent is queued. \<open>client_moves\<close> is a move of the client
  to the state \<open>w\<close> with the callbacks it makes.
\<close>

definition publish :: "('v \<Rightarrow> string) \<Rightarrow> ('v, 'rs) app \<Rightarrow> ('v, 'rs) process \<Rightarrow> ('v, 'rs) process" where
  "publish serialize b p =
     p\<lparr> pr_app := b, pr_ws := fold (\<lambda>m w. snd (ws_send_json serialize m w))
                              (drop (length (ap_sent (pr_app p))) (ap_sent b)) (pr_ws p) \<rparr>"

definition client_moves ::
    "('v, 'rs) app_env \<Rightarrow> ('v \<Rightarrow> string) \<Rightarrow> ws_client \<Rightarrow> ws_call list \<Rightarrow> ('v, 'rs) process \<Rightarrow> ('v, 'rs) process" where
  "client_moves E serialize w calls p =
     publish serialize (fold (ws_callback E) calls ((pr_app p)\<lparr> ap_ws_connected := wc_connected w \<rparr>))
       (p\<lparr> pr_ws := w \<rparr>)"

definition request_stop :: "('v, 'rs) process \<Rightarrow> ('v, 'rs) process" where
  "request_stop p = p\<lparr> pr_app := (pr_app p)\<lparr> ap_stop_requested := True \<rparr> \<rparr>"

text \<open>The last part of \<open>stop\<close>.\<close>

definition stop_node :: "('v, 'rs) app_env \<Rightarrow> ('v \<Rightarrow> string) \<Rightarrow> ('v, 'rs) process \<Rightarrow> ('v, 'rs) process" where
  "stop_node E serialize p =
     (let a1 = app_set_node_state E ''stopping'' (pr_app p);
          a2 = a1\<lparr> ap_node := snd (node_stop (ap_node a1)) \<rparr>;
          a3 = app_set_node_state E ''stopped'' a2;
          a4 = on_store (set_daemon_state ''stopped'') a3
      in (publish serialize a4 p)\<lparr> pr_started := False, pr_stop := All_stopped \<rparr>)"

text \<open>The text messages the client has accepted; only \<open>send_json\<close> adds to them.\<close>

definition texts :: "ws_client \<Rightarrow> queued_message list" where
  "texts w = filter (\<lambda>m. qm_type m = Text_message) (wc_accepted w)"

text \<open>
  \<open>handle_ws_connected\<close> does not throw, so the client does not leave a connection with an exception of
  its callback. The callback for a lost connection waits for the mutex that a synchronisation holds.
  The callbacks of the node run on threads that exist while it is running.
\<close>

inductive process_step ::
    "('v, 'rs) app_env \<Rightarrow> ('v, 'p, 'm, 'c) connection_lib \<Rightarrow> ws_config \<Rightarrow> (string \<Rightarrow> exc + 'v) \<Rightarrow> ('v \<Rightarrow> string) \<Rightarrow>
     ('v, 'rs) process \<Rightarrow> ('v, 'rs) process \<Rightarrow> bool" for E C G parse serialize where
  Client_moves: "ws_step (ae_json E) parse G (pr_ws p) w \<Longrightarrow> wc_pc w \<noteq> Leaving True \<Longrightarrow>
    wc_stop_requested w = wc_stop_requested (pr_ws p) \<Longrightarrow> texts w = texts (pr_ws p) \<Longrightarrow>
    wc_calls w = wc_calls (pr_ws p) @ calls \<Longrightarrow>
    On_disconnected \<in> set calls \<longrightarrow> (\<forall>v b c. ap_pc (pr_app p) \<noteq> Fetching v b c) \<Longrightarrow>
    process_step E C G parse serialize p (client_moves E serialize w calls p)"
| Sync_moves: "app_step E (pr_app p) b \<Longrightarrow> ap_pc b \<noteq> ap_pc (pr_app p) \<Longrightarrow>
    process_step E C G parse serialize p (publish serialize b p)"
| Time_passes: "ap_now (pr_app p) \<le> now \<Longrightarrow>
    process_step E C G parse serialize p (p\<lparr> pr_app := (pr_app p)\<lparr> ap_now := now \<rparr> \<rparr>)"
| Stream_activated: "nd_lifecycle_state (ap_node (pr_app p)) = Running \<Longrightarrow>
    activation E C (cb_stream runtime_callbacks) run_handlers resource connection_resource (pr_app p) = (r, b) \<Longrightarrow>
    process_step E C G parse serialize p (publish serialize b p)"
| Registration_changed: "nd_lifecycle_state (ap_node (pr_app p)) = Running \<Longrightarrow>
    process_step E C G parse serialize p
      (publish serialize (registration_handler run_handlers (cb_registration runtime_callbacks) u (pr_app p)) p)"
| Stop_requested: "process_step E C G parse serialize p (request_stop p)"
| Stop_begins: "pr_stop p = Not_stopping \<Longrightarrow> pr_started p \<Longrightarrow> ap_stop_requested (pr_app p) \<Longrightarrow>
    w = ws_stop closing (pr_ws p) \<Longrightarrow> wc_calls w = wc_calls (pr_ws p) @ calls \<Longrightarrow>
    process_step E C G parse serialize p ((client_moves E serialize w calls p)\<lparr> pr_stop := Joining_client \<rparr>)"
| Client_joined: "pr_stop p = Joining_client \<Longrightarrow> wc_pc (pr_ws p) = Ended \<Longrightarrow>
    process_step E C G parse serialize p (p\<lparr> pr_stop := Joining_sync \<rparr>)"
| Sync_joined: "pr_stop p = Joining_sync \<Longrightarrow> ap_pc (pr_app p) = Finished \<Longrightarrow>
    process_step E C G parse serialize p (p\<lparr> pr_stop := Closing_listener \<rparr>)"
| Listener_closed: "pr_stop p = Closing_listener \<Longrightarrow>
    process_step E C G parse serialize p ((http_stop p)\<lparr> pr_stop := Stopping_node \<rparr>)"
| Node_stopped: "pr_stop p = Stopping_node \<Longrightarrow>
    process_step E C G parse serialize p (stop_node E serialize p)"

inductive_cases process_stepE: "process_step E C G parse serialize p q"

text \<open>The state in which \<open>run\<close> begins to wait.\<close>

definition serving :: "('v, 'rs) node \<Rightarrow> int \<Rightarrow> bool \<Rightarrow> ('v, 'rs) process" where
  "serving n now listening =
     \<lparr> pr_app = app_started n now, pr_ws = ws_started now, pr_started = True, pr_listener = listening,
       pr_stop = Not_stopping \<rparr>"

section \<open>The first start of the node\<close>

lemma node_new_fields [simp]:
  "node_good L ((node_new J L path)\<lparr> nd_lifecycle_state := x, nd_thread_joinable := b \<rparr>)"
  "node_stream ((node_new J L path)\<lparr> nd_lifecycle_state := x, nd_thread_joinable := b \<rparr>) = held None"
proof -
  show "node_good L ((node_new J L path)\<lparr> nd_lifecycle_state := x, nd_thread_joinable := b \<rparr>)"
    by (simp add: node_good_def cache_good_def node_new_def impl_new_def)
  show "node_stream ((node_new J L path)\<lparr> nd_lifecycle_state := x, nd_thread_joinable := b \<rparr>) = held None"
    by (intro ext) (rename_tac k i, case_tac k, simp_all add: kind_views node_new_def impl_new_def)
qed

context node_store
begin

lemma first_start:
  assumes "node_start O' J L N T p f server (node_new J L path) = (ok, t)"
  shows "node_good L t \<and> nd_lifecycle_state t = (if ok then Running else Stopped) \<and>
    node_stream t = held None \<and> nd_config_file t = path"
proof -
  let ?i = "(node_new J L path)\<lparr> nd_lifecycle_state := Starting, nd_thread_joinable := True \<rparr>"
  have "node_start O' J L N T p f server (node_new J L path) =
    (case nmos_node_start O' J L N T p f server ?i of
       (True, t) \<Rightarrow> (nd_lifecycle_state t = Running, t)
     | (False, t) \<Rightarrow> (False, t\<lparr> nd_lifecycle_state := Stopped, nd_stop_requested := False \<rparr>))"
    by (simp add: node_start_def node_new_def impl_new_def Let_def)
  with assms have run: "(case nmos_node_start O' J L N T p f server ?i of
       (True, t) \<Rightarrow> (nd_lifecycle_state t = Running, t)
     | (False, t) \<Rightarrow> (False, t\<lparr> nd_lifecycle_state := Stopped, nd_stop_requested := False \<rparr>)) = (ok, t)" by simp
  have i: "nd_lifecycle_state ?i = Starting" "\<not> nd_shutdown ?i" "nd_node_resources ?i = nl_empty L" "nd_config_file ?i = path"
    by (simp_all add: node_new_def impl_new_def)
  from worker_effect [OF node_new_fields(1) i(1-3) run, unfolded node_new_fields i]
  have t: "node_good L t" "nd_lifecycle_state t = (if ok then Running else Stopped)" "nd_config_file t = path"
    "if ok then \<forall>k i'. node_stream t k i' = None \<or> node_stream t k i' = held None k i'
     else node_stream t = held None" by blast+
  from t(4) have "node_stream t = held None" by (auto simp: fun_eq_iff split: if_splits simp del: node_stream.simps)
  with t show ?thesis by simp
qed

end

lemma started_store:
  "set_daemon_state ''connecting_ws'' (store_set_node_state ''running'' (store_set_node_state ''starting''
     (set_daemon_state ''starting'' state_store_initial))) =
   set_daemon_state ''connecting_ws'' (store_set_node_state ''running'' state_store_initial)"
  by (simp add: store_defs state_store_initial_def)

lemma set_node_state_unconnected:
  "\<not> ap_ws_connected a \<Longrightarrow> app_set_node_state E st a =
     a\<lparr> ap_store := store_set_node_state st (ap_store a), ap_last_node_state := st \<rparr>"
  by (simp add: app_set_node_state_def on_store_def Let_def)

abbreviation first_node_start where
  "first_node_start E C node_file server config \<equiv>
     node_start (ce_os C) (ae_json E) (ae_nmos E) (ce_node C) (ae_transportfile E) (ce_config_text C) node_file server
       (node_new (ae_json E) (ae_nmos E) (dc_node_config_path config))"

lemma app_run_cases:
  assumes "load_from_file (ae_json E) parse path file = Inr config" "first_node_start E C node_file server config = (ok, n)"
  shows "app_run E C parse path file node_file server made opened now =
    (if \<not> ok then
       (Run_returned 1, (process_new E now)\<lparr> pr_app := (app_new n now)\<lparr> ap_last_node_state := ''stopped'',
          ap_store := store_set_node_state ''stopped'' (mark_sync_failed ''failed to start node runtime''
            (store_set_node_state ''starting'' (set_daemon_state ''starting'' state_store_initial))) \<rparr> \<rparr>)
     else
       (let a = (app_new n now)\<lparr> ap_last_node_state := ''running'', ap_store := store_set_node_state ''running''
             (store_set_node_state ''starting'' (set_daemon_state ''starting'' state_store_initial)) \<rparr>
        in case if dc_debug_http_url config = [] then None else if made = None then opened else made of
             Some error \<Rightarrow> (Run_threw error, (process_new E now)\<lparr> pr_app := a,
                pr_listener := dc_debug_http_url config \<noteq> [] \<and> made = None \<rparr>)
           | None \<Rightarrow> (Run_serving, serving n now (dc_debug_http_url config \<noteq> []))))"
  using assms
  by (cases made; cases opened)
    (simp_all add: app_run_def process_new_def app_new_def on_store_def set_node_state_unconnected
      http_start_def serving_def app_started_def started_store Let_def)

lemma failed_start_status:
  "ss_status (store_set_node_state ''stopped'' (mark_sync_failed e (store_set_node_state ''starting''
     (set_daemon_state d st)))) = (ss_status st)\<lparr> st_daemon_state := d, st_node_state := ''stopped'', st_last_sync_error := e \<rparr>"
  by (cases "ss_status st") (simp add: store_defs)

section \<open>What the operations of the daemon send\<close>

text \<open>The messages of the daemon.\<close>

definition daemon_messages :: "('v, 'x) json_lib_scheme \<Rightarrow> 'v set" where
  "daemon_messages J = range (make_sync_failed_message J) \<union> {make_streams_drained_message J} \<union> range (stream_message J) \<union>
     {make_node_lifecycle_message J x y | x y. True}"

text \<open>An operation that leaves the link and the stop request alone and sends only such messages, and only over a link.\<close>

definition sends :: "('v, 'rs) app_env \<Rightarrow> ('v, 'rs) app \<Rightarrow> ('v, 'rs) app \<Rightarrow> bool" where
  "sends E a b \<longleftrightarrow> ap_ws_connected b = ap_ws_connected a \<and> ap_stop_requested b = ap_stop_requested a \<and>
     (\<exists>ms. ap_sent b = ap_sent a @ ms \<and> (ms = [] \<or> ap_ws_connected a) \<and> set ms \<subseteq> daemon_messages (ae_json E))"

lemma sends_refl [simp]: "sends E a a"
  by (simp add: sends_def)

lemma sends_trans [trans]: "sends E a b \<Longrightarrow> sends E b c \<Longrightarrow> sends E a c"
  by (auto simp: sends_def)

lemma sends_same:
  "ap_ws_connected b = ap_ws_connected a \<Longrightarrow> ap_stop_requested b = ap_stop_requested a \<Longrightarrow> ap_sent b = ap_sent a \<Longrightarrow> sends E a b"
  by (simp add: sends_def)

lemma sends_json: "sends E a b \<Longrightarrow> m \<in> daemon_messages (ae_json E) \<Longrightarrow> sends E a (send_json m b)"
  by (auto simp: sends_def send_json_def)

lemma sends_schedule: "sends E a b \<Longrightarrow> sends E a (schedule_sync v b)"
  by (auto simp: sends_def schedule_sync_def Let_def)

lemma sends_node_state: "sends E a (app_set_node_state E st a)"
  by (auto simp: sends_def app_set_node_state_def on_store_def send_json_def daemon_messages_def Let_def)

lemma sends_fold: "(\<And>x a. x \<in> set xs \<Longrightarrow> sends E a (f x a)) \<Longrightarrow> sends E a (fold f xs a)"
  by (induction xs arbitrary: a) (auto intro: sends_trans)

lemma sends_connected: "sends E a (handle_ws_connected E a)"
  unfolding handle_ws_connected_def Let_def split_def
  by (intro sends_schedule) (auto simp: sends_def on_store_def send_json_def daemon_messages_def)

lemma sends_disconnected: "sends E a (snd (handle_ws_disconnected E a))"
  by (auto simp: handle_ws_disconnected_def on_node_def eff_simps sends_def on_store_def split: prod.splits sum.splits)

lemma sends_callback: "sends E a (ws_callback E c a)"
  by (cases c) (auto simp: sends_connected sends_disconnected handle_snapshot_changed_def handle_ws_error_def on_store_def
      Let_def intro!: sends_schedule sends_same)

lemma sends_sync_failed: "sends E a (sync_failed E v e a)"
  by (auto simp: sync_failed_def sends_def on_store_def send_json_def daemon_messages_def Let_def)

lemma sends_sync: "sends E a ((perform_sync_rest E v c fetched a)\<lparr> ap_pc := x \<rparr>)"
proof -
  have "sends E a (perform_sync_rest E v c fetched a)"
  proof (cases rule: perform_sync_rest_cases [of fetched E v c a])
    case (unapplied sn e n)
    have "sends E a (a\<lparr> ap_node := n \<rparr>)" by (simp add: sends_same)
    also have "sends E (a\<lparr> ap_node := n \<rparr>) (perform_sync_rest E v c fetched a)"
      by (simp add: unapplied(3) sends_sync_failed)
    finally show ?thesis .
  qed (simp_all add: sends_sync_failed sends_same)
  then show ?thesis by (auto simp: sends_def)
qed

lemma sends_stream_callback: "sends E a (stream_callback E H y a)"
proof -
  have "sends E a (send_json (stream_message (ae_json E) y) a)"
    by (rule sends_json) (simp_all add: daemon_messages_def)
  then show ?thesis
    by (cases y) (simp_all add: publish_sender_event_def publish_receiver_event_def handle_sender_event_def
      handle_receiver_event_def)
qed

lemma sends_activation: "activation E C callbacks H r c a = (q, b) \<Longrightarrow> sends E a b"
proof (rule activation_effect)
  fix p n
  assume b: "b = fold (stream_callback E H) (case p of Inl _ \<Rightarrow> [] | Inr reports \<Rightarrow> reports) (a\<lparr> ap_node := n \<rparr>)"
  have "sends E a (a\<lparr> ap_node := n \<rparr>)" by (simp add: sends_same)
  also have "sends E (a\<lparr> ap_node := n \<rparr>) b" unfolding b by (rule sends_fold) (rule sends_stream_callback)
  finally show "sends E a b" .
qed

lemma sends_registration: "sends E a (registration_handler H callback u a)"
  by (simp add: registration_handler_def publish_registration_event_def handle_registration_event_def on_store_def sends_same)

text \<open>The steps of the sync thread are those that change its program point.\<close>

lemma sends_sync_step: "app_step E a b \<Longrightarrow> ap_pc b \<noteq> ap_pc a \<Longrightarrow> sends E a b"
proof (induction rule: app_step.cases)
  case (Disconnected s r t)
  then show ?case using sends_disconnected [of E s]
    by (auto simp: handle_ws_disconnected_def on_node_def eff_simps split: prod.splits sum.splits)
next
  case (Sync_end s v b c fetched)
  then show ?case by (simp add: sends_sync)
qed (auto simp: sends_def take_request_def on_store_def handle_ws_error_def handle_registration_event_def
    handle_sender_event_def handle_receiver_event_def send_json_def)

lemma callback_pc [simp]: "ap_pc (ws_callback E c a) = ap_pc a"
  by (cases c) (auto simp: handle_ws_error_def on_store_def handle_ws_disconnected_def on_node_def eff_simps
      split: prod.splits sum.splits)

lemma callbacks_pc [simp]: "ap_pc (fold (ws_callback E) cs a) = ap_pc a"
  by (induction cs arbitrary: a) simp_all

lemma stream_callback_pc [simp]: "ap_pc (stream_callback E H y a) = ap_pc a"
  by (cases y) (auto simp: publish_sender_event_def publish_receiver_event_def handle_sender_event_def
      handle_receiver_event_def send_json_def)

lemma stream_callbacks_pc [simp]: "ap_pc (fold (stream_callback E H) ys a) = ap_pc a"
  by (induction ys arbitrary: a) simp_all

lemma activation_pc: "activation E C callbacks H r c a = (q, b) \<Longrightarrow> ap_pc b = ap_pc a"
  by (erule activation_effect) simp

section \<open>The daemon and its client agree\<close>

text \<open>\<open>App\<close> and the client have the same idea of the link and of what has been sent; it is all messages of the daemon.\<close>

definition text_of :: "('v \<Rightarrow> string) \<Rightarrow> 'v \<Rightarrow> queued_message" where
  "text_of serialize m = \<lparr> qm_type = Text_message, qm_payload = serialize m \<rparr>"

definition linked :: "('v, 'rs) app_env \<Rightarrow> ('v \<Rightarrow> string) \<Rightarrow> ('v, 'rs) process \<Rightarrow> bool" where
  "linked E serialize p \<longleftrightarrow> ap_ws_connected (pr_app p) = wc_connected (pr_ws p) \<and>
     texts (pr_ws p) = map (text_of serialize) (ap_sent (pr_app p)) \<and>
     set (ap_sent (pr_app p)) \<subseteq> daemon_messages (ae_json E)"

definition feed :: "('v \<Rightarrow> string) \<Rightarrow> 'v list \<Rightarrow> ws_client \<Rightarrow> ws_client" where
  "feed serialize = fold (\<lambda>m w. snd (ws_send_json serialize m w))"

lemma feed_fields [simp]:
  "wc_pc (feed serialize ms w) = wc_pc w" "wc_connected (feed serialize ms w) = wc_connected w"
  "wc_calls (feed serialize ms w) = wc_calls w" "wc_stop_requested (feed serialize ms w) = wc_stop_requested w"
  "wc_client (feed serialize ms w) = wc_client w"
  by (induction ms arbitrary: w) (simp_all add: feed_def ws_send_json_def queue_message_def)

lemma feed_texts:
  "texts (feed serialize ms w) = texts w @ (if wc_connected w then map (text_of serialize) ms else [])"
proof (induction ms arbitrary: w)
  case Nil
  show ?case by (simp add: feed_def)
next
  case (Cons m ms)
  have "texts (snd (ws_send_json serialize m w)) = texts w @ (if wc_connected w then [text_of serialize m] else [])"
    "wc_connected (snd (ws_send_json serialize m w)) = wc_connected w"
    by (simp_all add: ws_send_json_def queue_message_def texts_def text_of_def)
  with Cons.IH [of "snd (ws_send_json serialize m w)"] show ?case by (simp add: feed_def)
qed

lemma feed_reachable: "ws_reachable J parse G w \<Longrightarrow> ws_reachable J parse G (feed serialize ms w)"
proof (induction ms arbitrary: w)
  case (Cons m ms)
  have "ws_reachable J parse G (snd (ws_send_json serialize m w))"
    unfolding ws_send_json_def
    by (rule ws_reachable.Step [OF Cons.prems ws_step.Queue [OF prod.collapse [symmetric]]])
  from Cons.IH [OF this] show ?case by (simp add: feed_def)
qed (simp add: feed_def)

lemma publish_feed:
  "publish serialize b p = p\<lparr> pr_app := b,
     pr_ws := feed serialize (drop (length (ap_sent (pr_app p))) (ap_sent b)) (pr_ws p) \<rparr>"
  by (simp add: publish_def feed_def)

lemma publish_fields [simp]:
  "pr_app (publish serialize b p) = b" "pr_started (publish serialize b p) = pr_started p"
  "pr_listener (publish serialize b p) = pr_listener p" "pr_stop (publish serialize b p) = pr_stop p"
  "wc_pc (pr_ws (publish serialize b p)) = wc_pc (pr_ws p)" "wc_calls (pr_ws (publish serialize b p)) = wc_calls (pr_ws p)"
  "wc_stop_requested (pr_ws (publish serialize b p)) = wc_stop_requested (pr_ws p)"
  "wc_client (pr_ws (publish serialize b p)) = wc_client (pr_ws p)"
  by (simp_all add: publish_feed)

lemma linked_publish:
  assumes "linked E serialize p" "sends E (pr_app p) b"
  shows "linked E serialize (publish serialize b p)"
proof -
  from assms(2) obtain ms where ms: "ap_sent b = ap_sent (pr_app p) @ ms" "ms = [] \<or> ap_ws_connected (pr_app p)"
    "set ms \<subseteq> daemon_messages (ae_json E)" "ap_ws_connected b = ap_ws_connected (pr_app p)" by (auto simp: sends_def)
  with assms(1) show ?thesis by (auto simp: linked_def publish_feed feed_texts)
qed

lemma reachable_publish:
  "ws_reachable J parse G (pr_ws p) \<Longrightarrow> ws_reachable J parse G (pr_ws (publish serialize b p))"
  by (simp add: publish_feed feed_reachable)

text \<open>The state of the process when the client has moved, before its callbacks run.\<close>

definition client_moved :: "ws_client \<Rightarrow> ('v, 'rs) process \<Rightarrow> ('v, 'rs) process" where
  "client_moved w p = p\<lparr> pr_ws := w, pr_app := (pr_app p)\<lparr> ap_ws_connected := wc_connected w \<rparr> \<rparr>"

lemma client_moves_moved:
  "client_moves E serialize w calls p =
     publish serialize (fold (ws_callback E) calls (pr_app (client_moved w p))) (client_moved w p)"
  by (simp add: client_moves_def client_moved_def publish_def)

lemma client_moved_fields [simp]:
  "pr_ws (client_moved w p) = w" "pr_app (client_moved w p) = (pr_app p)\<lparr> ap_ws_connected := wc_connected w \<rparr>"
  "pr_started (client_moved w p) = pr_started p" "pr_listener (client_moved w p) = pr_listener p"
  "pr_stop (client_moved w p) = pr_stop p"
  by (simp_all add: client_moved_def)

lemma linked_client_moves:
  assumes "linked E serialize p" "texts w = texts (pr_ws p)"
  shows "linked E serialize (client_moves E serialize w calls p)"
  unfolding client_moves_moved
proof (rule linked_publish)
  show "linked E serialize (client_moved w p)" using assms by (simp add: linked_def)
  show "sends E (pr_app (client_moved w p)) (fold (ws_callback E) calls (pr_app (client_moved w p)))"
    by (rule sends_fold) (rule sends_callback)
qed

lemma stop_texts [simp]: "texts (ws_stop closing w) = texts w"
  by (simp add: ws_stop_def texts_def)

text \<open>Which callbacks one move of the client makes.\<close>

lemma client_calls:
  assumes "ws_step J parse G w w'" "wc_calls w' = wc_calls w @ cs"
  shows "cs = [On_connected] \<and> wc_connected w' \<or>
    On_connected \<notin> set cs \<and> (wc_connected w' \<longrightarrow> wc_connected w) \<and> (On_disconnected \<in> set cs \<longrightarrow> cs = [On_disconnected])"
  using assms(1)
proof cases
  case (Message ty contents handled closing)
  with assms(2) show ?thesis
    by (auto simp: handler_cases close_active_client_def report_error_def split: sum.splits option.splits if_splits)
next
  case (Heartbeat closing)
  with assms(2) show ?thesis
    by (auto simp: handler_cases close_active_client_def report_error_def split: option.splits if_splits)
next
  case (Send_pass sent closing)
  with assms(2) show ?thesis
    by (auto simp: handler_cases close_active_client_def report_error_def split: list.splits option.splits if_splits)
qed (use assms(2) in \<open>auto simp: handler_cases close_active_client_def report_error_def split: option.splits if_splits\<close>)

text \<open>A client whose worker has ended after a stop request makes no callback.\<close>

definition unattended :: "ws_client \<Rightarrow> bool" where
  "unattended w \<longleftrightarrow> (wc_pc w \<in> {Loop_head, Connecting, Pausing, Ended} \<longrightarrow> \<not> wc_client w)"

lemma unattended_step:
  assumes "ws_step J parse G w w'" "unattended w"
  shows "unattended w'"
  using assms(1)
proof cases
  case (Message ty contents handled closing)
  with assms(2) show ?thesis
    by (auto simp: unattended_def handler_cases close_active_client_def report_error_def split: sum.split option.split)
next
  case (Heartbeat closing)
  with assms(2) show ?thesis
    by (auto simp: unattended_def handler_cases close_active_client_def report_error_def split: option.split)
next
  case (Send_pass sent closing)
  with assms(2) show ?thesis
    by (auto simp: unattended_def handler_cases close_active_client_def report_error_def split: list.split option.split)
qed (use assms(2) in \<open>auto simp: unattended_def handler_cases close_active_client_def report_error_def split: option.split if_splits\<close>)

lemma unattended_reachable: "ws_reachable J parse G w \<Longrightarrow> unattended w \<and> ws_good w"
proof (induction rule: ws_reachable.induct)
  case (Started now)
  show ?case by (simp add: unattended_def ws_started_def ws_good_def)
next
  case (Step s t)
  then show ?case by (blast intro: unattended_step ws_good_step)
qed

lemma ended_step:
  assumes "ws_step J parse G w w'" "unattended w" "wc_pc w = Ended" "wc_stop_requested w" "wc_calls w' = wc_calls w @ cs"
  shows "cs = [] \<and> wc_pc w' = Ended"
  using assms(1)
proof cases
  case (Send_pass sent closing)
  with assms(2-5) show ?thesis by (auto simp: handler_cases split: list.splits)
qed (use assms(2-5) in \<open>auto simp: unattended_def handler_cases close_active_client_def split: if_splits\<close>)

section \<open>The process as a run of the daemon\<close>

lemma callbacks_steps:
  assumes "On_connected \<notin> set cs" "On_disconnected \<in> set cs \<longrightarrow> cs = [On_disconnected] \<and> (\<forall>v b c. ap_pc a \<noteq> Fetching v b c)"
  shows "(daemon_step E C)\<^sup>*\<^sup>* a (fold (ws_callback E) cs a)"
proof (cases "On_disconnected \<in> set cs")
  case True
  then have "app_step E a (snd (handle_ws_disconnected E a))"
    using assms(2) by (intro app_step.Disconnected [OF _ prod.collapse [symmetric]]) blast
  with True assms(2) show ?thesis by (auto intro: daemon_step.Threads)
next
  case False
  from False assms(1) show ?thesis
  proof (induction cs arbitrary: a)
    case (Cons c cs)
    then have "app_step E a (ws_callback E c a)" by (cases c) (auto intro: app_step.Changed app_step.Ws_error)
    then have "daemon_step E C a (ws_callback E c a)" by (rule daemon_step.Threads)
    with Cons show ?case by (auto intro: converse_rtranclp_into_rtranclp)
  qed simp
qed

lemma client_steps:
  assumes link: "ap_ws_connected a = wc_connected w" and step: "ws_step J parse G w w'" "wc_calls w' = wc_calls w @ cs"
    and mutex: "On_disconnected \<in> set cs \<longrightarrow> (\<forall>v b c. ap_pc a \<noteq> Fetching v b c)"
  shows "(daemon_step E C)\<^sup>*\<^sup>* a (fold (ws_callback E) cs (a\<lparr> ap_ws_connected := wc_connected w' \<rparr>))"
proof -
  from client_calls [OF step] consider (connected) "cs = [On_connected]" "wc_connected w'"
    | (other) "On_connected \<notin> set cs" "wc_connected w' \<longrightarrow> wc_connected w" "On_disconnected \<in> set cs \<longrightarrow> cs = [On_disconnected]"
    by blast
  then show ?thesis
  proof cases
    case connected
    have "daemon_step E C a (handle_ws_connected E (a\<lparr> ap_ws_connected := True \<rparr>))"
      by (intro daemon_step.Threads app_step.Connected)
    with connected show ?thesis by auto
  next
    case other
    have "(daemon_step E C)\<^sup>*\<^sup>* a (a\<lparr> ap_ws_connected := wc_connected w' \<rparr>)"
    proof (cases "wc_connected w'")
      case True
      with other(2) link have "a\<lparr> ap_ws_connected := wc_connected w' \<rparr> = a" by (cases a) simp
      then show ?thesis by simp
    next
      case False
      then show ?thesis by (auto intro: daemon_step.Threads app_step.Link_lost)
    qed
    also have "(daemon_step E C)\<^sup>*\<^sup>* (a\<lparr> ap_ws_connected := wc_connected w' \<rparr>)
        (fold (ws_callback E) cs (a\<lparr> ap_ws_connected := wc_connected w' \<rparr>))"
      by (rule callbacks_steps) (use other mutex in auto)
    finally show ?thesis .
  qed
qed

lemma finished_stays: "app_step E a b \<Longrightarrow> ap_pc a = Finished \<Longrightarrow> ap_pc b = Finished"
  by (induction rule: app_step.cases)
    (auto simp: handle_ws_error_def handle_registration_event_def handle_sender_event_def handle_receiver_event_def
      on_store_def send_json_def handle_ws_disconnected_def on_node_def eff_simps split: prod.splits sum.splits)

text \<open>What a stopped process looks like, and the invariant of the process.\<close>

definition stopped_app :: "('v, 'rs) app \<Rightarrow> bool" where
  "stopped_app a \<longleftrightarrow> nd_lifecycle_state (ap_node a) = Stopped \<and>
     st_node_state (ss_status (ap_store a)) = ''stopped'' \<and> st_daemon_state (ss_status (ap_store a)) = ''stopped''"

definition process_good ::
    "('v, 'rs) app_env \<Rightarrow> ('v, 'p, 'm, 'c) connection_lib \<Rightarrow> ws_config \<Rightarrow> (string \<Rightarrow> exc + 'v) \<Rightarrow> ('v \<Rightarrow> string) \<Rightarrow>
     ('v, 'rs) app \<Rightarrow> ('v, 'rs) process \<Rightarrow> bool" where
  "process_good E C G parse serialize a p \<longleftrightarrow>
     linked E serialize p \<and> ws_reachable (ae_json E) parse G (pr_ws p) \<and>
     (pr_stop p \<noteq> All_stopped \<longrightarrow> (daemon_step E C)\<^sup>*\<^sup>* a (pr_app p)) \<and>
     (pr_started p \<longleftrightarrow> pr_stop p \<noteq> All_stopped) \<and>
     (wc_stop_requested (pr_ws p) \<longleftrightarrow> pr_stop p \<noteq> Not_stopping) \<and>
     (pr_stop p \<noteq> Not_stopping \<longrightarrow> ap_stop_requested (pr_app p)) \<and>
     (pr_stop p \<notin> {Not_stopping, Joining_client} \<longrightarrow> wc_pc (pr_ws p) = Ended) \<and>
     (pr_stop p \<in> {Closing_listener, Stopping_node, All_stopped} \<longrightarrow> ap_pc (pr_app p) = Finished) \<and>
     (pr_stop p \<in> {Stopping_node, All_stopped} \<longrightarrow> \<not> pr_listener p) \<and>
     (pr_stop p = All_stopped \<longrightarrow> stopped_app (pr_app p))"

lemma process_goodD:
  assumes "process_good E C G parse serialize a p"
  shows "linked E serialize p" "ws_reachable (ae_json E) parse G (pr_ws p)"
    "pr_stop p \<noteq> All_stopped \<Longrightarrow> (daemon_step E C)\<^sup>*\<^sup>* a (pr_app p)"
    "pr_started p \<longleftrightarrow> pr_stop p \<noteq> All_stopped" "wc_stop_requested (pr_ws p) \<longleftrightarrow> pr_stop p \<noteq> Not_stopping"
    "pr_stop p \<noteq> Not_stopping \<Longrightarrow> ap_stop_requested (pr_app p)"
    "pr_stop p \<noteq> Not_stopping \<Longrightarrow> pr_stop p \<noteq> Joining_client \<Longrightarrow> wc_pc (pr_ws p) = Ended"
    "pr_stop p \<in> {Closing_listener, Stopping_node, All_stopped} \<Longrightarrow> ap_pc (pr_app p) = Finished"
    "pr_stop p \<in> {Stopping_node, All_stopped} \<Longrightarrow> \<not> pr_listener p"
    "pr_stop p = All_stopped \<Longrightarrow> stopped_app (pr_app p)"
  using assms unfolding process_good_def by blast+

lemma process_goodI:
  assumes "linked E serialize p" "ws_reachable (ae_json E) parse G (pr_ws p)"
    "pr_stop p \<noteq> All_stopped \<Longrightarrow> (daemon_step E C)\<^sup>*\<^sup>* a (pr_app p)"
    "pr_started p \<longleftrightarrow> pr_stop p \<noteq> All_stopped" "wc_stop_requested (pr_ws p) \<longleftrightarrow> pr_stop p \<noteq> Not_stopping"
    "pr_stop p \<noteq> Not_stopping \<Longrightarrow> ap_stop_requested (pr_app p)"
    "pr_stop p \<noteq> Not_stopping \<Longrightarrow> pr_stop p \<noteq> Joining_client \<Longrightarrow> wc_pc (pr_ws p) = Ended"
    "pr_stop p \<in> {Closing_listener, Stopping_node, All_stopped} \<Longrightarrow> ap_pc (pr_app p) = Finished"
    "pr_stop p \<in> {Stopping_node, All_stopped} \<Longrightarrow> \<not> pr_listener p"
    "pr_stop p = All_stopped \<Longrightarrow> stopped_app (pr_app p)"
  shows "process_good E C G parse serialize a p"
  unfolding process_good_def using assms by blast

lemma sends_callbacks: "sends E a (fold (ws_callback E) cs a)"
  by (rule sends_fold) (rule sends_callback)

text \<open>An operation of \<open>App\<close> that is a step of the daemon.\<close>

lemma process_good_publish:
  assumes p: "process_good E C G parse serialize a p" and op: "sends E (pr_app p) b" "daemon_step E C (pr_app p) b"
    and same: "pr_stop p \<in> {Closing_listener, Stopping_node, All_stopped} \<Longrightarrow> ap_pc b = ap_pc (pr_app p)" "pr_stop p \<noteq> All_stopped"
  shows "process_good E C G parse serialize a (publish serialize b p)"
proof (rule process_goodI, unfold publish_fields)
  note p = process_goodD [OF p]
  show "linked E serialize (publish serialize b p)" by (rule linked_publish [OF p(1) op(1)])
  show "ws_reachable (ae_json E) parse G (pr_ws (publish serialize b p))" by (rule reachable_publish [OF p(2)])
  show "(daemon_step E C)\<^sup>*\<^sup>* a b" using p(3) [OF same(2)] op(2) by simp
  show "ap_stop_requested b" if "pr_stop p \<noteq> Not_stopping" using p(6) [OF that] op(1) by (simp add: sends_def)
  show "ap_pc b = Finished" if "pr_stop p \<in> {Closing_listener, Stopping_node, All_stopped}"
    using p(8) [OF that] same(1) [OF that] by simp
qed (use process_goodD(4,5,7,9) [OF p] same(2) in simp_all)

lemma app_step_publish_good:
  assumes p: "process_good E C G parse serialize a p" and step: "app_step E (pr_app p) b" "ap_pc b \<noteq> ap_pc (pr_app p)"
  shows "process_good E C G parse serialize a (publish serialize b p)"
proof -
  have "pr_stop p \<notin> {Closing_listener, Stopping_node, All_stopped}"
    using finished_stays [OF step(1)] process_goodD(8) [OF p] step(2) by fastforce
  then show ?thesis
    by (intro process_good_publish [OF p sends_sync_step [OF step] daemon_step.Threads [OF step(1)]]) simp_all
qed

text \<open>A move of the client, on its own or for the stop request.\<close>

lemma client_moves_fields [simp]:
  "pr_app (client_moves E serialize w cs p) = fold (ws_callback E) cs ((pr_app p)\<lparr> ap_ws_connected := wc_connected w \<rparr>)"
  "pr_started (client_moves E serialize w cs p) = pr_started p" "pr_listener (client_moves E serialize w cs p) = pr_listener p"
  "pr_stop (client_moves E serialize w cs p) = pr_stop p" "wc_pc (pr_ws (client_moves E serialize w cs p)) = wc_pc w"
  "wc_stop_requested (pr_ws (client_moves E serialize w cs p)) = wc_stop_requested w"
  "wc_calls (pr_ws (client_moves E serialize w cs p)) = wc_calls w"
  by (simp_all add: client_moves_moved)

lemma callbacks_stop [simp]: "ap_stop_requested (fold (ws_callback E) cs a) = ap_stop_requested a"
  using sends_callbacks [of E a cs] by (simp add: sends_def)

lemma process_good_client:
  assumes p: "process_good E C G parse serialize a p"
    and step: "ws_step (ae_json E) parse G (pr_ws p) w" "texts w = texts (pr_ws p)" "wc_calls w = wc_calls (pr_ws p) @ cs"
    and mutex: "On_disconnected \<in> set cs \<longrightarrow> (\<forall>v b c. ap_pc (pr_app p) \<noteq> Fetching v b c)"
  shows "linked E serialize (client_moves E serialize w cs p)"
    "ws_reachable (ae_json E) parse G (pr_ws (client_moves E serialize w cs p))"
    "pr_stop p \<noteq> All_stopped \<Longrightarrow>
       (daemon_step E C)\<^sup>*\<^sup>* a (fold (ws_callback E) cs ((pr_app p)\<lparr> ap_ws_connected := wc_connected w \<rparr>))"
proof -
  note p = process_goodD [OF p]
  show "linked E serialize (client_moves E serialize w cs p)" by (rule linked_client_moves [OF p(1) step(2)])
  show "ws_reachable (ae_json E) parse G (pr_ws (client_moves E serialize w cs p))"
    unfolding client_moves_moved by (rule reachable_publish) (simp add: ws_reachable.Step [OF p(2) step(1)])
  have "ap_ws_connected (pr_app p) = wc_connected (pr_ws p)" using p(1) by (simp add: linked_def)
  note moves = client_steps [OF this step(1,3) mutex, where E = E and C = C]
  show "(daemon_step E C)\<^sup>*\<^sup>* a (fold (ws_callback E) cs ((pr_app p)\<lparr> ap_ws_connected := wc_connected w \<rparr>))"
    if "pr_stop p \<noteq> All_stopped" by (rule rtranclp_trans [OF p(3) [OF that] moves])
qed

text \<open>The steps of the process keep the invariant; once everything has stopped, nothing happens any more.\<close>

lemma stop_node_good:
  assumes p: "process_good E C G parse serialize a p" and "pr_stop p = Stopping_node"
  shows "process_good E C G parse serialize a (stop_node E serialize p)"
proof -
  note p = process_goodD [OF p]
  have "\<not> wc_connected (pr_ws p)" using p(7) unattended_reachable [OF p(2)] assms(2) by (simp add: ws_good_def)
  then have link: "\<not> ap_ws_connected (pr_app p)" using p(1) by (simp add: linked_def)
  obtain b where b: "stop_node E serialize p = (publish serialize b p)\<lparr> pr_started := False, pr_stop := All_stopped \<rparr>"
    "b = (pr_app p)\<lparr> ap_node := snd (node_stop (ap_node (pr_app p))), ap_last_node_state := ''stopped'',
       ap_store := set_daemon_state ''stopped'' (store_set_node_state ''stopped'' (store_set_node_state ''stopping'' (ap_store (pr_app p)))) \<rparr>"
    using link by (simp add: stop_node_def set_node_state_unconnected on_store_def Let_def)
  have "stopped_app b" by (simp add: b(2) stopped_app_def node_stop_def store_defs Let_def)
  moreover have "linked E serialize (publish serialize b p)"
    by (rule linked_publish [OF p(1)]) (simp add: b(2) sends_same)
  moreover have "ws_reachable (ae_json E) parse G (pr_ws (publish serialize b p))" by (rule reachable_publish [OF p(2)])
  ultimately show ?thesis
    using p(5-9) assms(2) unfolding b(1) by (intro process_goodI) (simp_all add: linked_def b(2))
qed

lemma process_good_step:
  assumes p: "process_good E C G parse serialize a p" and step: "process_step E C G parse serialize p q"
    and running: "pr_stop p \<noteq> All_stopped"
  shows "process_good E C G parse serialize a q"
  using step
proof cases
  case (Client_moves w calls)
  note m = process_good_client [OF p Client_moves(2,5,6,7)]
  show ?thesis unfolding Client_moves(1)
  proof (rule process_goodI, goal_cases)
    case 7
    then show ?case
      using ended_step [OF Client_moves(2) _ _ _ Client_moves(6)] unattended_reachable [OF process_goodD(2) [OF p]]
        process_goodD(5,7) [OF p] by auto
  qed (use m process_goodD [OF p] running Client_moves(4) in simp_all)
next
  case (Sync_moves b)
  then show ?thesis using app_step_publish_good [OF p] by simp
next
  case (Time_passes now)
  have "daemon_step E C (pr_app p) ((pr_app p)\<lparr> ap_now := now \<rparr>)" by (rule daemon_step.Threads [OF app_step.Time]) fact
  with process_goodD [OF p] running show ?thesis unfolding Time_passes(1)
    by (intro process_goodI) (simp_all add: linked_def)
next
  case (Stream_activated resource connection_resource r b)
  show ?thesis unfolding Stream_activated(1)
    by (rule process_good_publish [OF p sends_activation [OF Stream_activated(3)] daemon_step.Activated [OF Stream_activated(3)]])
      (use running activation_pc [OF Stream_activated(3)] in simp_all)
next
  case (Registration_changed u)
  show ?thesis unfolding Registration_changed(1)
    by (rule process_good_publish [OF p sends_registration daemon_step.Registered])
      (use running in \<open>simp_all add: registration_handler_def publish_registration_event_def
         handle_registration_event_def on_store_def\<close>)
next
  case Stop_requested
  have "daemon_step E C (pr_app p) ((pr_app p)\<lparr> ap_stop_requested := True \<rparr>)" by (rule daemon_step.Threads [OF app_step.Stop])
  with process_goodD [OF p] running show ?thesis unfolding Stop_requested request_stop_def
    by (intro process_goodI) (simp_all add: linked_def)
next
  case (Stop_begins w closing calls)
  from Stop_begins(5) have "On_disconnected \<notin> set calls"
    using Stop_begins(6) by (auto simp: ws_stop_def close_active_client_def report_error_def ws_call_def split: if_splits option.splits)
  moreover have "ws_step (ae_json E) parse G (pr_ws p) w" unfolding Stop_begins(5) by (rule ws_step.Stop)
  ultimately have m: "linked E serialize (client_moves E serialize w calls p)"
    "ws_reachable (ae_json E) parse G (pr_ws (client_moves E serialize w calls p))"
    "(daemon_step E C)\<^sup>*\<^sup>* a (fold (ws_callback E) calls ((pr_app p)\<lparr> ap_ws_connected := wc_connected w \<rparr>))"
    using process_good_client [OF p _ _ Stop_begins(6)] Stop_begins(5) running by simp_all
  have "wc_stop_requested w" by (simp add: Stop_begins(5) ws_stop_def)
  with m Stop_begins(2-4) show ?thesis unfolding Stop_begins(1)
    by (intro process_goodI) (simp_all add: linked_def del: client_moves_fields(1), simp_all)
next
  case Client_joined
  with process_goodD [OF p] show ?thesis by (intro process_goodI) (simp_all add: linked_def)
next
  case Sync_joined
  with process_goodD [OF p] show ?thesis by (intro process_goodI) (simp_all add: linked_def)
next
  case Listener_closed
  with process_goodD [OF p] show ?thesis by (intro process_goodI) (simp_all add: linked_def http_stop_def)
next
  case Node_stopped
  with stop_node_good [OF p] show ?thesis by simp
qed

lemma frozen_step:
  assumes p: "process_good E C G parse serialize a p" and stopped: "pr_stop p = All_stopped"
    and step: "process_step E C G parse serialize p q"
  shows "process_good E C G parse serialize a q \<and> pr_stop q = All_stopped \<and> ap_node (pr_app q) = ap_node (pr_app p) \<and>
    ap_store (pr_app q) = ap_store (pr_app p) \<and> ap_sent (pr_app q) = ap_sent (pr_app p)"
  using step
proof cases
  case (Client_moves w calls)
  have "unattended (pr_ws p)" using unattended_reachable [OF process_goodD(2) [OF p]] by simp
  from ended_step [OF Client_moves(2) this _ _ Client_moves(6)] process_goodD(5,7) [OF p] stopped
  have none: "calls = []" "wc_pc w = Ended" by auto
  with process_good_client(1,2) [OF p Client_moves(2,5,6,7)] process_goodD(4-10) [OF p] Client_moves(4) stopped
  show ?thesis unfolding Client_moves(1)
    by (intro conjI process_goodI) (simp_all add: stopped_app_def)
next
  case (Sync_moves b)
  then show ?thesis using finished_stays [OF Sync_moves(2)] process_goodD(8) [OF p] stopped by simp
next
  case (Time_passes now)
  with process_goodD [OF p] stopped show ?thesis
    by (intro conjI process_goodI) (simp_all add: linked_def stopped_app_def)
next
  case Stop_requested
  with process_goodD [OF p] stopped show ?thesis unfolding request_stop_def
    by (intro conjI process_goodI) (simp_all add: linked_def stopped_app_def)
qed (use process_goodD(4,10) [OF p] stopped in \<open>simp_all add: stopped_app_def\<close>)

lemma serving_good: "process_good E C G parse serialize (app_started n now) (serving n now listening)"
  by (rule process_goodI) (simp_all add: serving_def linked_def texts_def ws_started_def app_started_def,
      simp add: ws_reachable.Started [unfolded ws_started_def])

lemma process_run_good:
  assumes "(process_step E C G parse serialize)\<^sup>*\<^sup>* p q" "process_good E C G parse serialize a p"
  shows "process_good E C G parse serialize a q \<and> (pr_stop q = Not_stopping \<longrightarrow> pr_stop p = Not_stopping) \<and>
    (pr_stop p = All_stopped \<longrightarrow> pr_stop q = All_stopped \<and> ap_node (pr_app q) = ap_node (pr_app p) \<and>
       ap_store (pr_app q) = ap_store (pr_app p) \<and> ap_sent (pr_app q) = ap_sent (pr_app p))"
  using assms(1)
proof induction
  case base
  from assms(2) show ?case by simp
next
  case (step q r)
  then have q: "process_good E C G parse serialize a q" by blast
  show ?case
  proof (cases "pr_stop q = All_stopped")
    case True
    from frozen_step [OF q True step(2)] step.IH True show ?thesis by auto
  next
    case False
    have "pr_stop r = Not_stopping \<longrightarrow> pr_stop q = Not_stopping"
      using step(2) by cases (simp_all add: request_stop_def stop_node_def Let_def)
    with process_good_step [OF q step(2) False] step.IH False show ?thesis by blast
  qed
qed

lemma process_reaches:
  assumes "(process_step E C G parse serialize)\<^sup>*\<^sup>* (serving n now listening) p"
  shows "process_good E C G parse serialize (app_started n now) p"
  using process_run_good [OF assms serving_good] by blast

text \<open>The texts on the wire are those of messages that were sent, in order.\<close>

lemma good_in_order:
  assumes "process_good E C G parse serialize a p"
  shows "subseq (filter (\<lambda>m. qm_type m = Text_message) (wc_wire (pr_ws p))) (map (text_of serialize) (ap_sent (pr_app p)))"
proof -
  note good = process_goodD [OF assms]
  from good(2) have "ordered (pr_ws p)"
  proof induction
    case (Started now)
    show ?case by (simp add: ordered_def ws_started_def)
  next
    case (Step s t)
    then show ?case by (blast intro: ordered_step)
  qed
  then have "subseq (wc_wire (pr_ws p)) (wc_accepted (pr_ws p))"
    by (auto simp: ordered_def intro: subseq_order.trans [of _ "wc_wire (pr_ws p) @ wc_send_queue (pr_ws p)"])
  then have "subseq (filter (\<lambda>m. qm_type m = Text_message) (wc_wire (pr_ws p))) (texts (pr_ws p))"
    unfolding texts_def by (rule subseq_filter)
  with good(1) show ?thesis by (simp add: linked_def)
qed

section \<open>Joining the threads\<close>

text \<open>How far the two workers and the stopping thread are from their ends once the client is being stopped.\<close>

fun sync_rank :: "sync_pc \<Rightarrow> nat" where
  "sync_rank Finished = 0"
| "sync_rank Waiting = 1"
| "sync_rank _ = 2"

fun ws_rank :: "ws_pc \<Rightarrow> nat" where
  "ws_rank Ended = 0"
| "ws_rank Loop_head = 1"
| "ws_rank Pausing = 2"
| "ws_rank (Leaving b) = 3"
| "ws_rank ws_pc.Serving = 4"
| "ws_rank Announcing = 5"
| "ws_rank Opening = 6"
| "ws_rank Connecting = 7"

fun stop_rank :: "stop_pc \<Rightarrow> nat" where
  "stop_rank Not_stopping = 5"
| "stop_rank Joining_client = 4"
| "stop_rank Joining_sync = 3"
| "stop_rank Closing_listener = 2"
| "stop_rank Stopping_node = 1"
| "stop_rank All_stopped = 0"

definition join_rank :: "('v, 'rs) process \<Rightarrow> nat" where
  "join_rank p = sync_rank (ap_pc (pr_app p)) + ws_rank (wc_pc (pr_ws p)) + stop_rank (pr_stop p)"

lemma sync_rank_step:
  "app_step E a b \<Longrightarrow> ap_stop_requested a \<Longrightarrow> ap_pc b \<noteq> ap_pc a \<Longrightarrow> sync_rank (ap_pc b) < sync_rank (ap_pc a)"
proof (induction rule: app_step.cases)
  case (Disconnected s r t)
  then show ?case
    by (auto simp: handle_ws_disconnected_def on_node_def on_store_def eff_simps split: prod.splits sum.splits)
qed (auto simp: take_request_def on_store_def handle_ws_error_def handle_registration_event_def
    handle_sender_event_def handle_receiver_event_def send_json_def split: if_splits)

lemma ws_rank_step:
  assumes "ws_step J parse G w w'" "wc_stop_requested w" "wc_pc w' \<noteq> wc_pc w"
  shows "ws_rank (wc_pc w') < ws_rank (wc_pc w)"
  using assms(1)
proof cases
  case (Message ty contents handled closing)
  with assms(2,3) show ?thesis by (simp add: message_handler_def)
next
  case (Heartbeat closing)
  with assms(2,3) show ?thesis by (simp add: heartbeat_check_def)
next
  case (Send_pass sent closing)
  with assms(2,3) show ?thesis by (auto simp: send_pass_def split: list.splits)
qed (use assms(2,3) in \<open>auto simp: handler_cases split: if_splits\<close>)

text \<open>A step that brings the stop forward: of one of the two threads that are joined, or of the one that joins them.\<close>

definition joining_step ::
    "('v, 'rs) app_env \<Rightarrow> ('v, 'p, 'm, 'c) connection_lib \<Rightarrow> ws_config \<Rightarrow> (string \<Rightarrow> exc + 'v) \<Rightarrow> ('v \<Rightarrow> string) \<Rightarrow>
     ('v, 'rs) process \<Rightarrow> ('v, 'rs) process \<Rightarrow> bool" where
  "joining_step E C G parse serialize p q \<longleftrightarrow> process_step E C G parse serialize p q \<and> pr_stop p \<noteq> Not_stopping \<and>
     (ap_pc (pr_app q) \<noteq> ap_pc (pr_app p) \<or> wc_pc (pr_ws q) \<noteq> wc_pc (pr_ws p) \<or> pr_stop q \<noteq> pr_stop p)"

lemma joining_rank:
  assumes p: "process_good E C G parse serialize a p" and step: "joining_step E C G parse serialize p q"
  shows "join_rank q < join_rank p"
proof -
  note g = process_goodD [OF p]
  from step have moved: "ap_pc (pr_app q) \<noteq> ap_pc (pr_app p) \<or> wc_pc (pr_ws q) \<noteq> wc_pc (pr_ws p) \<or> pr_stop q \<noteq> pr_stop p"
    and stop: "pr_stop p \<noteq> Not_stopping" "process_step E C G parse serialize p q" by (simp_all add: joining_step_def)
  from stop(2) show ?thesis
  proof cases
    case (Client_moves w calls)
    then show ?thesis using moved ws_rank_step [OF Client_moves(2)] g(5) stop(1) by (simp add: join_rank_def)
  next
    case (Sync_moves b)
    then show ?thesis using sync_rank_step [OF Sync_moves(2)] g(6) [OF stop(1)] by (simp add: join_rank_def)
  next
    case (Stream_activated resource connection_resource r b)
    then show ?thesis using moved activation_pc [OF Stream_activated(3)] by simp
  next
    case (Registration_changed u)
    then show ?thesis using moved
      by (simp add: registration_handler_def publish_registration_event_def handle_registration_event_def on_store_def split: if_splits)
  next
    case Node_stopped
    then show ?thesis using stop(1)
      by (simp add: join_rank_def stop_node_def app_set_node_state_def on_store_def send_json_def Let_def)
  qed (use moved stop(1) in \<open>simp_all add: join_rank_def request_stop_def http_stop_def\<close>)
qed

lemma sync_can_finish:
  assumes "ap_stop_requested a" "ap_pc a \<noteq> Finished"
  obtains b where "app_step E a b" "ap_pc b \<noteq> ap_pc a"
proof (cases "ap_pc a")
  case Waiting
  with assms that [OF app_step.Leave] show ?thesis by simp
next
  case (Debouncing d)
  with assms that [OF app_step.Leave [of a d]] show ?thesis by simp
next
  case Delaying
  with assms that [OF app_step.Leave] show ?thesis by simp
next
  case (Starting_sync v b)
  with assms that [OF app_step.Sync_skipped] show ?thesis by simp
next
  case (Fetching v b c)
  from that [OF app_step.Sync_end [OF Fetching]] Fetching show ?thesis by simp
qed (use assms in simp)

lemma client_can_end:
  assumes "wc_stop_requested w" "wc_pc w \<noteq> Ended"
  obtains w' cs where "ws_step J parse G w w'" "wc_pc w' \<noteq> wc_pc w" "wc_pc w' \<noteq> Leaving True"
    "wc_stop_requested w'" "texts w' = texts w" "wc_calls w' = wc_calls w @ cs"
proof (cases "wc_pc w")
  case Loop_head
  with assms show ?thesis by (intro that [OF ws_step.End_loop, of "[]"]) (simp_all add: texts_def)
next
  case Connecting
  with assms show ?thesis
    by (intro that [OF ws_step.Connect_fails [where error = "[]"], of "[On_error []]"]) (simp_all add: texts_def report_error_def ws_call_def)
next
  case Opening
  with assms show ?thesis by (intro that [OF ws_step.Opens, of "[On_connected]"]) (simp_all add: texts_def ws_call_def)
next
  case Announcing
  with assms show ?thesis by (intro that [OF ws_step.Announced, of "[]"]) (simp_all add: texts_def)
next
  case Serving
  with assms show ?thesis by (intro that [OF ws_step.Serving_over, of "[]"]) (simp_all add: texts_def)
next
  case (Leaving b)
  with assms show ?thesis
    by (intro that [OF ws_step.Leaves, of b "if wc_connected w then [On_disconnected] else []"])
      (simp_all add: texts_def leave_connection_def ws_call_def Let_def)
next
  case Pausing
  with assms show ?thesis by (intro that [OF ws_step.Paused, of "[]"]) (simp_all add: texts_def)
qed (use assms in simp)

lemma joining_progress:
  assumes p: "process_good E C G parse serialize a p" and stop: "pr_stop p \<noteq> Not_stopping" "pr_stop p \<noteq> All_stopped"
  shows "\<exists>q. joining_step E C G parse serialize p q"
proof -
  note g = process_goodD [OF p]
  consider (sync) "ap_pc (pr_app p) \<noteq> Finished" | (client) "ap_pc (pr_app p) = Finished" "wc_pc (pr_ws p) \<noteq> Ended"
    | (joined) "ap_pc (pr_app p) = Finished" "wc_pc (pr_ws p) = Ended" by blast
  then show ?thesis
  proof cases
    case sync
    from sync_can_finish [OF g(6) [OF stop(1)] sync] obtain b where "app_step E (pr_app p) b" "ap_pc b \<noteq> ap_pc (pr_app p)" .
    with process_step.Sync_moves [OF this, of C G parse serialize] stop show ?thesis
      by (intro exI [of _ "publish serialize b p"]) (simp add: joining_step_def)
  next
    case client
    from g(5) stop(1) have requested: "wc_stop_requested (pr_ws p)" by simp
    from client_can_end [OF requested client(2)] obtain w cs where
      w: "ws_step (ae_json E) parse G (pr_ws p) w" "wc_pc w \<noteq> wc_pc (pr_ws p)" "wc_pc w \<noteq> Leaving True"
        "wc_stop_requested w" "texts w = texts (pr_ws p)" "wc_calls w = wc_calls (pr_ws p) @ cs" .
    have "process_step E C G parse serialize p (client_moves E serialize w cs p)"
      by (rule process_step.Client_moves) (use w requested client(1) in simp_all)
    with w(2) stop show ?thesis
      by (intro exI [of _ "client_moves E serialize w cs p"]) (simp add: joining_step_def)
  next
    case joined
    show ?thesis
    proof (cases "pr_stop p")
      case Joining_client
      from process_step.Client_joined [OF this joined(2)] Joining_client show ?thesis by (fastforce simp: joining_step_def)
    next
      case Joining_sync
      from process_step.Sync_joined [OF this joined(1)] Joining_sync show ?thesis by (fastforce simp: joining_step_def)
    next
      case Closing_listener
      from process_step.Listener_closed [OF this] Closing_listener show ?thesis by (fastforce simp: joining_step_def)
    next
      case Stopping_node
      have "pr_stop (stop_node E serialize p) = All_stopped" by (simp add: stop_node_def Let_def)
      with process_step.Node_stopped [OF Stopping_node] Stopping_node show ?thesis by (fastforce simp: joining_step_def)
    qed (use stop in simp_all)
  qed
qed

lemma joining_completes:
  assumes "process_good E C G parse serialize a p" "pr_stop p \<noteq> Not_stopping"
  shows "\<exists>q. (process_step E C G parse serialize)\<^sup>*\<^sup>* p q \<and> pr_stop q = All_stopped"
  using assms
proof (induction "join_rank p" arbitrary: p rule: less_induct)
  case less
  show ?case
  proof (cases "pr_stop p = All_stopped")
    case False
    from joining_progress [OF less.prems False] obtain q where q: "joining_step E C G parse serialize p q" by blast
    then have step: "process_step E C G parse serialize p q" by (simp add: joining_step_def)
    have "process_good E C G parse serialize a q" "pr_stop q \<noteq> Not_stopping"
      using process_run_good [OF r_into_rtranclp [of "process_step E C G parse serialize", OF step] less.prems(1)] less.prems(2) by auto
    from less.hyps [OF joining_rank [OF less.prems(1) q] this] step show ?thesis
      by (auto intro: converse_rtranclp_into_rtranclp)
  qed auto
qed

section \<open>What the messages are\<close>

fun observed_type :: "stream_kind \<Rightarrow> string" where
  "observed_type Video_sender = ''sender.video.observed_changed''"
| "observed_type Audio_sender = ''sender.audio.observed_changed''"
| "observed_type Ancillary_sender = ''sender.ancillary.observed_changed''"
| "observed_type Video_receiver = ''receiver.video.observed_changed''"
| "observed_type Audio_receiver = ''receiver.audio.observed_changed''"
| "observed_type Ancillary_receiver = ''receiver.ancillary.observed_changed''"

text \<open>An object with the name of its type and the members of that type.\<close>

definition message_typed :: "('v, 'x) json_lib_scheme \<Rightarrow> 'v \<Rightarrow> bool" where
  "message_typed J m \<longleftrightarrow> jtype J m = JObject \<and>
     (\<exists>ty. jat J m ''type'' = Inr (jstring J ty) \<and>
       (ty = ''sync.failed'' \<and>
          (\<exists>v t. jat J m ''revision'' = Inr (jint64 J v) \<and> jat J m ''message'' = Inr (jstring J t)) \<or>
        ty = ''streams.drained_due_to_ws_disconnect'' \<and> (\<exists>t. jat J m ''message'' = Inr (jstring J t)) \<or>
        ty = ''node.lifecycle_changed'' \<and> (\<exists>x. jat J m ''payload'' = Inr x \<and> jtype J x = JObject) \<or>
        (\<exists>k x. ty = observed_type k \<and> jat J m ''payload'' = Inr x \<and> jtype J x = JObject)))"

context json_api
begin

lemma stream_message_typed: "message_typed J (stream_message J y)"
proof (cases y)
  case (VS x)
  then show ?thesis unfolding message_typed_def
    by (intro conjI exI [of _ "observed_type Video_sender"] disjI2 exI [of _ Video_sender])
      (simp_all add: make_sender_video_observed_changed_message_def make_sender_message_def at_build_case video_sender_to_json_def)
next
  case (AS x)
  then show ?thesis unfolding message_typed_def
    by (intro conjI exI [of _ "observed_type Audio_sender"] disjI2 exI [of _ Audio_sender])
      (simp_all add: make_sender_audio_observed_changed_message_def make_sender_message_def at_build_case audio_sender_to_json_def)
next
  case (NS x)
  then show ?thesis unfolding message_typed_def
    by (intro conjI exI [of _ "observed_type Ancillary_sender"] disjI2 exI [of _ Ancillary_sender])
      (simp_all add: make_sender_ancillary_observed_changed_message_def make_sender_message_def at_build_case ancillary_sender_to_json_def)
next
  case (VR x)
  then show ?thesis unfolding message_typed_def
    by (intro conjI exI [of _ "observed_type Video_receiver"] disjI2 exI [of _ Video_receiver])
      (simp_all add: make_receiver_video_observed_changed_message_def make_receiver_message_def at_build_case video_receiver_to_json_def)
next
  case (AR x)
  then show ?thesis unfolding message_typed_def
    by (intro conjI exI [of _ "observed_type Audio_receiver"] disjI2 exI [of _ Audio_receiver])
      (simp_all add: make_receiver_audio_observed_changed_message_def make_receiver_message_def at_build_case audio_receiver_to_json_def)
next
  case (NR x)
  then show ?thesis unfolding message_typed_def
    by (intro conjI exI [of _ "observed_type Ancillary_receiver"] disjI2 exI [of _ Ancillary_receiver])
      (simp_all add: make_receiver_ancillary_observed_changed_message_def make_receiver_message_def at_build_case ancillary_receiver_to_json_def)
qed

lemma daemon_message_typed: "m \<in> daemon_messages J \<Longrightarrow> message_typed J m"
proof (unfold daemon_messages_def, elim UnE)
  assume "m \<in> range (make_sync_failed_message J)"
  then obtain x where m: "m = make_sync_failed_message J x" by blast
  have "jtype J m = JObject" "jat J m ''type'' = Inr (jstring J ''sync.failed'')"
    "jat J m ''revision'' = Inr (jint64 J (fm_revision x))" "jat J m ''message'' = Inr (jstring J (fm_message x))"
    by (simp_all add: m make_sync_failed_message_def at_build_case)
  then show ?thesis unfolding message_typed_def by blast
next
  assume "m \<in> {make_streams_drained_message J}"
  then have m: "m = make_streams_drained_message J" by blast
  have "jtype J m = JObject" "jat J m ''type'' = Inr (jstring J ''streams.drained_due_to_ws_disconnect'')"
    "\<exists>t. jat J m ''message'' = Inr (jstring J t)"
    by (auto simp: m make_streams_drained_message_def at_build_case)
  then show ?thesis unfolding message_typed_def by blast
next
  assume "m \<in> range (stream_message J)"
  then show ?thesis using stream_message_typed by blast
next
  assume "m \<in> {make_node_lifecycle_message J x y | x y. True}"
  then obtain x y where m: "m = make_node_lifecycle_message J x y" by blast
  have "jtype J m = JObject" "jat J m ''type'' = Inr (jstring J ''node.lifecycle_changed'')"
    "\<exists>x. jat J m ''payload'' = Inr x \<and> jtype J x = JObject"
    by (simp_all add: m make_node_lifecycle_message_def at_build_case)
  then show ?thesis unfolding message_typed_def by blast
qed

text \<open>None of them is read as a change notification.\<close>

lemma typed_not_changed: "message_typed J m \<Longrightarrow> snapshot_changed_message_from_json J m = Inr None"
proof -
  assume "message_typed J m"
  then obtain ty where ty: "jtype J m = JObject" "jat J m ''type'' = Inr (jstring J ty)"
    "ty \<in> {''sync.failed'', ''streams.drained_due_to_ws_disconnect'', ''node.lifecycle_changed''} \<union> range observed_type"
    by (auto simp: message_typed_def)
  from ty(3) have "ty \<noteq> ''data.changed''" by (auto elim: observed_type.elims [OF sym])
  with ty(1,2) show ?thesis
    by (simp add: snapshot_changed_message_from_json_def has_field_iff get_string_or_def get_or_def)
qed

end

section \<open>No drain before a stop\<close>

text \<open>What only \<open>handle_ws_disconnected\<close> changes.\<close>

definition undrained :: "('v, 'rs) app \<Rightarrow> bool" where
  "undrained a \<longleftrightarrow> \<not> st_protection_mode (ss_status (ap_store a)) \<and> \<not> ss_pending_drain_notification (ap_store a)"

definition keeps_snapshot :: "('v, 'rs) app \<Rightarrow> ('v, 'rs) app \<Rightarrow> bool" where
  "keeps_snapshot a b \<longleftrightarrow> (undrained a \<longrightarrow> undrained b) \<and>
     (ss_last_snapshot (ap_store a) \<noteq> None \<longrightarrow> ss_last_snapshot (ap_store b) \<noteq> None)"

lemma keeps_refl [simp]: "keeps_snapshot a a"
  by (simp add: keeps_snapshot_def)

lemma keeps_trans [trans]: "keeps_snapshot a b \<Longrightarrow> keeps_snapshot b c \<Longrightarrow> keeps_snapshot a c"
  by (auto simp: keeps_snapshot_def)

lemma keeps_fold: "(\<And>x a. x \<in> set xs \<Longrightarrow> keeps_snapshot a (f x a)) \<Longrightarrow> keeps_snapshot a (fold f xs a)"
  by (induction xs arbitrary: a) (auto intro: keeps_trans)

lemma keeps_same: "ap_store b = ap_store a \<Longrightarrow> keeps_snapshot a b"
  by (simp add: keeps_snapshot_def undrained_def)

lemmas keeps_defs = keeps_snapshot_def undrained_def store_defs on_store_def

lemma keeps_callback: "c \<noteq> On_disconnected \<Longrightarrow> keeps_snapshot a (ws_callback E c a)"
  by (cases c) (auto simp: keeps_defs handle_ws_connected_def handle_snapshot_changed_def handle_ws_error_def
      send_json_def Let_def)

lemma keeps_sync: "keeps_snapshot a ((perform_sync_rest E v c fetched a)\<lparr> ap_pc := x \<rparr>)"
  by (cases rule: perform_sync_rest_cases [of fetched E v c a]) (simp_all add: keeps_defs)

lemma keeps_stream_callback: "keeps_snapshot a (stream_callback E H y a)"
  by (cases y) (simp_all add: publish_sender_event_def publish_receiver_event_def handle_sender_event_def
      handle_receiver_event_def send_json_def keeps_same)

lemma keeps_activation: "activation E C callbacks H r c a = (q, b) \<Longrightarrow> keeps_snapshot a b"
proof (rule activation_effect)
  fix p n
  assume b: "b = fold (stream_callback E H) (case p of Inl _ \<Rightarrow> [] | Inr reports \<Rightarrow> reports) (a\<lparr> ap_node := n \<rparr>)"
  have "keeps_snapshot a (a\<lparr> ap_node := n \<rparr>)" by (simp add: keeps_same)
  also have "keeps_snapshot (a\<lparr> ap_node := n \<rparr>) b" unfolding b by (rule keeps_fold) (rule keeps_stream_callback)
  finally show "keeps_snapshot a b" .
qed

lemma keeps_registration: "keeps_snapshot a (registration_handler H callback u a)"
  by (simp add: registration_handler_def publish_registration_event_def handle_registration_event_def keeps_defs)

lemma keeps_sync_step: "app_step E a b \<Longrightarrow> ap_pc b \<noteq> ap_pc a \<Longrightarrow> keeps_snapshot a b"
proof (induction rule: app_step.cases)
  case (Disconnected s r t)
  then show ?case
    by (auto simp: handle_ws_disconnected_def on_node_def on_store_def eff_simps split: prod.splits sum.splits)
next
  case (Sync_end s v b c fetched)
  then show ?case by (simp add: keeps_sync)
next
  case (Sync_begin s v b)
  then show ?case by (simp add: keeps_defs)
qed (auto simp: take_request_def handle_ws_error_def handle_registration_event_def on_store_def
    handle_sender_event_def handle_receiver_event_def send_json_def intro: keeps_same)

text \<open>Before the stop, no move of the client reports a lost connection.\<close>

lemma unreported_step:
  assumes p: "process_good E C G parse serialize a p" and step: "process_step E C G parse serialize p q"
    and before: "pr_stop q = Not_stopping"
    and quiet: "On_disconnected \<notin> set (wc_calls (pr_ws p))" "wc_pc (pr_ws p) \<noteq> Leaving True"
  shows "On_disconnected \<notin> set (wc_calls (pr_ws q)) \<and> wc_pc (pr_ws q) \<noteq> Leaving True \<and>
    keeps_snapshot (pr_app p) (pr_app q)"
  using step
proof cases
  case (Client_moves w calls)
  with before process_goodD(5) [OF p] have "\<not> wc_stop_requested (pr_ws p)" by simp
  from quiet_step [OF Client_moves(2) _ this quiet(2,1)] unattended_reachable [OF process_goodD(2) [OF p]]
  have w: "On_disconnected \<notin> set (wc_calls w)" by simp
  then have "c \<noteq> On_disconnected" if "c \<in> set calls" for c using that Client_moves(6) by auto
  then have "keeps_snapshot ((pr_app p)\<lparr> ap_ws_connected := wc_connected w \<rparr>)
      (fold (ws_callback E) calls ((pr_app p)\<lparr> ap_ws_connected := wc_connected w \<rparr>))"
    by (intro keeps_fold keeps_callback) blast
  moreover have "keeps_snapshot (pr_app p) ((pr_app p)\<lparr> ap_ws_connected := wc_connected w \<rparr>)" by (simp add: keeps_same)
  ultimately show ?thesis using w Client_moves by (auto intro: keeps_trans)
next
  case (Sync_moves b)
  with quiet keeps_sync_step [OF Sync_moves(2,3)] show ?thesis by simp
next
  case (Stream_activated resource connection_resource r b)
  with quiet keeps_activation [OF Stream_activated(3)] show ?thesis by simp
next
  case (Registration_changed u)
  with quiet keeps_registration [of "pr_app p" run_handlers "cb_registration runtime_callbacks" u] show ?thesis by simp
qed (use quiet before in \<open>simp_all add: keeps_same request_stop_def http_stop_def stop_node_def Let_def\<close>)

lemma unreported_run:
  assumes "(process_step E C G parse serialize)\<^sup>*\<^sup>* p q" "process_good E C G parse serialize a p" "pr_stop q = Not_stopping"
    and "On_disconnected \<notin> set (wc_calls (pr_ws p))" "wc_pc (pr_ws p) \<noteq> Leaving True"
  shows "On_disconnected \<notin> set (wc_calls (pr_ws q)) \<and> wc_pc (pr_ws q) \<noteq> Leaving True \<and>
    keeps_snapshot (pr_app p) (pr_app q)"
  using assms(1,3)
proof induction
  case base
  from assms(4,5) show ?case by simp
next
  case (step q r)
  have good: "process_good E C G parse serialize a q" using process_run_good [OF step(1) assms(2)] by blast
  have "pr_stop q = Not_stopping"
    using process_run_good [OF r_into_rtranclp [of "process_step E C G parse serialize", OF step(2)] good] step(4) by blast
  with step.IH unreported_step [OF good step(2,4)] show ?case by (blast intro: keeps_trans)
qed

section \<open>A concrete process\<close>

lemma connected_unreported:
  fixes a :: "('v, 'rs) app"
  assumes "\<not> ss_pending_drain_notification (ap_store a)"
  shows "ap_sent (handle_ws_connected E a) = ap_sent a" "ap_ws_connected (handle_ws_connected E a) = ap_ws_connected a"
    "\<not> ss_pending_drain_notification (ap_store (handle_ws_connected E a))"
proof -
  have "ap_ws_connected (schedule_sync v b) = ap_ws_connected b" for v and b :: "('v, 'rs) app"
    by (simp add: schedule_sync_def Let_def)
  with assms show "ap_sent (handle_ws_connected E a) = ap_sent a" "ap_ws_connected (handle_ws_connected E a) = ap_ws_connected a"
    "\<not> ss_pending_drain_notification (ap_store (handle_ws_connected E a))"
    by (simp_all add: handle_ws_connected_def consume_pending_drain_notification_def on_store_def set_daemon_state_def Let_def)
qed

text \<open>Moves of the client that make no callback or only the one for a connection.\<close>

lemma client_goes_on:
  assumes run: "(process_step E C G parse serialize)\<^sup>*\<^sup>* p0 p"
    and step: "ws_step (ae_json E) parse G (pr_ws p) w" "wc_pc w \<noteq> Leaving True"
      "wc_stop_requested w = wc_stop_requested (pr_ws p)" "texts w = texts (pr_ws p)"
      "wc_calls w = wc_calls (pr_ws p) @ cs" "cs = [] \<or> cs = [On_connected]"
    and p: "\<not> ss_pending_drain_notification (ap_store (pr_app p))"
  shows "\<exists>q. (process_step E C G parse serialize)\<^sup>*\<^sup>* p0 q \<and> pr_ws q = w \<and> pr_stop q = pr_stop p \<and>
    ap_node (pr_app q) = ap_node (pr_app p) \<and> ap_sent (pr_app q) = ap_sent (pr_app p) \<and>
    ap_ws_connected (pr_app q) = wc_connected w \<and> \<not> ss_pending_drain_notification (ap_store (pr_app q))"
proof -
  let ?a = "(pr_app p)\<lparr> ap_ws_connected := wc_connected w \<rparr>"
  let ?b = "fold (ws_callback E) cs ?a"
  have b: "ap_node ?b = ap_node ?a \<and> ap_sent ?b = ap_sent ?a \<and> ap_ws_connected ?b = ap_ws_connected ?a \<and>
      \<not> ss_pending_drain_notification (ap_store ?b)"
    using step(6) p by (auto simp: connected_unreported)
  have "process_step E C G parse serialize p (client_moves E serialize w cs p)"
    by (rule process_step.Client_moves) (use step in auto)
  with run have "(process_step E C G parse serialize)\<^sup>*\<^sup>* p0 (client_moves E serialize w cs p)" by simp
  moreover have "pr_ws (client_moves E serialize w cs p) = w" using b by (simp add: client_moves_def publish_def)
  ultimately show ?thesis using b by (intro exI [of _ "client_moves E serialize w cs p"]) simp
qed

abbreviation sample_process where
  "sample_process \<equiv> process_step sample_env sample_conn (ws_config_new 1000 0 0) (\<lambda>_. Inl ''syntax'') (\<lambda>_. ''text'')"

abbreviation sample_ws_step where
  "sample_ws_step \<equiv> ws_step doc_lib (\<lambda>_. Inl ''syntax'') (ws_config_new 1000 0 0)"

text \<open>The client connects.\<close>

lemma sample_connects:
  assumes "node_good sample_lib n"
  shows "\<exists>p. sample_process\<^sup>*\<^sup>* (serving n 0 True) p \<and> pr_stop p = Not_stopping \<and> ap_node (pr_app p) = n \<and>
    ap_sent (pr_app p) = [] \<and> ap_ws_connected (pr_app p) \<and> \<not> ss_pending_drain_notification (ap_store (pr_app p)) \<and>
    pr_ws p = (ws_started 0)\<lparr> wc_client := True, wc_connected := True, wc_pc := Announcing, wc_calls := [On_connected] \<rparr>"
proof -
  let ?go = "\<lambda>p w. sample_process\<^sup>*\<^sup>* (serving n 0 True) p \<and> pr_ws p = w \<and> pr_stop p = Not_stopping \<and> ap_node (pr_app p) = n \<and>
    ap_sent (pr_app p) = [] \<and> ap_ws_connected (pr_app p) = wc_connected w \<and> \<not> ss_pending_drain_notification (ap_store (pr_app p))"
  have start: "?go (serving n 0 True) (ws_started 0)"
    by (simp add: serving_def app_started_def ws_started_def store_defs state_store_initial_def)
  have go: "\<exists>q. ?go q w" if "?go p v" "sample_ws_step v w" "wc_pc w \<noteq> Leaving True" "wc_stop_requested w = wc_stop_requested v"
    "texts w = texts v" "wc_calls w = wc_calls v @ cs" "cs = [] \<or> cs = [On_connected]" for p v w cs
  proof -
    from that(1) have run: "sample_process\<^sup>*\<^sup>* (serving n 0 True) p" "pr_ws p = v" by blast+
    from client_goes_on [OF run(1), of w cs] that show ?thesis by auto
  qed
  let ?a = "(ws_started 0)\<lparr> wc_pc := Connecting \<rparr>"
  let ?b = "?a\<lparr> wc_client := True, wc_last_activity := wc_now ?a, wc_pc := Opening \<rparr>"
  let ?c = "ws_call On_connected (?b\<lparr> wc_connected := True, wc_pc := Announcing \<rparr>)"
  have "sample_ws_step (ws_started 0) ?a" by (rule ws_step.Attempt) (simp_all add: ws_started_def)
  from go [OF start this, of "[]"] obtain p where a: "?go p ?a" by (auto simp: ws_started_def texts_def)
  have "sample_ws_step ?a ?b" by (rule ws_step.Connects) simp
  from go [OF a this, of "[]"] obtain q where b: "?go q ?b" by (auto simp: ws_started_def texts_def)
  have "sample_ws_step ?b ?c" by (rule ws_step.Opens) simp
  from go [OF b this, of "[On_connected]"] obtain r where "?go r ?c" by (auto simp: ws_started_def texts_def ws_call_def)
  then show ?thesis by (intro exI [of _ r]) (simp add: ws_call_def ws_started_def)
qed

text \<open>The connection is lost and noticed by the worker.\<close>

lemma sample_loses:
  assumes "node_good sample_lib n"
  shows "\<exists>p. sample_process\<^sup>*\<^sup>* (serving n 0 True) p \<and> pr_stop p = Not_stopping \<and>
    wc_calls (pr_ws p) = [On_connected] \<and> \<not> wc_connected (pr_ws p) \<and> wc_pc (pr_ws p) = Pausing"
proof -
  from sample_connects [OF assms] obtain p where
    p: "sample_process\<^sup>*\<^sup>* (serving n 0 True) p" "pr_stop p = Not_stopping" "\<not> ss_pending_drain_notification (ap_store (pr_app p))"
      "pr_ws p = (ws_started 0)\<lparr> wc_client := True, wc_connected := True, wc_pc := Announcing, wc_calls := [On_connected] \<rparr>"
    by blast
  let ?d = "(pr_ws p)\<lparr> wc_pc := ws_pc.Serving \<rparr>"
  let ?e = "?d\<lparr> wc_connected := False \<rparr>"
  let ?f = "?e\<lparr> wc_pc := Leaving False \<rparr>"
  let ?g = "leave_connection ?f"
  have "sample_ws_step (pr_ws p) ?d" by (rule ws_step.Announced) (simp add: p(4))
  with client_goes_on [OF p(1), of ?d "[]"] p(3) obtain q where q: "sample_process\<^sup>*\<^sup>* (serving n 0 True) q" "pr_ws q = ?d"
    "pr_stop q = pr_stop p" "\<not> ss_pending_drain_notification (ap_store (pr_app q))" by (auto simp: texts_def)
  have "sample_ws_step (pr_ws q) ?e" unfolding q(2) by (rule ws_step.Close_handler)
  with client_goes_on [OF q(1), of ?e "[]"] q obtain r where r: "sample_process\<^sup>*\<^sup>* (serving n 0 True) r" "pr_ws r = ?e"
    "pr_stop r = pr_stop p" "\<not> ss_pending_drain_notification (ap_store (pr_app r))" by (auto simp: texts_def)
  have "sample_ws_step (pr_ws r) ?f" unfolding r(2) by (rule ws_step.Serving_over) simp_all
  with client_goes_on [OF r(1), of ?f "[]"] r obtain u where u: "sample_process\<^sup>*\<^sup>* (serving n 0 True) u" "pr_ws u = ?f"
    "pr_stop u = pr_stop p" "\<not> ss_pending_drain_notification (ap_store (pr_app u))" by (auto simp: texts_def)
  have "sample_ws_step (pr_ws u) ?g" unfolding u(2) by (rule ws_step.Leaves [where threw = False]) simp
  with client_goes_on [OF u(1), of ?g "[]"] u obtain v where "sample_process\<^sup>*\<^sup>* (serving n 0 True) v" "pr_ws v = ?g"
    "pr_stop v = pr_stop p" by (auto simp: texts_def leave_connection_def Let_def)
  with p show ?thesis by (intro exI [of _ v]) (simp add: leave_connection_def Let_def)
qed

text \<open>A receiver is activated over the control interface of the node, and the message about it sent.\<close>

lemma sample_sends:
  "\<exists>p. sample_process\<^sup>*\<^sup>* (serving sample_receiving 0 True) p \<and>
     ap_sent (pr_app p) = [stream_message doc_lib (NR sample_activated)] \<and>
     wc_wire (pr_ws p) = [text_of (\<lambda>_. ''text'') (stream_message doc_lib (NR sample_activated))]"
proof -
  let ?H = "\<lparr> eh_receiver = True, eh_sender = True, eh_registration = True \<rparr>"
  let ?c = "sample_receiver_connection (DStr [])"
  let ?m = "stream_message doc_lib (NR sample_activated)"
  let ?t = "text_of (\<lambda>_. ''text'') ?m"
  from sample_connects [OF sample_receiving_good] obtain p where
    p: "sample_process\<^sup>*\<^sup>* (serving sample_receiving 0 True) p" "ap_node (pr_app p) = sample_receiving"
      "ap_sent (pr_app p) = []" "ap_ws_connected (pr_app p)" "pr_stop p = Not_stopping"
      "pr_ws p = (ws_started 0)\<lparr> wc_client := True, wc_connected := True, wc_pc := Announcing, wc_calls := [On_connected] \<rparr>"
    by blast
  obtain n where n: "connection_activated doc_lib sample_lib sample_conn (\<lambda>_. True) ?c ?c sample_receiving = (Inr [NR sample_activated], n)"
    using sample_activates by auto
  let ?b = "stream_callback sample_env ?H (NR sample_activated) ((pr_app p)\<lparr> ap_node := n \<rparr>)"
  have b: "activation sample_env sample_conn (\<lambda>_. True) ?H ?c ?c (pr_app p) = (Inr (), ?b)"
    using n by (simp add: activation_def on_node_def p(2) eff_simps)
  have sent: "ap_sent ?b = [?m]"
    using stream_callback_sent [of ?H "(pr_app p)\<lparr> ap_node := n \<rparr>" sample_env "NR sample_activated"] p(3,4)
    by (simp del: stream_callback.simps stream_message.simps)
  let ?q = "publish (\<lambda>_. ''text'') ?b p"
  have "sample_process p ?q"
    by (rule process_step.Stream_activated [where resource = ?c and connection_resource = ?c and r = "Inr ()"])
      (use b in \<open>simp_all add: p(2) sample_receiving_def sample_node_def del: stream_callback.simps\<close>)
  with p(1) have q: "sample_process\<^sup>*\<^sup>* (serving sample_receiving 0 True) ?q" by simp
  have w: "pr_ws ?q = (pr_ws p)\<lparr> wc_send_queue := [?t], wc_accepted := [?t] \<rparr>"
    using sent p(3,6) by (simp add: publish_def ws_send_json_def queue_message_def text_of_def ws_started_def)
  let ?w = "send_pass None None (pr_ws ?q)"
  have pass: "?w = (pr_ws ?q)\<lparr> wc_send_queue := [], wc_wire := [?t] \<rparr>"
    unfolding w by (simp add: send_pass_def p(6) ws_started_def Let_def)
  have moved: "wc_pc ?w \<noteq> Leaving True" "wc_stop_requested ?w = wc_stop_requested (pr_ws ?q)" "texts ?w = texts (pr_ws ?q)"
    "wc_calls ?w = wc_calls (pr_ws ?q) @ []" unfolding pass by (simp_all add: w p(6) texts_def)
  have "sample_process ?q (client_moves sample_env (\<lambda>_. ''text'') ?w [] ?q)"
  proof (rule process_step.Client_moves [OF _ moved])
    show "ws_step (ae_json sample_env) (\<lambda>_. Inl ''syntax'') (ws_config_new 1000 0 0) (pr_ws ?q) ?w" by (rule ws_step.Send_pass)
  qed simp
  with q have "sample_process\<^sup>*\<^sup>* (serving sample_receiving 0 True) (client_moves sample_env (\<lambda>_. ''text'') ?w [] ?q)" by simp
  moreover have "pr_ws (client_moves sample_env (\<lambda>_. ''text'') ?w [] ?q) = ?w" by (simp add: client_moves_def publish_def)
  moreover have "ap_sent (pr_app (client_moves sample_env (\<lambda>_. ''text'') ?w [] ?q)) = [?m]"
    using sent by (simp del: stream_callback.simps)
  ultimately show ?thesis unfolding pass
    by (intro exI [of _ "client_moves sample_env (\<lambda>_. ''text'') ?w [] ?q"]) (simp add: pass del: stream_callback.simps stream_message.simps)
qed

section \<open>Properties\<close>

text \<open>
  C26. What \<open>run\<close> does before it waits. A configuration that cannot be read ends it. Otherwise the node is
  started: when the listener opens too, the process serves in the state from which the threads begin,
  the node well formed, running and without streams. A node that does not start makes it return 1 with the
  failure in the status, nothing else started; the process still ends with code 0.
\<close>
theorem run_serves_or_reports:
  assumes "node_store (ae_nmos E) ids (ce_node C)"
    and "app_run E C parse path file node_file server made opened now = (r, p)"
  shows "(\<forall>e. load_from_file (ae_json E) parse path file = Inl e \<longrightarrow> r = Run_threw e \<and> p = process_new E now) \<and>
    (\<forall>config ok n. load_from_file (ae_json E) parse path file = Inr config \<longrightarrow>
       first_node_start E C node_file server config = (ok, n) \<longrightarrow>
       node_good (ae_nmos E) n \<and> node_stream n = held None \<and>
       (if \<not> ok then r = Run_returned 1 \<and> daemon_main r = Exit 0 \<and> \<not> pr_started p \<and> \<not> pr_listener p \<and>
          nd_lifecycle_state n = Stopped \<and> ap_node (pr_app p) = n \<and>
          ss_status (ap_store (pr_app p)) = (ss_status state_store_initial)\<lparr> st_daemon_state := ''starting'',
            st_node_state := ''stopped'', st_last_sync_error := ''failed to start node runtime'' \<rparr>
        else nd_lifecycle_state n = Running \<and>
          (case if dc_debug_http_url config = [] then None else if made = None then opened else made of
             Some e \<Rightarrow> r = Run_threw e \<and> daemon_main r = Terminated e \<and> \<not> pr_started p
           | None \<Rightarrow> r = Run_serving \<and> p = serving n now (dc_debug_http_url config \<noteq> []))))"
proof (intro conjI allI impI)
  fix e
  assume "load_from_file (ae_json E) parse path file = Inl e"
  with assms(2) show "r = Run_threw e" "p = process_new E now" by (simp_all add: app_run_def Let_def)
next
  fix config ok n
  assume load: "load_from_file (ae_json E) parse path file = Inr config"
    and start: "first_node_start E C node_file server config = (ok, n)"
  note n = node_store.first_start [OF assms(1) start]
  from n show "node_good (ae_nmos E) n" "node_stream n = held None" by (simp_all del: node_stream.simps)
  from n app_run_cases [OF load start, of made opened now, unfolded assms(2)]
  show "if \<not> ok then r = Run_returned 1 \<and> daemon_main r = Exit 0 \<and> \<not> pr_started p \<and> \<not> pr_listener p \<and>
          nd_lifecycle_state n = Stopped \<and> ap_node (pr_app p) = n \<and>
          ss_status (ap_store (pr_app p)) = (ss_status state_store_initial)\<lparr> st_daemon_state := ''starting'',
            st_node_state := ''stopped'', st_last_sync_error := ''failed to start node runtime'' \<rparr>
        else nd_lifecycle_state n = Running \<and>
          (case if dc_debug_http_url config = [] then None else if made = None then opened else made of
             Some e \<Rightarrow> r = Run_threw e \<and> daemon_main r = Terminated e \<and> \<not> pr_started p
           | None \<Rightarrow> r = Run_serving \<and> p = serving n now (dc_debug_http_url config \<noteq> []))"
    by (auto simp: daemon_main_def process_new_def app_new_def failed_start_status Let_def split: option.splits if_splits)
qed

text \<open>The node of the sample starts.\<close>

definition sample_run_config :: doc where
  "sample_run_config = DObj [(''node_config_path'', DStr ''node.json''), (''snapshot_url'', DStr ''s''), (''ws_url'', DStr ''w'')]"

lemma sample_run_loaded:
  "\<exists>config. load_from_file doc_lib (\<lambda>_. Inr sample_run_config) ''daemon.json'' (Some []) = Inr config \<and>
     dc_node_config_path config = ''node.json'' \<and> dc_debug_http_url config \<noteq> []"
  by (simp add: load_from_file_def require_string_def config_int_or_def config_string_or_def field_or_def
      sample_run_config_def doc_lib_def)

lemma sample_first_start: "fst (sample_start None (node_new doc_lib sample_lib ''node.json''))"
  by code_simp

theorem run_serves_or_reports_witness:
  "\<exists>n. app_run sample_env sample_config_env (\<lambda>_. Inr sample_run_config) ''daemon.json'' (Some []) (Inl ''no file'') None None None 0
     = (Run_serving, serving n 0 True) \<and> node_good sample_lib n \<and> nd_lifecycle_state n = Running"
proof -
  from sample_run_loaded obtain config where
    c: "load_from_file (ae_json sample_env) (\<lambda>_. Inr sample_run_config) ''daemon.json'' (Some []) = Inr config"
      "dc_node_config_path config = ''node.json''" "dc_debug_http_url config \<noteq> []" by auto
  obtain r p where run: "app_run sample_env sample_config_env (\<lambda>_. Inr sample_run_config) ''daemon.json'' (Some [])
      (Inl ''no file'') None None None 0 = (r, p)" by fastforce
  obtain ok n where n: "sample_start None (node_new doc_lib sample_lib ''node.json'') = (ok, n)" by fastforce
  with sample_first_start have ok by simp
  have start: "first_node_start sample_env sample_config_env (Inl ''no file'') None config = (True, n)"
    using n \<open>ok\<close> by (simp add: c(2))
  have "node_store (ae_nmos sample_env) (\<lambda>rs. set (map re_id rs)) (ce_node sample_config_env)"
    using sample_start.node_store_axioms by simp
  from run_serves_or_reports [OF this run, THEN conjunct2, rule_format, OF c(1) start] c(3)
  have "node_good sample_lib n" "nd_lifecycle_state n = Running" "r = Run_serving" "p = serving n 0 True"
    by (simp_all del: node_stream.simps)
  with run show ?thesis by blast
qed

text \<open>
  C27. The process is a daemon whose client is the WebSocket client: while it runs, whatever the threads do, its
  \<open>App\<close> makes a run of the daemon and its client a run of the client, they agree on the link, and the
  client has accepted exactly the messages \<open>App\<close> has sent; the invariant of the daemon follows for the process.
\<close>
theorem process_refines_daemon:
  assumes "resource_store (ae_nmos E) ids" "iteration_order (ae_order E)" "node_good (ae_nmos E) n"
    and "(process_step E C G parse serialize)\<^sup>*\<^sup>* (serving n now listening) p" "pr_stop p \<noteq> All_stopped"
  shows "(daemon_step E C)\<^sup>*\<^sup>* (app_started n now) (pr_app p) \<and> ws_reachable (ae_json E) parse G (pr_ws p) \<and>
    ap_ws_connected (pr_app p) = wc_connected (pr_ws p) \<and>
    texts (pr_ws p) = map (text_of serialize) (ap_sent (pr_app p)) \<and> app_good E (pr_app p)"
proof -
  note good = process_goodD [OF process_reaches [OF assms(4)]]
  from good(3) [OF assms(5)] have "app_good E (pr_app p)"
    by induction (auto intro: app_good_started [OF assms(3)] app_good_daemon_step [OF assms(1,2)])
  with good(1,2) good(3) [OF assms(5)] show ?thesis by (simp add: linked_def)
qed

theorem process_refines_daemon_witness:
  "\<exists>p. sample_process\<^sup>*\<^sup>* (serving sample_node 0 True) p \<and> wc_connected (pr_ws p) \<and> app_good sample_env (pr_app p)"
proof -
  from sample_connects [OF sample_node_good] obtain p where
    p: "sample_process\<^sup>*\<^sup>* (serving sample_node 0 True) p" "pr_stop p = Not_stopping" "wc_connected (pr_ws p)" by auto
  have "node_good (ae_nmos sample_env) sample_node" "pr_stop p \<noteq> All_stopped" by (simp_all add: sample_node_good p(2))
  from process_refines_daemon [OF sample_library sample_order this(1) p(1) this(2)] p show ?thesis by auto
qed



text \<open>
  What leaves the process are texts of messages \<open>App\<close> has sent, each at most once and in the order in which they were
  sent, whatever is lost in between.
\<close>
theorem process_messages_in_order:
  assumes "(process_step E C G parse serialize)\<^sup>*\<^sup>* (serving n now listening) p"
  shows "subseq (filter (\<lambda>m. qm_type m = Text_message) (wc_wire (pr_ws p))) (map (text_of serialize) (ap_sent (pr_app p)))"
  by (rule good_in_order [OF process_reaches [OF assms]])

theorem process_messages_in_order_witness:
  "\<exists>p. sample_process\<^sup>*\<^sup>* (serving sample_receiving 0 True) p \<and> length (wc_wire (pr_ws p)) = 1 \<and>
     subseq (filter (\<lambda>m. qm_type m = Text_message) (wc_wire (pr_ws p))) (map (text_of (\<lambda>_. ''text'')) (ap_sent (pr_app p)))"
proof -
  from sample_sends obtain p where p: "sample_process\<^sup>*\<^sup>* (serving sample_receiving 0 True) p" "length (wc_wire (pr_ws p)) = 1" by auto
  with process_messages_in_order [OF p(1)] show ?thesis by blast
qed

text \<open>
  The type of every message the process sends: an object with the name of its type and the members that belong to
  it, the type that of a failed synchronisation, a drain or a changed stream of one of the six kinds. The
  reader of change notifications ignores them all.
\<close>
theorem process_messages_typed:
  assumes "json_api (ae_json E)" "(process_step E C G parse serialize)\<^sup>*\<^sup>* (serving n now listening) p" "m \<in> set (ap_sent (pr_app p))"
  shows "message_typed (ae_json E) m \<and> snapshot_changed_message_from_json (ae_json E) m = Inr None"
proof -
  from process_goodD(1) [OF process_reaches [OF assms(2)]] assms(3) have "m \<in> daemon_messages (ae_json E)"
    by (auto simp: linked_def)
  from json_api.daemon_message_typed [OF assms(1) this] json_api.typed_not_changed [OF assms(1)] show ?thesis by blast
qed

theorem process_messages_typed_witness: "message_typed doc_lib (stream_message doc_lib (NR sample_activated))"
proof -
  from sample_sends obtain p where
    p: "sample_process\<^sup>*\<^sup>* (serving sample_receiving 0 True) p" "ap_sent (pr_app p) = [stream_message doc_lib (NR sample_activated)]" by blast
  have "json_api (ae_json sample_env)" using doc.json_api_axioms by simp
  from process_messages_typed [OF this p(1)] p(2) show ?thesis by simp
qed


lemma sample_stops:
  "\<exists>p. sample_process\<^sup>*\<^sup>* (serving sample_node 0 True) p \<and> pr_stop p = Joining_client"
proof -
  let ?p = "request_stop (serving sample_node 0 True)"
  have a: "sample_process (serving sample_node 0 True) ?p" by (rule process_step.Stop_requested)
  have b: "sample_process ?p ((client_moves sample_env (\<lambda>_. ''text'') (ws_stop None (pr_ws ?p)) [] ?p)\<lparr> pr_stop := Joining_client \<rparr>)"
    by (rule process_step.Stop_begins [where closing = None])
      (simp_all add: request_stop_def serving_def ws_stop_def close_active_client_def)
  let ?q = "(client_moves sample_env (\<lambda>_. ''text'') (ws_stop None (pr_ws ?p)) [] ?p)\<lparr> pr_stop := Joining_client \<rparr>"
  have "sample_process\<^sup>*\<^sup>* (serving sample_node 0 True) ?q"
    by (rule converse_rtranclp_into_rtranclp [of sample_process, OF a r_into_rtranclp [of sample_process, OF b]])
  then show ?thesis by (intro exI [of _ ?q]) simp
qed


text \<open>
  What has stopped stays stopped: the listener is closed, the client's worker and the sync thread have ended, the node is
  stopped, and the status says so; nothing the client, the node or another stop request does changes
  the status, the node or what was sent.
\<close>
theorem stopped_process_is_final:
  assumes "(process_step E C G parse serialize)\<^sup>*\<^sup>* (serving n now listening) p" "pr_stop p = All_stopped"
    and "(process_step E C G parse serialize)\<^sup>*\<^sup>* p q"
  shows "pr_stop q = All_stopped \<and> \<not> pr_started q \<and> \<not> pr_listener q \<and> wc_pc (pr_ws q) = Ended \<and> ap_pc (pr_app q) = Finished \<and>
    nd_lifecycle_state (ap_node (pr_app q)) = Stopped \<and>
    st_node_state (ss_status (ap_store (pr_app q))) = ''stopped'' \<and> st_daemon_state (ss_status (ap_store (pr_app q))) = ''stopped'' \<and>
    ap_node (pr_app q) = ap_node (pr_app p) \<and> ap_store (pr_app q) = ap_store (pr_app p) \<and> ap_sent (pr_app q) = ap_sent (pr_app p)"
proof -
  from process_run_good [OF assms(3) process_reaches [OF assms(1)]] assms(2) have
    q: "process_good E C G parse serialize (app_started n now) q" "pr_stop q = All_stopped"
      "ap_node (pr_app q) = ap_node (pr_app p)" "ap_store (pr_app q) = ap_store (pr_app p)" "ap_sent (pr_app q) = ap_sent (pr_app p)"
    by blast+
  from process_goodD(4,7,8,9,10) [OF q(1)] q(2-5) show ?thesis by (simp add: stopped_app_def)
qed

theorem stopped_process_is_final_witness:
  "\<exists>p. sample_process\<^sup>*\<^sup>* (serving sample_node 0 True) p \<and> nd_lifecycle_state (ap_node (pr_app p)) = Stopped \<and>
     st_daemon_state (ss_status (ap_store (pr_app p))) = ''stopped''"
proof -
  from sample_stops obtain p where p: "sample_process\<^sup>*\<^sup>* (serving sample_node 0 True) p" "pr_stop p = Joining_client" by blast
  from joining_completes [OF process_reaches [OF p(1)]] p(2) obtain q where
    q: "sample_process\<^sup>*\<^sup>* p q" "pr_stop q = All_stopped" by auto
  from rtranclp_trans [OF p(1) q(1)] have run: "sample_process\<^sup>*\<^sup>* (serving sample_node 0 True) q" .
  from stopped_process_is_final [OF run q(2) rtranclp.rtrancl_refl] run show ?thesis by blast
qed

end
