(* ===== verification/Node_Threads.thy ===== *)
theory Node_Threads
  imports Node_Streams
begin

text \<open>
  The threads behind \<open>Node::Impl::start\<close> and \<open>stop\<close> (\<open>node.cpp\<close>): any number of callers and the worker that runs
  \<open>nmos_node_start\<close>. \<open>threads_step\<close> interleaves them at their critical sections; what the worker does
  between two of them is one step, its outcome a choice. \<open>Node_Lifecycle\<close> has what a start does to the
  model and the streams, as one function; here is when it returns and what it answers.

  \<open>stop\<close> is not called on the worker thread. \<open>thread_mutex_\<close> is held by the caller that joins the worker;
  \<open>start\<close> needs it too. \<open>gate_\<close> points to an object on the stack of \<open>nmos_node_start\<close>.
\<close>

section \<open>State\<close>

datatype log_gate = Null_gate | Gate_alive | Gate_gone

text \<open>
  Where the worker is: before \<open>nmos_node_start\<close>, setting up the server, waiting for the stop signal, after the
  \<open>try\<close> statement, after \<open>nmos_node_start\<close>, at its end; \<open>No_worker\<close> when there is no thread to join.
\<close>

datatype worker_pc = No_worker | Entered | Setting_up | Waiting_stop | Leaving_try | Left_start | Over

datatype call_pc =
    No_call
  | Start_waiting
  | Start_answered bool
  | Stop_flagged
  | Stop_shut
  | Stop_joining
  | Stop_joined
  | Stop_answered

record node_threads =
  nt_lifecycle_state :: lifecycle_state
  nt_stop_requested :: bool
  nt_needs_model_reset :: bool
  nt_shutdown :: bool
  nt_gate :: log_gate
  nt_worker :: worker_pc
  nt_calls :: "nat \<Rightarrow> call_pc"
  nt_gate_misused :: bool

definition threads_new :: node_threads where
  "threads_new =
     \<lparr> nt_lifecycle_state = Stopped, nt_stop_requested = False, nt_needs_model_reset = False, nt_shutdown = False,
       nt_gate = Null_gate, nt_worker = No_worker, nt_calls = (\<lambda>_. No_call), nt_gate_misused = False \<rparr>"

abbreviation nt_joinable :: "node_threads \<Rightarrow> bool" where
  "nt_joinable s \<equiv> nt_worker s \<noteq> No_worker"

definition at_call :: "nat \<Rightarrow> call_pc \<Rightarrow> node_threads \<Rightarrow> node_threads" where
  "at_call c pc s = s\<lparr> nt_calls := (nt_calls s)(c := pc) \<rparr>"

text \<open>Nobody holds \<open>thread_mutex_\<close>.\<close>

definition mutex_free :: "node_threads \<Rightarrow> bool" where
  "mutex_free s \<longleftrightarrow> (\<forall>c. nt_calls s c \<noteq> Stop_joining)"

section \<open>Critical sections\<close>

text \<open>
  The first section of \<open>start\<close>; \<open>created\<close> tells whether the thread could be made. A refused start writes to the log
  through \<open>gate_\<close> when it is not null, whether or not the object is still there.
\<close>

definition start_enter :: "bool \<Rightarrow> nat \<Rightarrow> node_threads \<Rightarrow> node_threads" where
  "start_enter created c s =
     (if nt_lifecycle_state s = Running then at_call c (Start_answered True) s
      else if nt_lifecycle_state s = Starting \<or> nt_lifecycle_state s = Stopping \<or> nt_joinable s
      then at_call c (Start_answered False)
             (s\<lparr> nt_gate_misused := (nt_gate_misused s \<or> nt_gate s = Gate_gone) \<rparr>)
      else
        (let s1 = s\<lparr> nt_stop_requested := False, nt_needs_model_reset := False \<rparr> in
         if created then at_call c Start_waiting (s1\<lparr> nt_lifecycle_state := Starting, nt_worker := Entered \<rparr>)
         else at_call c (Start_answered False) (s1\<lparr> nt_lifecycle_state := Stopped, nt_stop_requested := False \<rparr>)))"

definition start_answer :: "nat \<Rightarrow> node_threads \<Rightarrow> node_threads" where
  "start_answer c s = at_call c (Start_answered (nt_lifecycle_state s = Running)) s"

definition stop_flag :: "nat \<Rightarrow> node_threads \<Rightarrow> node_threads" where
  "stop_flag c s =
     at_call c Stop_flagged
       (if nt_lifecycle_state s \<noteq> Stopped
        then s\<lparr> nt_lifecycle_state := Stopping, nt_stop_requested := True \<rparr> else s)"

definition stop_answer :: "nat \<Rightarrow> node_threads \<Rightarrow> node_threads" where
  "stop_answer c s =
     at_call c Stop_answered
       (s\<lparr> nt_lifecycle_state := Stopped, nt_stop_requested := False, nt_needs_model_reset := True \<rparr>)"

section \<open>Steps\<close>

inductive threads_step :: "nat \<Rightarrow> node_threads \<Rightarrow> node_threads \<Rightarrow> bool" for c where
  Start_enters: "nt_calls s c = No_call \<Longrightarrow> mutex_free s \<Longrightarrow> threads_step c s (start_enter created c s)"
| Start_answers: "nt_calls s c = Start_waiting \<Longrightarrow> nt_lifecycle_state s \<noteq> Starting \<Longrightarrow>
    threads_step c s (start_answer c s)"
| Stop_flags: "nt_calls s c = No_call \<Longrightarrow> threads_step c s (stop_flag c s)"
| Stop_shuts: "nt_calls s c = Stop_flagged \<Longrightarrow> threads_step c s (at_call c Stop_shut (s\<lparr> nt_shutdown := True \<rparr>))"
| Stop_takes: "nt_calls s c = Stop_shut \<Longrightarrow> mutex_free s \<Longrightarrow> nt_joinable s \<Longrightarrow>
    threads_step c s (at_call c Stop_joining s)"
| Stop_nothing: "nt_calls s c = Stop_shut \<Longrightarrow> mutex_free s \<Longrightarrow> \<not> nt_joinable s \<Longrightarrow>
    threads_step c s (at_call c Stop_joined s)"
| Stop_joins: "nt_calls s c = Stop_joining \<Longrightarrow> nt_worker s = Over \<Longrightarrow>
    threads_step c s (at_call c Stop_joined (s\<lparr> nt_worker := No_worker \<rparr>))"
| Stop_answers: "nt_calls s c = Stop_joined \<Longrightarrow> threads_step c s (stop_answer c s)"
| Call_over: "nt_calls s c \<in> {Start_answered b, Stop_answered} \<Longrightarrow> threads_step c s (at_call c No_call s)"
| Worker_enters: "nt_worker s = Entered \<Longrightarrow>
    threads_step c s (s\<lparr> nt_shutdown := False, nt_gate := Gate_alive, nt_worker := Setting_up \<rparr>)"
| No_config: "nt_worker s = Setting_up \<Longrightarrow>
    threads_step c s (s\<lparr> nt_gate := Gate_gone, nt_worker := Left_start \<rparr>)"
| Setup_throws: "nt_worker s = Setting_up \<Longrightarrow> threads_step c s (s\<lparr> nt_worker := Leaving_try \<rparr>)"
| Serves: "nt_worker s = Setting_up \<Longrightarrow>
    threads_step c s (s\<lparr> nt_lifecycle_state := (if nt_lifecycle_state s = Starting then Running else nt_lifecycle_state s),
                         nt_worker := Waiting_stop \<rparr>)"
| Stop_seen: "nt_worker s = Waiting_stop \<Longrightarrow> nt_stop_requested s \<Longrightarrow>
    threads_step c s (s\<lparr> nt_worker := Leaving_try \<rparr>)"
| Leaves_try: "nt_worker s = Leaving_try \<Longrightarrow>
    threads_step c s (s\<lparr> nt_lifecycle_state := (if nt_lifecycle_state s = Starting then Stopped else nt_lifecycle_state s),
                         nt_gate := Gate_gone, nt_worker := Left_start \<rparr>)"
| Worker_ends: "nt_worker s = Left_start \<Longrightarrow>
    threads_step c s (s\<lparr> nt_lifecycle_state := Stopped, nt_stop_requested := False, nt_worker := Over \<rparr>)"

text \<open>Runs in which the callers are those of a set.\<close>

inductive threads_run :: "nat set \<Rightarrow> node_threads \<Rightarrow> bool" for callers where
  New: "threads_run callers threads_new"
| Goes_on: "threads_run callers s \<Longrightarrow> threads_step c s t \<Longrightarrow> c \<in> callers \<Longrightarrow> threads_run callers t"

lemmas section_defs = start_enter_def start_answer_def stop_flag_def stop_answer_def at_call_def mutex_free_def

section \<open>One caller at a time\<close>

text \<open>The four situations of the worker when all calls are made one after the other, by caller 0.\<close>

definition is_settled :: "node_threads \<Rightarrow> bool" where
  "is_settled s \<longleftrightarrow> nt_lifecycle_state s = Stopped \<and> \<not> nt_stop_requested s \<and> nt_worker s \<in> {No_worker, Left_start, Over}"

definition is_starting :: "node_threads \<Rightarrow> bool" where
  "is_starting s \<longleftrightarrow> nt_lifecycle_state s = Starting \<and> \<not> nt_stop_requested s \<and>
     nt_worker s \<in> {Entered, Setting_up, Leaving_try, Left_start}"

definition is_serving :: "node_threads \<Rightarrow> bool" where
  "is_serving s \<longleftrightarrow> nt_lifecycle_state s = Running \<and> \<not> nt_stop_requested s \<and> nt_worker s = Waiting_stop"

definition is_stopping :: "node_threads \<Rightarrow> bool" where
  "is_stopping s \<longleftrightarrow> nt_lifecycle_state s = Stopping \<and> nt_stop_requested s \<and>
     nt_worker s \<in> {Waiting_stop, Leaving_try, Left_start}"

lemmas situation_defs = is_settled_def is_starting_def is_serving_def is_stopping_def

fun call_good :: "call_pc \<Rightarrow> node_threads \<Rightarrow> bool" where
  "call_good No_call s = (is_settled s \<or> is_serving s)"
| "call_good Start_waiting s = ((is_starting s \<or> is_serving s \<or> is_settled s) \<and> nt_joinable s)"
| "call_good (Start_answered ok) s = (if ok then is_serving s else is_settled s)"
| "call_good Stop_flagged s = (is_stopping s \<or> is_settled s)"
| "call_good Stop_shut s = (is_stopping s \<or> is_settled s)"
| "call_good Stop_joining s = ((is_stopping s \<or> is_settled s) \<and> nt_joinable s)"
| "call_good Stop_joined s = (is_settled s \<and> \<not> nt_joinable s)"
| "call_good Stop_answered s = (is_settled s \<and> \<not> nt_joinable s \<and> nt_needs_model_reset s)"

definition lone_good :: "node_threads \<Rightarrow> bool" where
  "lone_good s \<longleftrightarrow> (\<forall>c. c \<noteq> 0 \<longrightarrow> nt_calls s c = No_call) \<and> call_good (nt_calls s 0) s \<and>
     (nt_gate s = Gate_alive \<longleftrightarrow> nt_worker s \<in> {Setting_up, Waiting_stop, Leaving_try})"

lemma lone_good_new: "lone_good threads_new"
  by (simp add: lone_good_def threads_new_def situation_defs)

lemma lone_good_step:
  assumes "threads_step 0 s t" "lone_good s"
  shows "lone_good t"
proof -
  from assms(2) have s: "\<And>c. c \<noteq> 0 \<Longrightarrow> nt_calls s c = No_call" "call_good (nt_calls s 0) s"
    "nt_gate s = Gate_alive \<longleftrightarrow> nt_worker s \<in> {Setting_up, Waiting_stop, Leaving_try}" by (simp_all add: lone_good_def)
  have worker: "call_good (nt_calls s 0) t" if "is_settled s \<Longrightarrow> is_settled t" "is_starting s \<Longrightarrow> is_starting t \<or> is_serving t \<or> is_settled t"
    "is_serving s \<Longrightarrow> is_serving t" "is_stopping s \<Longrightarrow> is_stopping t \<or> is_settled t" "nt_joinable t = nt_joinable s"
    "nt_needs_model_reset t = nt_needs_model_reset s" for t
    using s(2) that by (cases "nt_calls s 0") (auto split: if_splits)
  from assms(1) show ?thesis
  proof cases
    case (Start_enters created)
    with s(2) consider "is_serving s" | "is_settled s" by auto
    then show ?thesis
    proof cases
      case 1
      with s Start_enters show ?thesis by (simp add: lone_good_def start_enter_def at_call_def situation_defs)
    next
      case 2
      with s Start_enters show ?thesis
        by (cases "nt_joinable s"; cases created) (simp_all add: lone_good_def start_enter_def at_call_def situation_defs Let_def)
    qed
  next
    case Start_answers
    with s show ?thesis by (auto simp: lone_good_def start_answer_def at_call_def situation_defs)
  next
    case Stop_flags
    with s show ?thesis by (auto simp: lone_good_def stop_flag_def at_call_def situation_defs)
  next
    case Stop_answers
    with s show ?thesis by (auto simp: lone_good_def stop_answer_def at_call_def situation_defs)
  next
    case (Call_over b)
    with s show ?thesis by (cases b) (auto simp: lone_good_def at_call_def situation_defs)
  next
    case Stop_shuts
    with s show ?thesis by (auto simp: lone_good_def at_call_def situation_defs)
  next
    case Stop_takes
    with s show ?thesis by (auto simp: lone_good_def at_call_def situation_defs)
  next
    case Stop_nothing
    with s show ?thesis by (auto simp: lone_good_def at_call_def situation_defs)
  next
    case Stop_joins
    with s show ?thesis by (auto simp: lone_good_def at_call_def situation_defs)
  next
    case Worker_enters
    then have "call_good (nt_calls s 0) t" by (intro worker) (auto simp: situation_defs)
    with Worker_enters s(1,3) show ?thesis by (simp add: lone_good_def)
  next
    case No_config
    then have "call_good (nt_calls s 0) t" by (intro worker) (auto simp: situation_defs)
    with No_config s(1,3) show ?thesis by (simp add: lone_good_def)
  next
    case Setup_throws
    then have "call_good (nt_calls s 0) t" by (intro worker) (auto simp: situation_defs)
    with Setup_throws s(1,3) show ?thesis by (simp add: lone_good_def)
  next
    case Serves
    then have "call_good (nt_calls s 0) t" by (intro worker) (auto simp: situation_defs)
    with Serves s(1,3) show ?thesis by (simp add: lone_good_def)
  next
    case Stop_seen
    then have "call_good (nt_calls s 0) t" by (intro worker) (auto simp: situation_defs)
    with Stop_seen s(1,3) show ?thesis by (simp add: lone_good_def)
  next
    case Leaves_try
    then have "call_good (nt_calls s 0) t" by (intro worker) (auto simp: situation_defs)
    with Leaves_try s(1,3) show ?thesis by (simp add: lone_good_def)
  next
    case Worker_ends
    then have "call_good (nt_calls s 0) t" by (intro worker) (auto simp: situation_defs)
    with Worker_ends s(1,3) show ?thesis by (simp add: lone_good_def)
  qed
qed

lemma lone_run_good: "threads_run {0} s \<Longrightarrow> lone_good s"
proof (induction rule: threads_run.induct)
  case (Goes_on s c t)
  then show ?case using lone_good_step by auto
qed (rule lone_good_new)

text \<open>How far a pending call is from its answer.\<close>

fun call_rank :: "call_pc \<Rightarrow> nat" where
  "call_rank Start_waiting = 1"
| "call_rank Stop_flagged = 4"
| "call_rank Stop_shut = 3"
| "call_rank Stop_joining = 2"
| "call_rank Stop_joined = 1"
| "call_rank _ = 0"

fun worker_rank :: "worker_pc \<Rightarrow> nat" where
  "worker_rank Entered = 5"
| "worker_rank Setting_up = 4"
| "worker_rank Waiting_stop = 3"
| "worker_rank Leaving_try = 2"
| "worker_rank Left_start = 1"
| "worker_rank _ = 0"

definition call_pending :: "node_threads \<Rightarrow> bool" where
  "call_pending s \<longleftrightarrow> nt_calls s 0 \<in> {Start_waiting, Stop_flagged, Stop_shut, Stop_joining, Stop_joined}"

definition threads_rank :: "node_threads \<Rightarrow> nat" where
  "threads_rank s = call_rank (nt_calls s 0) + worker_rank (nt_worker s)"

lemma call_falls:
  assumes "threads_step 0 s t" "lone_good s" "call_pending s"
  shows "threads_rank t < threads_rank s"
  using assms(1)
proof cases
  case Stop_joins
  with assms(3) show ?thesis by (auto simp: threads_rank_def call_pending_def section_defs)
qed (use assms(3) in \<open>auto simp: threads_rank_def call_pending_def section_defs\<close>)

lemma call_progress:
  assumes s: "lone_good s" "call_pending s"
  shows "\<exists>t. threads_step 0 s t"
proof -
  from s(1) have others: "\<And>c. c \<noteq> 0 \<Longrightarrow> nt_calls s c = No_call" by (simp add: lone_good_def)
  have free: "mutex_free s" if "nt_calls s 0 \<noteq> Stop_joining"
    unfolding mutex_free_def
  proof
    fix c
    show "nt_calls s c \<noteq> Stop_joining" using that others [of c] by (cases "c = 0") simp_all
  qed
  have worker: ?thesis if "nt_worker s \<in> {Entered, Setting_up, Leaving_try, Left_start}"
    using that Worker_enters [of s 0] Setup_throws [of s 0] Leaves_try [of s 0] Worker_ends [of s 0] by auto
  from s(2) consider "nt_calls s 0 = Start_waiting" | "nt_calls s 0 = Stop_flagged" | "nt_calls s 0 = Stop_shut"
    | "nt_calls s 0 = Stop_joining" | "nt_calls s 0 = Stop_joined" by (auto simp: call_pending_def)
  then show ?thesis
  proof cases
    case 1
    with s(1) worker Start_answers [of s 0] show ?thesis
      by (cases "nt_lifecycle_state s = Starting") (auto simp: lone_good_def situation_defs)
  next
    case 2
    from Stop_shuts [OF this] show ?thesis ..
  next
    case 3
    with free Stop_takes [of s 0] Stop_nothing [of s 0] show ?thesis by auto
  next
    case 4
    with s(1) have "nt_worker s \<noteq> No_worker" "nt_worker s = Waiting_stop \<longrightarrow> nt_stop_requested s"
      by (auto simp: lone_good_def situation_defs)
    with 4 worker Stop_seen [of s 0] Stop_joins [of s 0] show ?thesis by (cases "nt_worker s") auto
  next
    case 5
    from Stop_answers [OF this] show ?thesis ..
  qed
qed

section \<open>Two callers\<close>

text \<open>A stop that waits for a worker nobody will ever ask to stop.\<close>

definition stop_stuck :: "nat \<Rightarrow> node_threads \<Rightarrow> bool" where
  "stop_stuck c s \<longleftrightarrow> nt_calls s c = Stop_joining \<and> nt_worker s = Waiting_stop \<and> \<not> nt_stop_requested s \<and>
     nt_lifecycle_state s = Stopped"

lemma stop_stuck_step:
  assumes "threads_step d s t" "stop_stuck c s"
  shows "stop_stuck c t"
  using assms(1)
proof cases
  case (Start_enters created)
  with assms(2) show ?thesis by (auto simp: stop_stuck_def mutex_free_def)
next
  case Stop_takes
  with assms(2) show ?thesis by (auto simp: stop_stuck_def mutex_free_def)
qed (use assms(2) in \<open>auto simp: stop_stuck_def section_defs\<close>)

lemma stop_stuck_forever:
  "(\<lambda>s t. \<exists>d. threads_step d s t)\<^sup>*\<^sup>* s t \<Longrightarrow> stop_stuck c s \<Longrightarrow> stop_stuck c t"
  by (induction rule: rtranclp_induct) (auto intro: stop_stuck_step)

lemma run_on:
  "threads_run C s \<Longrightarrow> threads_step c s t \<Longrightarrow> c \<in> C \<Longrightarrow> t = u \<Longrightarrow> threads_run C u"
  by (auto intro: Goes_on)

text \<open>A state by what matters of it.\<close>

definition at_state ::
    "lifecycle_state \<Rightarrow> bool \<Rightarrow> bool \<Rightarrow> bool \<Rightarrow> log_gate \<Rightarrow> worker_pc \<Rightarrow> call_pc \<Rightarrow> call_pc \<Rightarrow> node_threads" where
  "at_state state stop reset shut gate worker first second =
     \<lparr> nt_lifecycle_state = state, nt_stop_requested = stop, nt_needs_model_reset = reset, nt_shutdown = shut,
       nt_gate = gate, nt_worker = worker, nt_calls = (\<lambda>_. No_call)(0 := first, 1 := second), nt_gate_misused = False \<rparr>"

lemmas at_simps = at_state_def section_defs fun_upd_twist

section \<open>Properties\<close>

text \<open>
  C24. When the calls of \<open>start\<close> and \<open>stop\<close> are made one after the other, each of them returns: every step of the worker or
  of the caller takes a pending call nearer to its answer, at most nine are needed, and one is always
  possible. A start answers true when the node serves and false when it is stopped; after a stop there is no worker,
  no stop request, and the model is reset by the next start.
\<close>
theorem lone_calls_return:
  assumes "threads_run {0} s"
  shows "(call_pending s \<longrightarrow> threads_rank s \<le> 9 \<and> (\<exists>t. threads_step 0 s t) \<and>
      (\<forall>t. threads_step 0 s t \<longrightarrow> threads_rank t < threads_rank s)) \<and>
    (nt_calls s 0 = Start_answered True \<longrightarrow> nt_lifecycle_state s = Running \<and> nt_worker s = Waiting_stop) \<and>
    (nt_calls s 0 = Start_answered False \<longrightarrow> nt_lifecycle_state s = Stopped) \<and>
    (nt_calls s 0 = Stop_answered \<longrightarrow> nt_lifecycle_state s = Stopped \<and> \<not> nt_joinable s \<and>
       \<not> nt_stop_requested s \<and> nt_needs_model_reset s)"
proof -
  note good = lone_run_good [OF assms]
  have "call_rank x \<le> 4" for x by (cases x) simp_all
  moreover have "worker_rank x \<le> 5" for x by (cases x) simp_all
  ultimately have "threads_rank s \<le> 4 + 5" unfolding threads_rank_def by (intro add_mono)
  then have "threads_rank s \<le> 9" by simp
  moreover have "call_good (nt_calls s 0) s" using good by (simp add: lone_good_def)
  ultimately show ?thesis using call_progress [OF good] call_falls [OF _ good]
    by (auto simp: situation_defs)
qed

theorem lone_calls_return_witness:
  "\<exists>t. threads_step 0 (stop_flag 0 threads_new) t \<and> threads_rank t < threads_rank (stop_flag 0 threads_new)"
proof -
  have "threads_step 0 threads_new (stop_flag 0 threads_new)" by (rule Stop_flags) (simp add: threads_new_def)
  then have "threads_run {0} (stop_flag 0 threads_new)" by (rule Goes_on [OF New]) simp
  moreover have "call_pending (stop_flag 0 threads_new)" by (simp add: call_pending_def stop_flag_def at_call_def)
  ultimately show ?thesis using lone_calls_return by blast
qed



text \<open>
  The object \<open>gate_\<close> points to lives only while \<open>nmos_node_start\<close> runs. After it the pointer is left as it is, and a start that
  is refused because the worker of a failed one has not been joined writes to the log through it.
\<close>
theorem log_gate_dangles:
  "(\<forall>s. threads_run {0} s \<longrightarrow> (nt_gate s = Gate_alive \<longleftrightarrow> nt_worker s \<in> {Setting_up, Waiting_stop, Leaving_try})) \<and>
   (\<exists>s. threads_run {0} s \<and> nt_gate_misused s \<and> nt_calls s 0 = Start_answered False)"
proof (intro conjI allI impI)
  fix s
  assume "threads_run {0} s"
  from lone_run_good [OF this] show "nt_gate s = Gate_alive \<longleftrightarrow> nt_worker s \<in> {Setting_up, Waiting_stop, Leaving_try}"
    unfolding lone_good_def by blast
next
  let ?R = "threads_run {0}"
  have "?R (at_state Stopped False False False Null_gate No_worker No_call No_call)"
    using New by (simp add: threads_new_def at_state_def fun_upd_idem)
  then have "?R (at_state Starting False False False Null_gate Entered Start_waiting No_call)"
    by (rule run_on [OF _ Start_enters [of _ 0 True]]) (auto simp: at_simps)
  then have "?R (at_state Starting False False False Gate_alive Setting_up Start_waiting No_call)"
    by (rule run_on [OF _ Worker_enters [of _ 0]]) (auto simp: at_simps)
  then have "?R (at_state Starting False False False Gate_alive Leaving_try Start_waiting No_call)"
    by (rule run_on [OF _ Setup_throws [of _ 0]]) (auto simp: at_simps)
  then have "?R (at_state Stopped False False False Gate_gone Left_start Start_waiting No_call)"
    by (rule run_on [OF _ Leaves_try [of _ 0]]) (auto simp: at_simps)
  then have "?R (at_state Stopped False False False Gate_gone Left_start (Start_answered False) No_call)"
    by (rule run_on [OF _ Start_answers [of _ 0]]) (auto simp: at_simps)
  then have "?R (at_state Stopped False False False Gate_gone Left_start No_call No_call)"
    by (rule run_on [OF _ Call_over [of _ 0 False]]) (auto simp: at_simps)
  then have "?R ((at_state Stopped False False False Gate_gone Left_start (Start_answered False) No_call)\<lparr> nt_gate_misused := True \<rparr>)"
    by (rule run_on [OF _ Start_enters [of _ 0 True]]) (auto simp: at_simps)
  then show "\<exists>s. ?R s \<and> nt_gate_misused s \<and> nt_calls s 0 = Start_answered False"
    by (intro exI conjI, assumption) (simp_all add: at_state_def)
qed

theorem log_gate_dangles_witness: "nt_gate threads_new = Gate_alive \<longleftrightarrow> nt_worker threads_new \<in> {Setting_up, Waiting_stop, Leaving_try}"
  using log_gate_dangles New [of "{0}"] by blast

end
