(* ===== verification/Node_Implementation.thy ===== *)
theory Node_Implementation
  imports Node_Connection
begin

text \<open>
  What the node hands to the library: the parser of transport files and the table of its handlers
  (\<open>make_node_implementation\<close> in \<open>node.cpp\<close>), and the remaining helpers of \<open>node_implementation.{h,cpp}\<close>. The validators of the
  library and the function that parses a file with one of them are arguments.
\<close>

unbundle bit_operations_syntax

section \<open>Transport files\<close>

text \<open>What a validator throws; only exceptions of the first class are caught and replaced.\<close>

datatype thrown = Runtime_error exc | Other_exception exc

definition validate_sdp_parameters ::
    "('v, 'p, 'm, 'c) connection_lib \<Rightarrow> ('v \<Rightarrow> 'p \<Rightarrow> thrown option) \<Rightarrow> ('v \<Rightarrow> 'p \<Rightarrow> thrown option) \<Rightarrow>
     'v \<Rightarrow> 'p \<Rightarrow> thrown option" where
  "validate_sdp_parameters C validate_jxsv validate_core receiver sdp_params =
     (if cl_media_type C sdp_params = ''video/jxsv'' then validate_jxsv receiver sdp_params
      else case validate_core receiver sdp_params of
             Some (Runtime_error e) \<Rightarrow> Some (Runtime_error ''The destination does not support this sdp paramters.'')
           | outcome \<Rightarrow> outcome)"

definition transport_file_parser ::
    "('v, 'p, 'm, 'c) connection_lib \<Rightarrow> ('v \<Rightarrow> 'p \<Rightarrow> thrown option) \<Rightarrow> ('v \<Rightarrow> 'p \<Rightarrow> thrown option) \<Rightarrow>
     (('v \<Rightarrow> 'p \<Rightarrow> thrown option) \<Rightarrow> 'v resource \<Rightarrow> 'v resource \<Rightarrow> string \<Rightarrow> string \<Rightarrow> 'f) \<Rightarrow>
     'v resource \<Rightarrow> 'v resource \<Rightarrow> string \<Rightarrow> string \<Rightarrow> 'f" where
  "transport_file_parser C validate_jxsv validate_core parse receiver connection_receiver file_type file_data =
     parse (validate_sdp_parameters C validate_jxsv validate_core) receiver connection_receiver file_type file_data"

section \<open>The handlers\<close>

record ('v, 'rs, 'f) node_implementation =
  ni_parse_transport_file :: "'v resource \<Rightarrow> 'v resource \<Rightarrow> string \<Rightarrow> string \<Rightarrow> 'f"
  ni_resolve_auto :: "('v, 'rs) node \<Rightarrow> 'v resource \<Rightarrow> ('v, unit) eff"
  ni_set_transportfile :: "('v, 'rs) transportfile"
  ni_registration_changed :: "uri \<Rightarrow> ('v, 'rs) app \<Rightarrow> ('v, 'rs) app"
  ni_connection_activated :: "'v resource \<Rightarrow> 'v resource \<Rightarrow> ('v, 'rs, stream list) node_eff"

definition make_node_implementation ::
    "os \<Rightarrow> ('v, 'x) json_lib_scheme \<Rightarrow> ('v, 'rs, 'y) nmos_lib_scheme \<Rightarrow> ('v, 'p, 'm, 'c) connection_lib \<Rightarrow>
     ('v \<Rightarrow> 'p \<Rightarrow> thrown option) \<Rightarrow> ('v \<Rightarrow> 'p \<Rightarrow> thrown option) \<Rightarrow>
     (('v \<Rightarrow> 'p \<Rightarrow> thrown option) \<Rightarrow> 'v resource \<Rightarrow> 'v resource \<Rightarrow> string \<Rightarrow> string \<Rightarrow> 'f) \<Rightarrow>
     node_callbacks \<Rightarrow> event_handlers \<Rightarrow> ('v, 'rs, 'f) node_implementation" where
  "make_node_implementation O' J L C validate_jxsv validate_core parse callbacks H =
     \<lparr> ni_parse_transport_file = transport_file_parser C validate_jxsv validate_core parse,
       ni_resolve_auto = auto_resolver J L C,
       ni_set_transportfile = node_transportfile_setter O' J L C,
       ni_registration_changed = registration_handler H (cb_registration callbacks),
       ni_connection_activated = connection_activated J L C (cb_stream callbacks) \<rparr>"

section \<open>Ports\<close>

definition ports_rtp :: "string list" where
  "ports_rtp = [port_video, port_audio, port_data, ''MUX'']"

definition ports_ws :: "string list" where
  "ports_ws = [''t'', ''b'', ''s'', ''c'']"

definition ports_all :: "string list" where
  "ports_all = ports_rtp @ ports_ws"

definition is_rtp_port :: "string \<Rightarrow> bool" where
  "is_rtp_port port \<longleftrightarrow> port \<in> set ports_rtp"

definition is_ws_port :: "string \<Rightarrow> bool" where
  "is_ws_port port \<longleftrightarrow> port \<in> set ports_ws"

fun port_names :: "('v, 'x) json_lib_scheme \<Rightarrow> 'v list \<Rightarrow> exc + string list" where
  "port_names J [] = Inr []"
| "port_names J (v # vs) = rbind (jas_string J v) (\<lambda>name. rbind (port_names J vs) (\<lambda>names. Inr (name # names)))"

definition parse_ports :: "('v, 'x) json_lib_scheme \<Rightarrow> 'v \<Rightarrow> exc + string list" where
  "parse_ports J v = (if jis_null J v then Inr ports_all else rbind (jelems J v) (port_names J))"

text \<open>The first interface with the address, if there is one.\<close>

definition find_interface :: "host_interface list \<Rightarrow> string \<Rightarrow> host_interface option" where
  "find_interface interfaces address = List.find (\<lambda>interface. address \<in> set (hi_addresses interface)) interfaces"

section \<open>Multicast addresses\<close>

text \<open>\<open>std::hash\<close> is up to the implementation of the standard library.\<close>

definition multicast_bytes :: "64 word \<Rightarrow> 8 word list" where
  "multicast_bytes h =
     (let a = (ucast h :: 32 word) in
      [232, ucast (drop_bit 16 a), ucast (drop_bit 8 a) OR 1, ucast a])"

fun dotted :: "8 word list \<Rightarrow> string" where
  "dotted [] = []"
| "dotted [b] = nat_to_string (unat b)"
| "dotted (b # bs) = nat_to_string (unat b) @ ''.'' @ dotted bs"

definition make_source_specific_multicast_address_v4 :: "(string \<Rightarrow> 64 word) \<Rightarrow> string \<Rightarrow> int32 \<Rightarrow> string" where
  "make_source_specific_multicast_address_v4 hash i leg =
     dotted (multicast_bytes (hash (i @ ''/'' @ int_to_string (sint leg))))"

text \<open>The number of an address.\<close>

definition address_value :: "8 word list \<Rightarrow> nat" where
  "address_value bs = foldl (\<lambda>n b. 256 * n + unat b) 0 bs"

lemma odd_byte: "1 \<le> unat (b OR 1 :: 8 word)"
proof -
  have "odd (b OR 1)" by (simp add: even_or_iff)
  then have "b OR 1 \<noteq> 0" by (metis even_zero)
  then show ?thesis by (simp add: Suc_le_eq unat_gt_0)
qed

section \<open>What they do\<close>

theorem ports_partition:
  "(port \<in> set ports_all \<longleftrightarrow> is_rtp_port port \<or> is_ws_port port) \<and> \<not> (is_rtp_port port \<and> is_ws_port port)"
  by (auto simp: ports_all_def is_rtp_port_def is_ws_port_def ports_rtp_def ports_ws_def port_video_def port_audio_def port_data_def)

text \<open>
  The address of a leg is a literal of four numbers below 256, in the block 232.0.1.0 to 232.255.255.255 that is
  reserved for local allocation, whatever the hash function.
\<close>
theorem multicast_address_reserved:
  "\<exists>bs. make_source_specific_multicast_address_v4 hash i leg = dotted bs \<and> length bs = 4 \<and>
     address_value [232, 0, 1, 0] \<le> address_value bs \<and> address_value bs \<le> address_value [232, 255, 255, 255]"
proof (intro exI conjI)
  let ?h = "hash (i @ ''/'' @ int_to_string (sint leg))"
  let ?a = "ucast ?h :: 32 word"
  let ?b = "ucast (drop_bit 16 ?a) :: 8 word" and ?c = "ucast (drop_bit 8 ?a) OR 1 :: 8 word" and ?d = "ucast ?a :: 8 word"
  have bounds: "unat b \<le> 255" for b :: "8 word"
  proof -
    have "unat b < 2 ^ LENGTH(8)" by (rule unsigned_less)
    then show ?thesis by simp
  qed
  show "make_source_specific_multicast_address_v4 hash i leg = dotted (multicast_bytes ?h)"
    by (simp add: make_source_specific_multicast_address_v4_def)
  show "length (multicast_bytes ?h) = 4" by (simp add: multicast_bytes_def Let_def)
  have number: "address_value (multicast_bytes ?h) = 256 * (256 * (256 * 232 + unat ?b) + unat ?c) + unat ?d"
    by (simp add: address_value_def multicast_bytes_def Let_def)
  show "address_value [232, 0, 1, 0] \<le> address_value (multicast_bytes ?h)"
    unfolding number using odd_byte [of "ucast (drop_bit 8 ?a)"] by (simp add: address_value_def)
  show "address_value (multicast_bytes ?h) \<le> address_value [232, 255, 255, 255]"
    unfolding number using bounds [of ?b] bounds [of ?c] bounds [of ?d] by (simp add: address_value_def)
qed

text \<open>
  The parser refuses what a validator of the library refuses, with a message of its own for the core media types; what
  it accepts it leaves to the library.
\<close>
theorem validation_outcome:
  "validate_sdp_parameters C jxsv core receiver sdp = None \<longleftrightarrow>
     (if cl_media_type C sdp = ''video/jxsv'' then jxsv receiver sdp = None else core receiver sdp = None)"
  by (auto simp: validate_sdp_parameters_def split: option.splits thrown.splits)

end
