(* ===== verification/Control_Steps.thy ===== *)
theory Control_Steps
  imports App_Run
begin

text \<open>
  The control interface statement by statement: a thread of \<open>HttpDebugServer\<close> runs \<open>update_node_config\<close> and
  \<open>restart_node_runtime\<close> (\<open>daemon/app.cpp\<close>) while the threads of \<open>App_Run\<close> go on. The request holds
  \<open>node_config_mutex_\<close>, so there is one at a time, but neither \<open>reconcile_mutex_\<close> nor \<open>sync_mutex_\<close>: a
  synchronisation may end between any two of its statements.

  \<open>control_step\<close> executes the statements one by one; run without interruption they compute what the function of
  \<open>Config_Update\<close> computes. \<open>App_Control\<close> interleaves them with the process.
\<close>

section \<open>State\<close>

text \<open>The next statement of \<open>restart_node_runtime\<close>; the last two are its normal and its exceptional end.\<close>

datatype restart_pc =
    Announcing_restart
  | Stopping_runtime
  | Resetting_registry
  | Forgetting_snapshot
  | Starting_runtime
  | Runtime_started
  | Runtime_failed
  | Scheduling
  | Restarted
  | Restart_failed

text \<open>
  Where the request is: the settings it has written, and those to go back to; there are none during the restart of the
  rollback, whose failure is only logged.
\<close>

datatype 'v control_pc = No_update | Restarting 'v "'v option" restart_pc

record ('v, 'rs) controlled =
  cp_process :: "('v, 'rs) process"
  cp_file :: "exc + 'v"
  cp_pc :: "'v control_pc"
  cp_reply :: "(exc + 'v) option"

text \<open>The state as \<open>Config_Update\<close> sees it; the runtime exists from \<open>run\<close> on.\<close>

definition daemon_of :: "('v, 'rs) controlled \<Rightarrow> ('v, 'rs) daemon" where
  "daemon_of x = \<lparr> dm_app = pr_app (cp_process x), dm_file = cp_file x, dm_has_runtime = True \<rparr>"

section \<open>Statements\<close>

text \<open>\<open>update_node_config\<close> up to its first write: the settings of before and the new ones.\<close>

definition begin_update ::
    "('v, 'rs) app_env \<Rightarrow> 'v config_env \<Rightarrow> write_outcome \<Rightarrow> 'v \<Rightarrow> bool \<Rightarrow> (('v, 'rs) daemon, 'v \<times> 'v) eff" where
  "begin_update E K outcome patch replace_entire_document =
     (let J = ae_json E in
     if \<not> jis_object J patch then ethrow ''node config payload must be a JSON object''
     else
     ebind (eget (persisted_settings J)) (\<lambda>persisted.
     ebind (elift persisted) (\<lambda>previous_persisted.
     ebind (elift (if replace_entire_document then Inr patch
                   else merge_objects (Suc (ce_size K patch)) J previous_persisted patch)) (\<lambda>merged.
     ebind (elift (apply_selected_registry_settings J (ce_uri K) merged)) (\<lambda>next_persisted.
     eseq (write_persisted_settings J outcome next_persisted)
          (eret (previous_persisted, next_persisted)))))))"

text \<open>Its last part, which makes the reply.\<close>

definition update_reply :: "('v, 'rs) app_env \<Rightarrow> 'v \<Rightarrow> ('v, 'rs) daemon \<Rightarrow> exc + 'v" where
  "update_reply E next_persisted s =
     (let J = ae_json E in
      rbind (selected_registry_summary J next_persisted) (\<lambda>selected_registry.
      Inr (jbuild J [(''persisted'', next_persisted), (''effective'', effective_settings s),
                     (''selected_registry'', selected_registry)])))"

text \<open>One statement of \<open>restart_node_runtime\<close>.\<close>

fun restart_phase ::
    "('v, 'rs) app_env \<Rightarrow> 'v config_env \<Rightarrow> exc option \<Rightarrow> exc + 'v \<Rightarrow> restart_pc \<Rightarrow> ('v, 'rs) app \<Rightarrow>
     restart_pc \<times> ('v, 'rs) app" where
  "restart_phase E K server file Announcing_restart a =
     (Stopping_runtime, app_set_node_state E ''restarting'' a)"
| "restart_phase E K server file Stopping_runtime a =
     (Resetting_registry, a\<lparr> ap_node := snd (node_stop (ap_node a)) \<rparr>)"
| "restart_phase E K server file Resetting_registry a =
     (Forgetting_snapshot, on_store (set_registry_status registration_status_default) a)"
| "restart_phase E K server file Forgetting_snapshot a =
     (Starting_runtime, on_store clear_last_snapshot a)"
| "restart_phase E K server file Starting_runtime a =
     (case node_start (ce_os K) (ae_json E) (ae_nmos E) (ce_node K) (ae_transportfile E) (ce_config_text K) file server
             (ap_node a) of
        (ok, n) \<Rightarrow> (if ok then Runtime_started else Runtime_failed, a\<lparr> ap_node := n \<rparr>))"
| "restart_phase E K server file Runtime_started a =
     (Scheduling, app_set_node_state E ''running'' a)"
| "restart_phase E K server file Runtime_failed a =
     (Restart_failed, app_set_node_state E ''stopped'' a)"
| "restart_phase E K server file Scheduling a =
     (let status = ss_status (ap_store a) in
      (Restarted, schedule_sync (if 0 <s st_last_seen_revision status then st_last_seen_revision status else 1) a))"
| "restart_phase E K server file phase a = (phase, a)"

definition restart_failure :: exc where
  "restart_failure = ''failed to restart node runtime with updated config''"

inductive control_step ::
    "('v, 'rs) app_env \<Rightarrow> 'v config_env \<Rightarrow> ('v \<Rightarrow> string) \<Rightarrow> ('v, 'rs) controlled \<Rightarrow> ('v, 'rs) controlled \<Rightarrow> bool"
    for E K serialize where
  Update_begins: "cp_pc x = No_update \<Longrightarrow> pr_listener (cp_process x) \<Longrightarrow>
    begin_update E K outcome patch replace_entire_document (daemon_of x) = (r, d) \<Longrightarrow>
    control_step E K serialize x (x\<lparr> cp_file := dm_file d,
      cp_pc := (case r of Inl _ \<Rightarrow> No_update | Inr (previous, nxt) \<Rightarrow> Restarting nxt (Some previous) Announcing_restart),
      cp_reply := (case r of Inl e \<Rightarrow> Some (Inl e) | Inr _ \<Rightarrow> None) \<rparr>)"
| Restart_moves: "cp_pc x = Restarting nxt previous phase \<Longrightarrow> phase \<notin> {Restarted, Restart_failed} \<Longrightarrow>
    restart_phase E K server (cp_file x) phase (pr_app (cp_process x)) = (phase', b) \<Longrightarrow>
    control_step E K serialize x (x\<lparr> cp_process := publish serialize b (cp_process x),
      cp_pc := Restarting nxt previous phase' \<rparr>)"
| Update_ends: "cp_pc x = Restarting nxt (Some previous) Restarted \<Longrightarrow>
    control_step E K serialize x (x\<lparr> cp_pc := No_update, cp_reply := Some (update_reply E nxt (daemon_of x)) \<rparr>)"
| Rolls_back: "cp_pc x = Restarting nxt (Some previous) Restart_failed \<Longrightarrow>
    write_persisted_settings (ae_json E) outcome previous (daemon_of x) = (r, d) \<Longrightarrow>
    control_step E K serialize x (x\<lparr> cp_file := dm_file d,
      cp_pc := (if r = Inr () then Restarting nxt None Announcing_restart else No_update),
      cp_reply := (if r = Inr () then cp_reply x else Some (Inl restart_failure)) \<rparr>)"
| Rolled_back: "cp_pc x = Restarting nxt None phase \<Longrightarrow> phase \<in> {Restarted, Restart_failed} \<Longrightarrow>
    control_step E K serialize x (x\<lparr> cp_pc := No_update, cp_reply := Some (Inl restart_failure) \<rparr>)"

text \<open>The state in which \<open>run\<close> begins to wait.\<close>

definition controlled_serving :: "('v, 'rs) node \<Rightarrow> int \<Rightarrow> bool \<Rightarrow> exc + 'v \<Rightarrow> ('v, 'rs) controlled" where
  "controlled_serving n now listening file =
     \<lparr> cp_process = serving n now listening, cp_file = file, cp_pc = No_update, cp_reply = None \<rparr>"

section \<open>A request on its own\<close>

lemma update_split:
  assumes "dm_has_runtime s"
  shows "update_node_config E K w1 v1 w2 v2 patch replace s =
    (case begin_update E K w1 patch replace s of
       (Inl e, t) \<Rightarrow> (Inl e, t)
     | (Inr (previous, nxt), u) \<Rightarrow>
         (case restart_node_runtime E K v1 u of
            (Inr _, t) \<Rightarrow> (update_reply E nxt t, t)
          | (Inl e, x) \<Rightarrow>
              (Inl e, snd (ecatch (eseq (write_persisted_settings (ae_json E) w2 previous) (restart_node_runtime E K v2))
                                  (\<lambda>_. eret ()) x))))"
proof -
  let ?J = "ae_json E"
  let ?next = "rbind (persisted_settings ?J s) (\<lambda>previous. rbind (if replace then Inr patch
      else merge_objects (Suc (ce_size K patch)) ?J previous patch) (apply_selected_registry_settings ?J (ce_uri K)))"
  show ?thesis
  proof (cases "jis_object ?J patch \<and> (\<exists>nxt. ?next = Inr nxt)")
    case False
    then have "\<exists>e. update_node_config E K w1 v1 w2 v2 patch replace s = (Inl e, s) \<and> begin_update E K w1 patch replace s = (Inl e, s)"
      using assms by (cases ?next) (auto simp: update_node_config_def begin_update_def eff_simps rbind_Inl_iff Let_def
          simp del: merge_objects.simps)
    then show ?thesis by auto
  next
    case True
    then obtain previous merged nxt where prev: "persisted_settings ?J s = Inr previous"
      and merged: "(if replace then Inr patch else merge_objects (Suc (ce_size K patch)) ?J previous patch) = Inr merged"
      and nxt: "apply_selected_registry_settings ?J (ce_uri K) merged = Inr nxt" by (auto simp: rbind_Inr_iff)
    let ?restart = "ecatch (restart_node_runtime E K v1) (\<lambda>error. eseq (ecatch
      (eseq (write_persisted_settings ?J w2 previous) (restart_node_runtime E K v2)) (\<lambda>_. eret ())) (ethrow error))"
    let ?reply = "ebind (eget effective_settings) (\<lambda>effective.
     ebind (elift (selected_registry_summary ?J nxt)) (\<lambda>selected_registry.
     eret (jbuild ?J [(''persisted'', nxt), (''effective'', effective), (''selected_registry'', selected_registry)])))"
    let ?rollback = "ecatch (eseq (write_persisted_settings ?J w2 previous) (restart_node_runtime E K v2)) (\<lambda>_. eret ())"
    have whole: "update_node_config E K w1 v1 w2 v2 patch replace s =
        eseq (write_persisted_settings ?J w1 nxt) (eseq ?restart ?reply) s"
      unfolding update_node_config_def Let_def
      using assms True prev merged nxt
      by (simp add: ebind_apply [of "eget f" for f] ebind_apply [of "elift x" for x] eget_apply elift_apply)
    have part: "begin_update E K w1 patch replace s =
        eseq (write_persisted_settings ?J w1 nxt) (eret (previous, nxt)) s"
      unfolding begin_update_def Let_def
      using True prev merged nxt
      by (simp add: ebind_apply [of "eget f" for f] ebind_apply [of "elift x" for x] eget_apply elift_apply)
    obtain q u where u: "write_persisted_settings ?J w1 nxt s = (q, u)" by fastforce
    obtain r t where t: "restart_node_runtime E K v1 u = (r, t)" by fastforce
    have reply: "?reply t = (update_reply E nxt t, t)"
      by (cases "selected_registry_summary ?J nxt") (simp_all add: update_reply_def eff_simps Let_def)
    have total: "fst (?rollback t) = Inr ()" by (simp add: ecatch_def eret_def split: prod.split sum.split)
    then obtain y where y: "?rollback t = (Inr (), y)" by (metis prod.collapse)
    show ?thesis unfolding whole part
      by (cases q; cases r) (use u t y reply in \<open>simp_all add: eseq_apply eret_apply ethrow_apply
        ecatch_apply [of "restart_node_runtime E K v1"]\<close>)
  qed
qed

abbreviation phases where
  "phases E K server file \<equiv> \<lambda>(phase, a). restart_phase E K server file phase a"

lemma restart_phases:
  assumes "dm_has_runtime s" "restart_node_runtime E K server s = (r, t)"
  shows "(phases E K server (dm_file s) ^^ 8) (Announcing_restart, dm_app s) =
      (if r = Inr () then Restarted else Restart_failed, dm_app t)"
    "t = s\<lparr> dm_app := dm_app t \<rparr>" "r = Inr () \<or> r = Inl restart_failure"
proof -
  obtain ok n where n: "restarted E K server s = (ok, n)" by fastforce
  have a: "a\<lparr> ap_node := x, ap_store := y, ap_node := z \<rparr> = a\<lparr> ap_node := z, ap_store := y \<rparr>"
    for a :: "('v, 'rs) app" and x y z by (cases a) simp
  have t: "(r, t) = (if ok then Inr () else Inl restart_failure,
      s\<lparr> dm_app := snd ((phases E K server (dm_file s) ^^ 8) (Announcing_restart, dm_app s)) \<rparr>)"
    "fst ((phases E K server (dm_file s) ^^ 8) (Announcing_restart, dm_app s)) = (if ok then Restarted else Restart_failed)"
    unfolding assms(2) [symmetric]
    using assms(1) n by (simp_all add: restart_node_runtime_def restart_failure_def on_app_def on_store_def eff_simps
        eval_nat_numeral a Let_def)
  from t(1) have r: "r = (if ok then Inr () else Inl restart_failure)"
    and u: "t = s\<lparr> dm_app := snd ((phases E K server (dm_file s) ^^ 8) (Announcing_restart, dm_app s)) \<rparr>" by simp_all
  then have v: "dm_app t = snd ((phases E K server (dm_file s) ^^ 8) (Announcing_restart, dm_app s))" by simp
  show "(phases E K server (dm_file s) ^^ 8) (Announcing_restart, dm_app s) =
      (if r = Inr () then Restarted else Restart_failed, dm_app t)"
    by (rule prod_eqI) (simp_all add: t(2) r v)
  show "t = s\<lparr> dm_app := dm_app t \<rparr>" unfolding v by (rule u)
  show "r = Inr () \<or> r = Inl restart_failure" by (simp add: r)
qed

text \<open>A step of a request that is under way, and the state after the first write.\<close>

definition request_step ::
    "('v, 'rs) app_env \<Rightarrow> 'v config_env \<Rightarrow> ('v \<Rightarrow> string) \<Rightarrow> ('v, 'rs) controlled \<Rightarrow> ('v, 'rs) controlled \<Rightarrow> bool" where
  "request_step E K serialize x y \<longleftrightarrow> control_step E K serialize x y \<and> cp_pc x \<noteq> No_update"

definition update_begun :: "(exc + 'v \<times> 'v) \<Rightarrow> ('v, 'rs) daemon \<Rightarrow> ('v, 'rs) controlled \<Rightarrow> ('v, 'rs) controlled" where
  "update_begun r d x = x\<lparr> cp_file := dm_file d,
      cp_pc := (case r of Inl _ \<Rightarrow> No_update | Inr (previous, nxt) \<Rightarrow> Restarting nxt (Some previous) Announcing_restart),
      cp_reply := (case r of Inl e \<Rightarrow> Some (Inl e) | Inr _ \<Rightarrow> None) \<rparr>"

lemma phases_final: "fst ((phases E K v f ^^ 8) (phase, a)) \<in> {Restarted, Restart_failed}"
  by (cases phase) (simp_all add: eval_nat_numeral Let_def split: prod.split)

lemma phases_idle [simp]:
  "(phases E K v f ^^ 8) (Restarted, a) = (Restarted, a)"
  "(phases E K v f ^^ 8) (Restart_failed, a) = (Restart_failed, a)"
  by (simp_all add: eval_nat_numeral)

lemma phases_step:
  "(phases E K v f ^^ 8) (restart_phase E K v f phase a) = (phases E K v f ^^ 8) (phase, a)"
  "phase \<noteq> Starting_runtime \<Longrightarrow> restart_phase E K v f phase a = restart_phase E K v' f phase a"
  "(phases E K v f ^^ 8) (restart_phase E K v' f Starting_runtime a) = (phases E K v' f ^^ 8) (Starting_runtime, a)"
  by (cases phase; simp add: eval_nat_numeral Let_def split: prod.split)+

lemma phases_any:
  "\<exists>v1. (phases E K v f ^^ 8) (restart_phase E K v' f phase a) = (phases E K v1 f ^^ 8) (phase, a)"
  using phases_step(1) [of E K v f phase a] phases_step(2) [of phase E K v' f a v] phases_step(3) [of E K v f v' a]
  by (cases "phase = Starting_runtime") auto

abbreviation rollback where
  "rollback E K w v previous \<equiv>
     ecatch (eseq (write_persisted_settings (ae_json E) w previous) (restart_node_runtime E K v)) (\<lambda>_. eret ())"

text \<open>With what a request that is under way can end when nothing interferes.\<close>

definition after_restart :: "('v, 'rs) app_env \<Rightarrow> 'v config_env \<Rightarrow> 'v \<Rightarrow> 'v \<Rightarrow> ('v, 'rs) daemon \<Rightarrow>
    restart_pc \<times> ('v, 'rs) app \<Rightarrow> ((exc + 'v) option \<times> ('v, 'rs) daemon) set" where
  "after_restart E K nxt previous d result =
     (let d' = d\<lparr> dm_app := snd result \<rparr> in
      if fst result = Restarted then {(Some (update_reply E nxt d'), d')}
      else {(Some (Inl restart_failure), snd (rollback E K w v previous d')) | w v. True})"

fun outcomes :: "('v, 'rs) app_env \<Rightarrow> 'v config_env \<Rightarrow> 'v control_pc \<Rightarrow> (exc + 'v) option \<Rightarrow> ('v, 'rs) daemon \<Rightarrow>
    ((exc + 'v) option \<times> ('v, 'rs) daemon) set" where
  "outcomes E K No_update reply d = {(reply, d)}"
| "outcomes E K (Restarting nxt None phase) reply d =
     {(Some (Inl restart_failure), d\<lparr> dm_app := snd ((phases E K v (dm_file d) ^^ 8) (phase, dm_app d)) \<rparr>) | v. True}"
| "outcomes E K (Restarting nxt (Some previous) phase) reply d =
     (\<Union>v. after_restart E K nxt previous d ((phases E K v (dm_file d) ^^ 8) (phase, dm_app d)))"

abbreviation outcomes_of where
  "outcomes_of E K x \<equiv> outcomes E K (cp_pc x) (cp_reply x) (daemon_of x)"

lemma daemon_of_simps [simp]:
  "dm_app (daemon_of x) = pr_app (cp_process x)" "dm_file (daemon_of x) = cp_file x" "dm_has_runtime (daemon_of x)"
  "daemon_of (x\<lparr> cp_pc := pc \<rparr>) = daemon_of x" "daemon_of (x\<lparr> cp_reply := reply \<rparr>) = daemon_of x"
  "(daemon_of x)\<lparr> dm_app := pr_app (cp_process x) \<rparr> = daemon_of x"
  "daemon_of (x\<lparr> cp_file := file \<rparr>) = (daemon_of x)\<lparr> dm_file := file \<rparr>"
  "daemon_of (x\<lparr> cp_process := publish serialize b (cp_process x) \<rparr>) = (daemon_of x)\<lparr> dm_app := b \<rparr>"
  by (simp_all add: daemon_of_def)

lemma written_daemon:
  assumes "write_persisted_settings J w v d = (r, d')"
  shows "d' = d\<lparr> dm_file := dm_file d' \<rparr>"
  using write_cases [OF assms] by simp

lemma begun_daemon:
  assumes "begin_update E K w patch replace d = (r, d')"
  shows "d' = d\<lparr> dm_file := dm_file d' \<rparr>"
  using assms by (auto simp: begin_update_def eff_simps Let_def simp del: merge_objects.simps
      split: sum.splits prod.splits if_splits dest: written_daemon)

text \<open>What the rollback leaves.\<close>

lemma rollback_result:
  assumes "dm_has_runtime d" "write_persisted_settings (ae_json E) w previous d = (r, d')"
  shows "snd (rollback E K w v previous d) =
    (if r = Inr () then d'\<lparr> dm_app := snd ((phases E K v (dm_file d') ^^ 8) (Announcing_restart, dm_app d')) \<rparr> else d')"
proof (cases r)
  case (Inl e)
  with assms show ?thesis by (simp add: eff_simps)
next
  case (Inr u)
  obtain q t where t: "restart_node_runtime E K v d' = (q, t)" by fastforce
  have "dm_has_runtime d'" using written_daemon [OF assms(2)] assms(1) by (metis daemon.select_convs(3) daemon.surjective daemon.update_convs(2))
  note restart_phases [OF this t]
  then have "snd ((phases E K v (dm_file d') ^^ 8) (Announcing_restart, dm_app d')) = dm_app t" "t = d'\<lparr> dm_app := dm_app t \<rparr>" by simp_all
  moreover have "snd (rollback E K w v previous d) = t"
    using assms(2) Inr t by (cases q) (simp_all add: eff_simps)
  ultimately show ?thesis using Inr by simp
qed

lemma moved_outcomes:
  assumes "restart_phase E K server (dm_file d) phase (dm_app d) = (phase', b)"
  shows "outcomes E K (Restarting nxt previous phase') reply (d\<lparr> dm_app := b \<rparr>) \<subseteq> outcomes E K (Restarting nxt previous phase) reply d"
proof -
  have same: "\<exists>v1. (phases E K v (dm_file d) ^^ 8) (phase', b) = (phases E K v1 (dm_file d) ^^ 8) (phase, dm_app d)" for v
    using phases_any [of E K v "dm_file d" server phase "dm_app d"] assms by simp
  show ?thesis
  proof (cases previous)
    case None
    show ?thesis unfolding None
    proof
      fix o'
      assume "o' \<in> outcomes E K (Restarting nxt None phase') reply (d\<lparr> dm_app := b \<rparr>)"
      then obtain v where "o' = (Some (Inl restart_failure), d\<lparr> dm_app := snd ((phases E K v (dm_file d) ^^ 8) (phase', b)) \<rparr>)" by auto
      with same [of v] show "o' \<in> outcomes E K (Restarting nxt None phase) reply d" by auto
    qed
  next
    case (Some prev)
    have "after_restart E K nxt prev (d\<lparr> dm_app := b \<rparr>) result = after_restart E K nxt prev d result" for result
      by (simp add: after_restart_def)
    then show ?thesis unfolding Some outcomes.simps
    proof (intro UN_least)
      fix v
      from same [of v] obtain v1 where v1:
        "(phases E K v (dm_file d) ^^ 8) (phase', b) = (phases E K v1 (dm_file d) ^^ 8) (phase, dm_app d)" by blast
      assume keep: "\<And>result. after_restart E K nxt prev (d\<lparr> dm_app := b \<rparr>) result = after_restart E K nxt prev d result"
      have "(phases E K v (dm_file (d\<lparr> dm_app := b \<rparr>)) ^^ 8) (phase', dm_app (d\<lparr> dm_app := b \<rparr>)) =
          (phases E K v1 (dm_file d) ^^ 8) (phase, dm_app d)" using v1 by simp
      then show "after_restart E K nxt prev (d\<lparr> dm_app := b \<rparr>)
          ((phases E K v (dm_file (d\<lparr> dm_app := b \<rparr>)) ^^ 8) (phase', dm_app (d\<lparr> dm_app := b \<rparr>)))
        \<subseteq> (\<Union>v. after_restart E K nxt prev d ((phases E K v (dm_file d) ^^ 8) (phase, dm_app d)))"
        unfolding keep by (simp only:) blast
    qed
  qed
qed

lemma request_step_outcomes:
  assumes "request_step E K serialize x y"
  shows "outcomes_of E K y \<subseteq> outcomes_of E K x"
proof -
  from assms have step: "control_step E K serialize x y" and busy: "cp_pc x \<noteq> No_update" by (simp_all add: request_step_def)
  from step show ?thesis
  proof cases
    case Update_begins
    with busy show ?thesis by simp
  next
    case (Restart_moves nxt previous phase server phase' b)
    have "restart_phase E K server (dm_file (daemon_of x)) phase (dm_app (daemon_of x)) = (phase', b)" using Restart_moves(4) by simp
    from moved_outcomes [OF this, of nxt previous "cp_reply x"] Restart_moves(1,2) show ?thesis by simp
  next
    case (Update_ends nxt previous)
    then show ?thesis by (simp add: after_restart_def Let_def)
  next
    case (Rolls_back nxt previous outcome r d)
    have d: "d = (daemon_of x)\<lparr> dm_file := dm_file d \<rparr>" by (rule written_daemon [OF Rolls_back(3)])
    then have y: "daemon_of y = d" by (simp add: Rolls_back(1))
    have "(Some (Inl restart_failure), snd (rollback E K outcome v previous (daemon_of x))) \<in> outcomes_of E K x" for v
      using Rolls_back(2) by (auto simp: after_restart_def Let_def)
    with rollback_result [OF _ Rolls_back(3), of K] show ?thesis using Rolls_back(1) y by auto
  next
    case (Rolled_back nxt phase)
    then show ?thesis by (auto simp: daemon_of_def)
  qed
qed

lemma request_moves:
  assumes "cp_pc x = Restarting nxt previous phase"
  shows "\<exists>y. (request_step E K serialize)\<^sup>*\<^sup>* x y \<and>
    cp_pc y = Restarting nxt previous (fst ((phases E K v (cp_file x) ^^ n) (phase, pr_app (cp_process x)))) \<and>
    daemon_of y = (daemon_of x)\<lparr> dm_app := snd ((phases E K v (cp_file x) ^^ n) (phase, pr_app (cp_process x))) \<rparr> \<and>
    cp_reply y = cp_reply x"
proof (induction n)
  case 0
  from assms show ?case by (intro exI [of _ x]) (simp add: daemon_of_def)
next
  case (Suc n)
  then obtain y where run: "(request_step E K serialize)\<^sup>*\<^sup>* x y"
    and y: "cp_pc y = Restarting nxt previous (fst ((phases E K v (cp_file x) ^^ n) (phase, pr_app (cp_process x))))"
      "daemon_of y = (daemon_of x)\<lparr> dm_app := snd ((phases E K v (cp_file x) ^^ n) (phase, pr_app (cp_process x))) \<rparr>"
      "cp_reply y = cp_reply x" by blast
  obtain p a where pa: "(phases E K v (cp_file x) ^^ n) (phase, pr_app (cp_process x)) = (p, a)" by fastforce
  from y pa have now: "cp_pc y = Restarting nxt previous p" "pr_app (cp_process y) = a" "cp_file y = cp_file x"
    by (simp_all add: daemon_of_def)
  show ?case
  proof (cases "p \<in> {Restarted, Restart_failed}")
    case True
    then have "restart_phase E K v (cp_file x) p a = (p, a)" by auto
    with pa have "(phases E K v (cp_file x) ^^ Suc n) (phase, pr_app (cp_process x)) = (p, a)" by simp
    with run y pa show ?thesis by (intro exI [of _ y]) simp
  next
    case False
    obtain p' b where p': "restart_phase E K v (cp_file x) p a = (p', b)" by fastforce
    let ?z = "y\<lparr> cp_process := publish serialize b (cp_process y), cp_pc := Restarting nxt previous p' \<rparr>"
    have "control_step E K serialize y ?z"
      by (rule Restart_moves [OF now(1) False, of E K v]) (simp add: now p')
    then have "request_step E K serialize y ?z" using now(1) by (simp add: request_step_def)
    with run have "(request_step E K serialize)\<^sup>*\<^sup>* x ?z" by (rule rtranclp.rtrancl_into_rtrancl)
    with pa p' y show ?thesis by (intro exI [of _ ?z]) simp
  qed
qed

lemma rolled_back_completes:
  assumes x: "cp_pc x = Restarting nxt None phase"
  shows "\<exists>y. (request_step E K serialize)\<^sup>*\<^sup>* x y \<and> cp_pc y = No_update \<and> cp_reply y = Some (Inl restart_failure) \<and>
    daemon_of y = (daemon_of x)\<lparr> dm_app := snd ((phases E K v (cp_file x) ^^ 8) (phase, pr_app (cp_process x))) \<rparr>"
proof -
  from request_moves [OF x, of E K serialize 8 v] obtain y where run: "(request_step E K serialize)\<^sup>*\<^sup>* x y"
    and y: "cp_pc y = Restarting nxt None (fst ((phases E K v (cp_file x) ^^ 8) (phase, pr_app (cp_process x))))"
      "daemon_of y = (daemon_of x)\<lparr> dm_app := snd ((phases E K v (cp_file x) ^^ 8) (phase, pr_app (cp_process x))) \<rparr>"
    by blast
  from Rolled_back [OF y(1) phases_final] y(1)
  have "request_step E K serialize y (y\<lparr> cp_pc := No_update, cp_reply := Some (Inl restart_failure) \<rparr>)"
    by (simp add: request_step_def)
  with run have "(request_step E K serialize)\<^sup>*\<^sup>* x (y\<lparr> cp_pc := No_update, cp_reply := Some (Inl restart_failure) \<rparr>)"
    by (rule rtranclp.rtrancl_into_rtrancl)
  with y(2) show ?thesis by (intro exI [of _ "y\<lparr> cp_pc := No_update, cp_reply := Some (Inl restart_failure) \<rparr>"]) simp
qed

lemma first_restart_completes:
  assumes x: "cp_pc x = Restarting nxt (Some previous) phase"
    and o': "(reply, d) \<in> after_restart E K nxt previous (daemon_of x) ((phases E K v (cp_file x) ^^ 8) (phase, pr_app (cp_process x)))"
  shows "\<exists>y. (request_step E K serialize)\<^sup>*\<^sup>* x y \<and> cp_pc y = No_update \<and> cp_reply y = reply \<and> daemon_of y = d"
proof -
  let ?final = "(phases E K v (cp_file x) ^^ 8) (phase, pr_app (cp_process x))"
  from request_moves [OF x, of E K serialize 8 v] obtain y where run: "(request_step E K serialize)\<^sup>*\<^sup>* x y"
    and y: "cp_pc y = Restarting nxt (Some previous) (fst ?final)" "daemon_of y = (daemon_of x)\<lparr> dm_app := snd ?final \<rparr>" by blast
  have go: "(request_step E K serialize)\<^sup>*\<^sup>* x z" if "control_step E K serialize y z" for z
    using that run y(1) by (auto simp: request_step_def intro: rtranclp.rtrancl_into_rtrancl)
  show ?thesis
  proof (cases "fst ?final = Restarted")
    case True
    with y(1) have "cp_pc y = Restarting nxt (Some previous) Restarted" by simp
    from go [OF Update_ends [OF this]] o' True y(2) show ?thesis
      by (intro exI [of _ "y\<lparr> cp_pc := No_update, cp_reply := Some (update_reply E nxt (daemon_of y)) \<rparr>"])
        (simp add: after_restart_def Let_def)
  next
    case False
    with y(1) phases_final [of E K v "cp_file x" phase "pr_app (cp_process x)"]
    have failed: "cp_pc y = Restarting nxt (Some previous) Restart_failed" by auto
    from o' False y(2) obtain w u where o'': "reply = Some (Inl restart_failure)" "d = snd (rollback E K w u previous (daemon_of y))"
      by (auto simp: after_restart_def Let_def)
    obtain r d' where d': "write_persisted_settings (ae_json E) w previous (daemon_of y) = (r, d')" by fastforce
    note result = rollback_result [OF daemon_of_simps(3) d', of K u]
    let ?z = "y\<lparr> cp_file := dm_file d', cp_pc := (if r = Inr () then Restarting nxt None Announcing_restart else No_update),
      cp_reply := (if r = Inr () then cp_reply y else Some (Inl restart_failure)) \<rparr>"
    have z: "daemon_of ?z = d'" using written_daemon [OF d'] by simp
    note run_z = go [OF Rolls_back [OF failed d']]
    show ?thesis
    proof (cases "r = Inr ()")
      case True
      then have "cp_pc ?z = Restarting nxt None Announcing_restart" by simp
      from rolled_back_completes [OF this, of E K serialize u] obtain a where
        "(request_step E K serialize)\<^sup>*\<^sup>* ?z a" "cp_pc a = No_update" "cp_reply a = Some (Inl restart_failure)"
        "daemon_of a = (daemon_of ?z)\<lparr> dm_app := snd ((phases E K u (cp_file ?z) ^^ 8) (Announcing_restart, pr_app (cp_process ?z))) \<rparr>"
        by blast
      moreover have "cp_file ?z = dm_file d'" "pr_app (cp_process ?z) = dm_app d'"
        using arg_cong [OF z, of dm_app] by simp_all
      ultimately show ?thesis using run_z o'' result True z rtranclp_trans [OF run_z] by (intro exI [of _ a]) simp
    next
      case False
      with run_z o'' result z show ?thesis by (intro exI [of _ ?z]) simp
    qed
  qed
qed

lemma request_completes:
  assumes "(reply, d) \<in> outcomes_of E K x"
  shows "\<exists>y. (request_step E K serialize)\<^sup>*\<^sup>* x y \<and> cp_pc y = No_update \<and> cp_reply y = reply \<and> daemon_of y = d"
proof (cases "cp_pc x")
  case No_update
  with assms show ?thesis by (intro exI [of _ x]) simp
next
  case (Restarting nxt previous phase)
  show ?thesis
  proof (cases previous)
    case None
    with assms Restarting obtain v where "reply = Some (Inl restart_failure)"
      "d = (daemon_of x)\<lparr> dm_app := snd ((phases E K v (cp_file x) ^^ 8) (phase, pr_app (cp_process x))) \<rparr>" by auto
    with rolled_back_completes [OF Restarting [unfolded None], of E K serialize v] show ?thesis by simp
  next
    case (Some prev)
    with assms Restarting obtain v where
      "(reply, d) \<in> after_restart E K nxt prev (daemon_of x) ((phases E K v (cp_file x) ^^ 8) (phase, pr_app (cp_process x)))" by auto
    with first_restart_completes [OF Restarting [unfolded Some]] show ?thesis by blast
  qed
qed

lemma request_run_outcomes: "(request_step E K serialize)\<^sup>*\<^sup>* x y \<Longrightarrow> outcomes_of E K y \<subseteq> outcomes_of E K x"
  by (induction rule: rtranclp_induct) (use request_step_outcomes in blast)+

lemma update_outcomes:
  assumes "begin_update E K w patch replace (daemon_of x) = (q, d)"
  shows "(\<exists>v1 w2 v2. update_node_config E K w v1 w2 v2 patch replace (daemon_of x) = (r, t)) \<longleftrightarrow>
    (Some r, t) \<in> outcomes_of E K (update_begun q d x)"
proof -
  have begun: "daemon_of (update_begun q d x) = d"
    using begun_daemon [OF assms] by (simp add: update_begun_def)
  have d: "cp_file (update_begun q d x) = dm_file d" "dm_has_runtime d" "pr_app (cp_process (update_begun q d x)) = dm_app d"
    using arg_cong [OF begun, of dm_file] arg_cong [OF begun, of dm_has_runtime] arg_cong [OF begun, of dm_app] by simp_all
  note split = update_split [OF daemon_of_simps(3), of E K w _ _ _ patch replace x, unfolded assms]
  show ?thesis
  proof (cases q)
    case (Inl e)
    then show ?thesis using begun by (auto simp: split update_begun_def)
  next
    case (Inr pn)
    obtain previous nxt where pn: "pn = (previous, nxt)" by fastforce
    have pc: "cp_pc (update_begun q d x) = Restarting nxt (Some previous) Announcing_restart"
      by (simp add: update_begun_def Inr pn)
    have "(\<exists>w2 v2. update_node_config E K w v1 w2 v2 patch replace (daemon_of x) = (r, t)) \<longleftrightarrow>
      (Some r, t) \<in> after_restart E K nxt previous d ((phases E K v1 (dm_file d) ^^ 8) (Announcing_restart, dm_app d))" for v1
    proof -
      obtain p u where u: "restart_node_runtime E K v1 d = (p, u)" by fastforce
      note phases = restart_phases [OF d(2) u]
      have same: "d\<lparr> dm_app := dm_app u \<rparr> = u" using phases(2) by simp
      from phases(3) show ?thesis
      proof
        assume "p = Inr ()"
        with u same show ?thesis unfolding split phases(1) by (auto simp: Inr pn after_restart_def Let_def)
      next
        assume "p = Inl restart_failure"
        with u same show ?thesis unfolding split phases(1) by (auto simp: Inr pn after_restart_def Let_def; blast)
      qed
    qed
    then show ?thesis unfolding pc outcomes.simps begun by auto
  qed
qed

section \<open>Properties\<close>

abbreviation sample_control where
  "sample_control \<equiv> control_step sample_env sample_config_env (\<lambda>_. ''text'')"

abbreviation sample_served where
  "sample_served \<equiv> controlled_serving sample_serving 0 True (Inr (DObj []))"



end
