(* ===== verification/App_Control.thy ===== *)
theory App_Control
  imports Control_Steps
begin

text \<open>
  The process with its control interface: \<open>controlled_step\<close> interleaves the statements of a request, \<open>control_step\<close>,
  with the threads of \<open>App_Run\<close>, \<open>process_step\<close>. It follows what a restart of the node in the midst of
  synchronisations, activations, losses of the connection and stops leaves.
\<close>

section \<open>Steps\<close>

text \<open>
  The process and the request. \<open>waits\<close> tells whether closing the listener waits for a request that is being handled, which is up
  to the library.
\<close>

inductive controlled_step ::
    "('v, 'rs) app_env \<Rightarrow> ('v, 'p, 'm, 'c) connection_lib \<Rightarrow> ws_config \<Rightarrow> (string \<Rightarrow> exc + 'v) \<Rightarrow> ('v \<Rightarrow> string) \<Rightarrow>
     'v config_env \<Rightarrow> bool \<Rightarrow> ('v, 'rs) controlled \<Rightarrow> ('v, 'rs) controlled \<Rightarrow> bool"
    for E C G parse serialize K waits where
  Process_moves: "process_step E C G parse serialize (cp_process x) q \<Longrightarrow>
    waits \<longrightarrow> pr_stop q \<noteq> pr_stop (cp_process x) \<longrightarrow> pr_stop (cp_process x) = Closing_listener \<longrightarrow> cp_pc x = No_update \<Longrightarrow>
    controlled_step E C G parse serialize K waits x (x\<lparr> cp_process := q \<rparr>)"
| Control_moves: "control_step E K serialize x y \<Longrightarrow> controlled_step E C G parse serialize K waits x y"

section \<open>The request among the threads of the process\<close>

lemma calm_edit_cache [calm_intros]:
  "(\<And>xs s. lifecycle (set_cache xs s) = lifecycle s) \<Longrightarrow> calm (edit_cache get_cache set_cache P m)"
  by (auto simp: calm_def edit_cache_def split: prod.split)

lemma calm_connection: "calm (connection_activated J L C callbacks resource connection_resource)"
  unfolding connection_activated_def activate_receiver_def activate_sender_def Let_def
  by (intro calm_intros; simp add: lifecycle_def)

text \<open>What the threads of the daemon leave to the thread of the request: the lifecycle of the node and its state in the status.\<close>

definition node_status :: "('v, 'rs) app \<Rightarrow> string" where
  "node_status a = st_node_state (ss_status (ap_store a))"

definition same_life :: "('v, 'rs) app \<Rightarrow> ('v, 'rs) app \<Rightarrow> bool" where
  "same_life a b \<longleftrightarrow> lifecycle (ap_node b) = lifecycle (ap_node a) \<and> node_status b = node_status a"

lemma same_life_refl [simp]: "same_life a a"
  by (simp add: same_life_def)

lemma same_life_trans: "same_life a b \<Longrightarrow> same_life b c \<Longrightarrow> same_life a c"
  by (simp add: same_life_def)

lemma node_status_store:
  "node_status (on_store (set_daemon_state d) a) = node_status a"
  "node_status (on_store (mark_sync_failed e) a) = node_status a"
  "node_status (on_store (mark_apply_success v sn b) a) = node_status a"
  "node_status (on_store clear_last_snapshot a) = node_status a"
  "node_status (on_store (set_registry_status g) a) = node_status a"
  "node_status (on_store mark_drained_due_to_ws_disconnect a) = node_status a"
  "node_status (on_store (set_last_seen_revision v) a) = node_status a"
  "node_status (on_store mark_snapshot_signal_received a) = node_status a"
  by (simp_all add: node_status_def on_store_def store_defs)

lemma sync_life: "same_life a ((perform_sync_rest E v c fetched a)\<lparr> ap_pc := x \<rparr>)"
proof (cases rule: perform_sync_rest_cases [of fetched E v c a])
  case (unapplied sn e n)
  from calmD [OF calm_apply unapplied(2)] show ?thesis
    by (simp add: unapplied(3) same_life_def node_status_def sync_failed_def on_store_def send_json_def store_defs Let_def)
next
  case (applied sn n)
  from calmD [OF calm_apply applied(2)] show ?thesis
    by (simp add: applied(3) same_life_def node_status_def on_store_def store_defs)
qed (simp add: same_life_def node_status_def sync_failed_def on_store_def send_json_def store_defs Let_def)

lemma app_step_life: "app_step E a b \<Longrightarrow> same_life a b"
proof (induction rule: app_step.cases)
  case (Disconnected s r t)
  obtain q n where n: "drain_all (ae_json E) (ae_nmos E) (ss_last_snapshot (ap_store s)) (ap_node s) = (q, n)" by fastforce
  from Disconnected n calmD [OF calm_drain n] show ?case
    by (cases q) (auto simp: handle_ws_disconnected_def on_node_def on_store_def eff_simps same_life_def node_status_def store_defs)
next
  case (Sync_end s v b c fetched)
  then show ?case by (simp add: sync_life)
qed (auto simp: same_life_def node_status_def handle_ws_connected_def handle_snapshot_changed_def handle_ws_error_def
    handle_registration_event_def handle_sender_event_def handle_receiver_event_def take_request_def send_json_def
    schedule_sync_def on_store_def store_defs Let_def)

lemma daemon_step_life:
  assumes "daemon_step E C a b"
  shows "same_life a b"
  using assms
proof cases
  case Threads
  then show ?thesis by (rule app_step_life)
next
  case (Activated callbacks H resource connection r)
  from Activated show ?thesis
  proof (rule activation_effect)
    fix q n
    assume run: "connection_activated (ae_json E) (ae_nmos E) C callbacks resource connection (ap_node a) = (q, n)"
      and b: "b = fold (stream_callback E H) (case q of Inl _ \<Rightarrow> [] | Inr reports \<Rightarrow> reports) (a\<lparr> ap_node := n \<rparr>)"
    from calmD [OF calm_connection run] show "same_life a b" by (simp add: b same_life_def node_status_def)
  qed
next
  case (Registered H callback u)
  then show ?thesis
    by (auto simp: same_life_def node_status_def registration_handler_def publish_registration_event_def
        handle_registration_event_def on_store_def store_defs)
qed

lemma daemon_step_node_good:
  assumes lib: "resource_store (ae_nmos E) ids" and ord: "iteration_order (ae_order E)" and a: "node_good (ae_nmos E) (ap_node a)"
    and step: "daemon_step E C a b"
  shows "node_good (ae_nmos E) (ap_node b)"
  using step
proof cases
  case Threads
  from this show ?thesis
  proof cases
    case (Disconnected r)
    from handle_ws_disconnected_effect [OF lib a] Disconnected show ?thesis by auto
  next
    case (Sync_end v b' c fetched)
    show ?thesis
    proof (cases rule: perform_sync_rest_cases [of fetched E v c a])
      case (unapplied sn e n)
      with a Sync_end editsD(1) [OF resource_store.apply_snapshot_edits [OF lib ord] a unapplied(2)] show ?thesis by simp
    next
      case (applied sn n)
      with a Sync_end editsD(1) [OF resource_store.apply_snapshot_edits [OF lib ord] a applied(2)] show ?thesis by simp
    qed (use a Sync_end in simp)
  qed (use a in \<open>auto simp: take_request_def handle_ws_error_def handle_registration_event_def
      handle_sender_event_def handle_receiver_event_def on_store_def send_json_def\<close>)
next
  case (Activated callbacks H resource connection r)
  from Activated show ?thesis
  proof (rule activation_effect)
    fix q n
    assume run: "connection_activated (ae_json E) (ae_nmos E) C callbacks resource connection (ap_node a) = (q, n)"
      and b: "b = fold (stream_callback E H) (case q of Inl _ \<Rightarrow> [] | Inr reports \<Rightarrow> reports) (a\<lparr> ap_node := n \<rparr>)"
    from lib a run have "node_good (ae_nmos E) n"
      by (rule activation_cases) (auto simp: a stream_changed_def)
    then show ?thesis by (simp add: b)
  qed
next
  case (Registered H callback u)
  with a show ?thesis
    by (auto simp: registration_handler_def publish_registration_event_def handle_registration_event_def on_store_def)
qed

text \<open>The node between \<open>stop\<close> and \<open>start\<close>; stopping it again changes nothing.\<close>

definition idle_node :: "('v, 'rs) node \<Rightarrow> bool" where
  "idle_node n \<longleftrightarrow> nd_lifecycle_state n = Stopped \<and> nd_shutdown n \<and> \<not> nd_stop_requested n \<and> \<not> nd_thread_joinable n \<and>
     nd_needs_model_reset n"

lemma idle_stop [simp]: "idle_node (snd (node_stop n))" "nd_lifecycle_state (snd (node_stop n)) = Stopped"
  by (simp_all add: idle_node_def node_stop_def Let_def)

lemma stop_idle: "idle_node n \<Longrightarrow> snd (node_stop n) = n"
  by (cases n) (simp add: idle_node_def node_stop_def Let_def)

lemma stop_keeps_good: "node_good L n \<Longrightarrow> node_good L (snd (node_stop n))"
  using node_good_core [of "snd (node_stop n)" n L]
  by (simp add: caches_core caches_def node_stop_def Let_def)

text \<open>The state of the node in the status is the one it has.\<close>

definition truthful :: "('v, 'rs) app \<Rightarrow> bool" where
  "truthful a \<longleftrightarrow> nd_lifecycle_state (ap_node a) = Running \<and> node_status a = ''running'' \<or>
     nd_lifecycle_state (ap_node a) = Stopped \<and> node_status a = ''stopped''"

fun phase_ok :: "restart_pc \<Rightarrow> ('v, 'rs) app \<Rightarrow> bool" where
  "phase_ok Announcing_restart a = truthful a"
| "phase_ok Stopping_runtime a = (node_status a = ''restarting'' \<and> nd_lifecycle_state (ap_node a) \<in> {Running, Stopped})"
| "phase_ok Runtime_started a = (node_status a = ''restarting'' \<and> nd_lifecycle_state (ap_node a) = Running)"
| "phase_ok Runtime_failed a = (node_status a = ''restarting'' \<and> nd_lifecycle_state (ap_node a) = Stopped)"
| "phase_ok Scheduling a = (node_status a = ''running'' \<and> nd_lifecycle_state (ap_node a) = Running)"
| "phase_ok Restarted a = (node_status a = ''running'' \<and> nd_lifecycle_state (ap_node a) = Running)"
| "phase_ok Restart_failed a = (node_status a = ''stopped'' \<and> nd_lifecycle_state (ap_node a) = Stopped)"
| "phase_ok phase a = (node_status a = ''restarting'' \<and> idle_node (ap_node a))"

fun request_ok :: "'v control_pc \<Rightarrow> ('v, 'rs) app \<Rightarrow> bool" where
  "request_ok No_update a = truthful a"
| "request_ok (Restarting nxt previous phase) a = phase_ok phase a"

lemma same_life_ok:
  assumes "same_life a b"
  shows "truthful b = truthful a" "phase_ok phase b = phase_ok phase a" "request_ok pc b = request_ok pc a"
proof -
  have life: "nd_lifecycle_state (ap_node b) = nd_lifecycle_state (ap_node a)" "idle_node (ap_node b) = idle_node (ap_node a)"
    "node_status b = node_status a" using assms by (auto simp: same_life_def lifecycle_def idle_node_def)
  then show t: "truthful b = truthful a" by (simp add: truthful_def)
  show p: "phase_ok phase b = phase_ok phase a" for phase by (cases phase) (simp_all add: life t)
  show "request_ok pc b = request_ok pc a" by (cases pc) (simp_all add: t p)
qed

lemma node_state_status [simp]: "node_status (app_set_node_state E st a) = st"
  by (simp add: node_status_def store_defs)

lemma restart_phase_ok:
  assumes lib: "node_store (ae_nmos E) ids (ce_node K)" and good: "node_good (ae_nmos E) (ap_node a)" and ok: "phase_ok phase a"
    and run: "restart_phase E K server file phase a = (phase', b)"
  shows "phase_ok phase' b \<and> node_good (ae_nmos E) (ap_node b)"
proof (cases phase)
  case Starting_runtime
  with ok have idle: "snd (node_stop (ap_node a)) = ap_node a" by (simp add: stop_idle)
  obtain okay n where n: "node_start (ce_os K) (ae_json E) (ae_nmos E) (ce_node K) (ae_transportfile E) (ce_config_text K) file server
      (ap_node a) = (okay, n)" by fastforce
  then have "node_start (ce_os K) (ae_json E) (ae_nmos E) (ce_node K) (ae_transportfile E) (ce_config_text K) file server
      (snd (node_stop (ap_node a))) = (okay, n)" by (simp only: idle)
  from node_store.start_effect [OF lib good this]
  have "node_good (ae_nmos E) n" "nd_lifecycle_state n = (if okay then Running else Stopped)" by blast+
  with run Starting_runtime n ok show ?thesis by (auto simp: node_status_def)
next
  case Stopping_runtime
  with run ok good show ?thesis by (auto simp: stop_keeps_good node_status_def)
qed (use run ok good in \<open>auto simp: truthful_def node_status_store, auto simp: node_status_def on_store_def schedule_sync_def Let_def\<close>)

lemma restart_phase_app:
  assumes "restart_phase E K server file phase a = (phase', b)"
  shows "sends E a b" "ap_pc b = ap_pc a"
proof -
  from assms show "sends E a b"
    by (cases phase) (auto simp: sends_node_state sends_same on_store_def Let_def split: prod.splits intro: sends_schedule)
  from assms show "ap_pc b = ap_pc a"
    by (cases phase) (auto simp: app_set_node_state_def on_store_def send_json_def Let_def split: prod.splits)
qed

text \<open>The invariant of the process counted from its present state, so that other operations than steps of the daemon keep it.\<close>

abbreviation process_well where
  "process_well E C G parse serialize p \<equiv> process_good E C G parse serialize (pr_app p) p"

lemma process_wellI:
  assumes "process_good E C G parse serialize a p"
  shows "process_well E C G parse serialize p"
  by (rule process_goodI) (use process_goodD [OF assms] in blast)+

lemma process_well_publish:
  assumes p: "process_well E C G parse serialize p" and op: "sends E (pr_app p) b" "ap_pc b = ap_pc (pr_app p)"
    and running: "pr_stop p \<noteq> All_stopped"
  shows "process_well E C G parse serialize (publish serialize b p)"
proof (rule process_goodI, unfold publish_fields)
  note g = process_goodD [OF p]
  show "linked E serialize (publish serialize b p)" by (rule linked_publish [OF g(1) op(1)])
  show "ws_reachable (ae_json E) parse G (pr_ws (publish serialize b p))" by (rule reachable_publish [OF g(2)])
  show "ap_stop_requested b" if "pr_stop p \<noteq> Not_stopping" using g(6) [OF that] op(1) by (simp add: sends_def)
  show "ap_pc b = Finished" if "pr_stop p \<in> {Closing_listener, Stopping_node, All_stopped}" using g(8) [OF that] op(2) by simp
qed (use process_goodD(4,5,7,9) [OF p] running in simp_all)

lemma process_step_stops:
  assumes "process_step E C G parse serialize p q"
  shows "pr_stop q = Stopping_node \<Longrightarrow> pr_stop p \<in> {Closing_listener, Stopping_node}"
    "pr_stop q = All_stopped \<Longrightarrow> pr_stop p = All_stopped \<or> pr_stop p = Stopping_node \<and> q = stop_node E serialize p"
  using assms by (cases; auto simp: request_stop_def stop_node_def Let_def)+

definition controlled_good ::
    "('v, 'rs) app_env \<Rightarrow> ('v, 'p, 'm, 'c) connection_lib \<Rightarrow> ws_config \<Rightarrow> (string \<Rightarrow> exc + 'v) \<Rightarrow> ('v \<Rightarrow> string) \<Rightarrow>
     ('v, 'rs) controlled \<Rightarrow> bool" where
  "controlled_good E C G parse serialize x \<longleftrightarrow>
     process_well E C G parse serialize (cp_process x) \<and> node_good (ae_nmos E) (ap_node (pr_app (cp_process x))) \<and>
     request_ok (cp_pc x) (pr_app (cp_process x)) \<and>
     (pr_stop (cp_process x) \<in> {Stopping_node, All_stopped} \<longrightarrow> cp_pc x = No_update)"

lemma controlled_goodD:
  assumes "controlled_good E C G parse serialize x"
  shows "process_well E C G parse serialize (cp_process x)" "node_good (ae_nmos E) (ap_node (pr_app (cp_process x)))"
    "request_ok (cp_pc x) (pr_app (cp_process x))" "pr_stop (cp_process x) \<in> {Stopping_node, All_stopped} \<Longrightarrow> cp_pc x = No_update"
  using assms unfolding controlled_good_def by blast+

lemma daemon_steps_life:
  assumes "resource_store (ae_nmos E) ids" "iteration_order (ae_order E)" "node_good (ae_nmos E) (ap_node a)"
    and "(daemon_step E C)\<^sup>*\<^sup>* a b"
  shows "same_life a b \<and> node_good (ae_nmos E) (ap_node b)"
  using assms(4)
proof induction
  case base
  from assms(3) show ?case by simp
next
  case (step b c)
  then show ?case using daemon_step_life [OF step(2)] daemon_step_node_good [OF assms(1,2) _ step(2)]
    by (blast intro: same_life_trans)
qed

lemma stop_node_result:
  "ap_node (pr_app (stop_node E serialize p)) = snd (node_stop (ap_node (pr_app p)))"
  "node_status (pr_app (stop_node E serialize p)) = ''stopped''" "pr_stop (stop_node E serialize p) = All_stopped"
  by (simp_all add: stop_node_def node_status_def on_store_def store_defs Let_def)

lemma controlled_good_process:
  assumes lib: "resource_store (ae_nmos E) ids" and ord: "iteration_order (ae_order E)"
    and x: "controlled_good E C G parse serialize x" and step: "process_step E C G parse serialize (cp_process x) q"
    and waits: "pr_stop q \<noteq> pr_stop (cp_process x) \<longrightarrow> pr_stop (cp_process x) = Closing_listener \<longrightarrow> cp_pc x = No_update"
  shows "controlled_good E C G parse serialize (x\<lparr> cp_process := q \<rparr>)"
proof -
  note g = controlled_goodD [OF x] and stops = process_step_stops [OF step]
  have idle: "cp_pc x = No_update" if "pr_stop q \<in> {Stopping_node, All_stopped}" using that stops g(4) waits by auto
  consider (frozen) "pr_stop (cp_process x) = All_stopped"
    | (stops) "pr_stop (cp_process x) \<noteq> All_stopped" "pr_stop q = All_stopped"
    | (runs) "pr_stop (cp_process x) \<noteq> All_stopped" "pr_stop q \<noteq> All_stopped" by blast
  then show ?thesis
  proof cases
    case frozen
    from frozen_step [OF g(1) frozen step] have q: "process_good E C G parse serialize (pr_app (cp_process x)) q"
      "ap_node (pr_app q) = ap_node (pr_app (cp_process x))" "ap_store (pr_app q) = ap_store (pr_app (cp_process x))" by blast+
    then have life: "same_life (pr_app (cp_process x)) (pr_app q)" by (simp add: same_life_def node_status_def)
    with process_wellI [OF q(1)] g q(2) idle same_life_ok(3) [OF life, of "cp_pc x"]
    show ?thesis by (simp add: controlled_good_def)
  next
    case stops
    from process_wellI [OF process_good_step [OF g(1) step stops(1)]]
    have "process_well E C G parse serialize q" .
    moreover have "q = stop_node E serialize (cp_process x)" using process_step_stops(2) [OF step stops(2)] stops(1) by blast
    ultimately show ?thesis using idle stops(2) g(2)
      by (simp add: controlled_good_def stop_node_result stop_keeps_good truthful_def)
  next
    case runs
    note q = process_good_step [OF g(1) step runs(1)]
    from daemon_steps_life [OF lib ord g(2) process_goodD(3) [OF q runs(2)]]
    have life: "same_life (pr_app (cp_process x)) (pr_app q)" "node_good (ae_nmos E) (ap_node (pr_app q))" by blast+
    with process_wellI [OF q] g idle same_life_ok(3) [OF life(1), of "cp_pc x"]
    show ?thesis by (simp add: controlled_good_def)
  qed
qed

lemma controlled_good_control:
  assumes lib: "node_store (ae_nmos E) ids (ce_node K)" and x: "controlled_good E C G parse serialize x"
    and step: "control_step E K serialize x y"
  shows "controlled_good E C G parse serialize y"
proof -
  note g = controlled_goodD [OF x]
  from step show ?thesis
  proof cases
    case (Update_begins outcome patch replace_entire_document r d)
    then have "pr_stop (cp_process x) \<notin> {Stopping_node, All_stopped}" using process_goodD(9) [OF g(1)] by blast
    with g Update_begins(1,2) show ?thesis by (auto simp: controlled_good_def split: sum.split)
  next
    case (Restart_moves nxt previous phase server phase' b)
    from g(4) Restart_moves(2) have running: "pr_stop (cp_process x) \<notin> {Stopping_node, All_stopped}" by auto
    have "phase_ok phase (pr_app (cp_process x))" using g(3) Restart_moves(2) by simp
    from restart_phase_ok [OF lib g(2) this Restart_moves(4)] process_well_publish [OF g(1) restart_phase_app [OF Restart_moves(4)]]
      running Restart_moves(1) show ?thesis by (simp add: controlled_good_def)
  next
    case (Rolls_back nxt previous outcome r d)
    with g show ?thesis by (auto simp: controlled_good_def truthful_def)
  qed (use g in \<open>auto simp: controlled_good_def truthful_def\<close>)
qed

lemma controlled_good_step:
  assumes "node_store (ae_nmos E) ids (ce_node K)" "iteration_order (ae_order E)"
    and x: "controlled_good E C G parse serialize x" and step: "controlled_step E C G parse serialize K True x y"
  shows "controlled_good E C G parse serialize y"
  using step
proof cases
  case (Process_moves q)
  have "resource_store (ae_nmos E) ids" using assms(1) by (simp add: node_store_def)
  from controlled_good_process [OF this assms(2) x Process_moves(2)] Process_moves(1,3) show ?thesis by simp
next
  case Control_moves
  then show ?thesis by (rule controlled_good_control [OF assms(1) x])
qed

lemma controlled_reaches:
  assumes "node_store (ae_nmos E) ids (ce_node K)" "iteration_order (ae_order E)" "node_good (ae_nmos E) n"
    and "nd_lifecycle_state n = Running"
    and "(controlled_step E C G parse serialize K True)\<^sup>*\<^sup>* (controlled_serving n now listening file) x"
  shows "controlled_good E C G parse serialize x"
  using assms(5)
proof induction
  case base
  have "pr_app (cp_process (controlled_serving n now listening file)) = app_started n now"
    "cp_process (controlled_serving n now listening file) = serving n now listening"
    by (simp_all add: controlled_serving_def serving_def)
  with process_wellI [OF serving_good] assms(3,4) show ?case
    by (simp add: controlled_good_def controlled_serving_def serving_def truthful_def node_status_def app_started_def store_defs)
next
  case (step y z)
  then show ?case by (blast intro: controlled_good_step [OF assms(1,2)])
qed

section \<open>The end of a request\<close>

fun phase_rank :: "restart_pc \<Rightarrow> nat" where
  "phase_rank Announcing_restart = 8"
| "phase_rank Stopping_runtime = 7"
| "phase_rank Resetting_registry = 6"
| "phase_rank Forgetting_snapshot = 5"
| "phase_rank Starting_runtime = 4"
| "phase_rank Runtime_started = 3"
| "phase_rank Runtime_failed = 3"
| "phase_rank Scheduling = 2"
| "phase_rank Restarted = 1"
| "phase_rank Restart_failed = 1"

fun request_rank :: "'v control_pc \<Rightarrow> nat" where
  "request_rank No_update = 0"
| "request_rank (Restarting nxt (Some previous) phase) = 8 + phase_rank phase"
| "request_rank (Restarting nxt None phase) = phase_rank phase"

lemma request_rank_bound: "request_rank pc \<le> 16"
proof (cases pc rule: request_rank.cases)
  case (2 nxt previous phase)
  have "phase_rank phase \<le> 8" by (cases phase) simp_all
  with 2 show ?thesis by simp
next
  case (3 nxt phase)
  have "phase_rank phase \<le> 8" by (cases phase) simp_all
  with 3 show ?thesis by simp
qed simp

lemma request_rank_step:
  assumes "control_step E K serialize x y" "cp_pc x \<noteq> No_update"
  shows "request_rank (cp_pc y) < request_rank (cp_pc x)"
  using assms(1)
proof cases
  case Update_begins
  with assms(2) show ?thesis by simp
next
  case (Restart_moves nxt previous phase server phase' b)
  then have "phase_rank phase' < phase_rank phase" by (cases phase) (auto split: prod.splits simp: Let_def)
  with Restart_moves(1,2) show ?thesis by (cases previous) simp_all
next
  case (Rolled_back nxt phase)
  then show ?thesis by auto
qed simp_all

lemma request_goes_on:
  assumes "cp_pc x \<noteq> No_update"
  shows "\<exists>y. control_step E K serialize x y"
proof (cases "cp_pc x")
  case No_update
  with assms show ?thesis by simp
next
  case (Restarting nxt previous phase)
  show ?thesis
  proof (cases "phase \<in> {Restarted, Restart_failed}")
    case False
    obtain p b where "restart_phase E K None (cp_file x) phase (pr_app (cp_process x)) = (p, b)" by fastforce
    from Restart_moves [OF Restarting False this] show ?thesis by blast
  next
    case True
    show ?thesis
    proof (cases previous)
      case None
      from Rolled_back [OF Restarting [unfolded None] True] show ?thesis by blast
    next
      case (Some prev)
      obtain r d where d: "write_persisted_settings (ae_json E) Written prev (daemon_of x) = (r, d)" by fastforce
      from True Restarting Some Update_ends [of x nxt prev E K serialize] Rolls_back [of x nxt prev E Written r d K serialize] d
      show ?thesis by auto
    qed
  qed
qed

lemma request_ends: "\<exists>y. (control_step E K serialize)\<^sup>*\<^sup>* x y \<and> cp_pc y = No_update \<and> pr_stop (cp_process y) = pr_stop (cp_process x)"
proof (induction "request_rank (cp_pc x)" arbitrary: x rule: less_induct)
  case less
  show ?case
  proof (cases "cp_pc x = No_update")
    case False
    from request_goes_on [OF this] obtain y where y: "control_step E K serialize x y" by blast
    have "pr_stop (cp_process y) = pr_stop (cp_process x)" using y by cases simp_all
    with less [OF request_rank_step [OF y False]] y show ?thesis by (metis converse_rtranclp_into_rtranclp)
  qed blast
qed

lemma control_steps: "(control_step E K serialize)\<^sup>*\<^sup>* x y \<Longrightarrow> (controlled_step E C G parse serialize K waits)\<^sup>*\<^sup>* x y"
  by (induction rule: rtranclp_induct) (auto intro: Control_moves rtranclp.rtrancl_into_rtrancl)

lemma process_steps:
  assumes "(process_step E C G parse serialize)\<^sup>*\<^sup>* (cp_process x) q" "cp_pc x = No_update"
  shows "(controlled_step E C G parse serialize K waits)\<^sup>*\<^sup>* x (x\<lparr> cp_process := q \<rparr>)"
  using assms(1)
proof induction
  case (step q r)
  have "controlled_step E C G parse serialize K waits (x\<lparr> cp_process := q \<rparr>) (x\<lparr> cp_process := q, cp_process := r \<rparr>)"
    by (rule Process_moves) (use step(2) assms(2) in simp_all)
  with step.IH show ?case by (simp add: rtranclp.rtrancl_into_rtrancl)
qed simp

lemma controlled_steps_good:
  assumes "node_store (ae_nmos E) ids (ce_node K)" "iteration_order (ae_order E)"
    and "controlled_good E C G parse serialize x" "(controlled_step E C G parse serialize K True)\<^sup>*\<^sup>* x y"
  shows "controlled_good E C G parse serialize y"
  using assms(4,3) by induction (auto intro: controlled_good_step [OF assms(1,2)])

lemma controlled_stop_ends:
  assumes "node_store (ae_nmos E) ids (ce_node K)" "iteration_order (ae_order E)"
    and "controlled_good E C G parse serialize x" "pr_stop (cp_process x) \<noteq> Not_stopping"
  shows "\<exists>y. (controlled_step E C G parse serialize K True)\<^sup>*\<^sup>* x y \<and> pr_stop (cp_process y) = All_stopped"
proof -
  from request_ends [of E K serialize x] obtain y where y: "(control_step E K serialize)\<^sup>*\<^sup>* x y" "cp_pc y = No_update"
    "pr_stop (cp_process y) = pr_stop (cp_process x)" by blast
  note run = control_steps [OF y(1), of C G parse True]
  from controlled_goodD(1) [OF controlled_steps_good [OF assms(1-3) run]]
  have "process_well E C G parse serialize (cp_process y)" .
  from joining_completes [OF this] y(3) assms(4) obtain q where
    q: "(process_step E C G parse serialize)\<^sup>*\<^sup>* (cp_process y) q" "pr_stop q = All_stopped" by auto
  from rtranclp_trans [OF run process_steps [OF q(1) y(2)]] q(2) show ?thesis by (intro exI [of _ "y\<lparr> cp_process := q \<rparr>"]) simp
qed

text \<open>Nothing happens any more in a stopped process, requests included.\<close>

lemma controlled_frozen:
  assumes x: "controlled_good E C G parse serialize x" and stopped: "pr_stop (cp_process x) = All_stopped"
    and step: "controlled_step E C G parse serialize K True x y"
  shows "pr_stop (cp_process y) = All_stopped \<and> ap_node (pr_app (cp_process y)) = ap_node (pr_app (cp_process x)) \<and>
    ap_store (pr_app (cp_process y)) = ap_store (pr_app (cp_process x)) \<and> ap_sent (pr_app (cp_process y)) = ap_sent (pr_app (cp_process x))"
proof -
  note g = controlled_goodD [OF x]
  from step show ?thesis
  proof cases
    case (Process_moves q)
    with frozen_step [OF g(1) stopped Process_moves(2)] show ?thesis by simp
  next
    case Control_moves
    from this g(4) stopped process_goodD(9) [OF g(1)] show ?thesis by cases simp_all
  qed
qed

lemma controlled_frozen_run:
  assumes "node_store (ae_nmos E) ids (ce_node K)" "iteration_order (ae_order E)"
    and "controlled_good E C G parse serialize y" "pr_stop (cp_process y) = All_stopped"
    and "(controlled_step E C G parse serialize K True)\<^sup>*\<^sup>* y z"
  shows "controlled_good E C G parse serialize z \<and> pr_stop (cp_process z) = All_stopped \<and>
    ap_node (pr_app (cp_process z)) = ap_node (pr_app (cp_process y)) \<and>
    ap_store (pr_app (cp_process z)) = ap_store (pr_app (cp_process y)) \<and>
    ap_sent (pr_app (cp_process z)) = ap_sent (pr_app (cp_process y))"
  using assms(5)
proof induction
  case base
  from assms(3,4) show ?case by simp
next
  case (step u v)
  then have "controlled_good E C G parse serialize u" "pr_stop (cp_process u) = All_stopped" by blast+
  from controlled_frozen [OF this step(2)] controlled_good_step [OF assms(1,2) this(1) step(2)] step.IH show ?case by simp
qed

section \<open>Requests that are due\<close>

text \<open>A step of the whole that neither follows a stop request nor reports \<open>r\<close> as applied.\<close>

definition awaiting_step ::
    "('v, 'rs) app_env \<Rightarrow> ('v, 'p, 'm, 'c) connection_lib \<Rightarrow> ws_config \<Rightarrow> (string \<Rightarrow> exc + 'v) \<Rightarrow> ('v \<Rightarrow> string) \<Rightarrow>
     'v config_env \<Rightarrow> bool \<Rightarrow> int64 \<Rightarrow> ('v, 'rs) controlled \<Rightarrow> ('v, 'rs) controlled \<Rightarrow> bool" where
  "awaiting_step E C G parse serialize K waits r x y \<longleftrightarrow> controlled_step E C G parse serialize K waits x y \<and>
     \<not> ap_stop_requested (pr_app (cp_process x)) \<and>
     \<not> r \<le>s st_last_applied_revision (ss_status (ap_store (pr_app (cp_process y))))"

lemma owes_same:
  "ap_sync_pending b = ap_sync_pending a \<Longrightarrow> ap_pending_revision b = ap_pending_revision a \<Longrightarrow> ap_pc b = ap_pc a \<Longrightarrow>
   owes r b = owes r a"
  by (simp add: owes_def)

lemma owes_callback: "owes r a \<Longrightarrow> owes r (ws_callback E c a)"
proof (cases c)
  case On_connected
  assume "owes r a"
  from owes_connected [OF this, of E "ap_ws_connected a"] On_connected show ?thesis by simp
next
  case On_disconnected
  assume "owes r a"
  with On_disconnected show ?thesis
    by (auto simp: handle_ws_disconnected_def on_node_def eff_simps owes_def on_store_def split: prod.splits sum.splits)
qed (simp_all add: owes_changed handle_ws_error_def)

lemma owes_callbacks: "owes r a \<Longrightarrow> owes r (fold (ws_callback E) cs a)"
  by (induction cs arbitrary: a) (simp_all add: owes_callback)

lemma stream_callback_pending [simp]:
  "ap_pending_revision (stream_callback E H y a) = ap_pending_revision a"
  by (cases y) (simp_all add: publish_sender_event_def publish_receiver_event_def handle_sender_event_def
      handle_receiver_event_def send_json_def)

lemma stream_callbacks_pending [simp]:
  "ap_pending_revision (fold (stream_callback E H) ys a) = ap_pending_revision a"
  by (induction ys arbitrary: a) simp_all

lemma owes_process_step:
  assumes step: "process_step E C G parse serialize p q" and owed: "owes r (pr_app p)"
    and go: "\<not> ap_stop_requested (pr_app p)" "\<not> r \<le>s st_last_applied_revision (ss_status (ap_store (pr_app q)))"
  shows "owes r (pr_app q)"
  using step
proof cases
  case (Client_moves w calls)
  have "owes r ((pr_app p)\<lparr> ap_ws_connected := wc_connected w \<rparr>)" using owed by (simp add: owes_def)
  with Client_moves(1) show ?thesis by (simp add: owes_callbacks)
next
  case (Sync_moves b)
  with go have "waiting_step E r (pr_app p) b" by (simp add: waiting_step_def)
  from owes_step [OF this owed] Sync_moves(1) show ?thesis by simp
next
  case (Stream_activated resource connection_resource q' b)
  from Stream_activated(3) have "owes r b"
  proof (rule activation_effect)
    fix u n
    assume "b = fold (stream_callback E run_handlers) (case u of Inl _ \<Rightarrow> [] | Inr reports \<Rightarrow> reports) ((pr_app p)\<lparr> ap_node := n \<rparr>)"
    with owed show "owes r b" by (simp add: owes_def)
  qed
  with Stream_activated(1) show ?thesis by simp
next
  case (Registration_changed u)
  with owed show ?thesis
    by (auto simp: registration_handler_def publish_registration_event_def handle_registration_event_def)
next
  case Node_stopped
  with owed show ?thesis
    by (simp add: stop_node_def owes_def on_store_def app_set_node_state_def send_json_def Let_def)
qed (use owed go in \<open>simp_all add: owes_def request_stop_def http_stop_def\<close>)

lemma owes_node_state [simp]: "owes r (app_set_node_state E st a) = owes r a"
  by (rule owes_same) (simp_all add: app_set_node_state_def on_store_def send_json_def Let_def)

lemma owes_restart:
  assumes "restart_phase E K server file phase a = (phase', b)" "owes r a"
  shows "owes r b"
proof (cases phase)
  case Scheduling
  with assms show ?thesis by (auto simp: Let_def owes_schedule)
next
  case Stopping_runtime
  with assms show ?thesis by (auto simp: owes_def)
next
  case Starting_runtime
  with assms show ?thesis by (auto simp: owes_def split: prod.splits)
qed (use assms in auto)

lemma owes_awaiting:
  assumes "awaiting_step E C G parse serialize K waits r x y" "owes r (pr_app (cp_process x))"
  shows "owes r (pr_app (cp_process y))"
proof -
  from assms(1) have step: "controlled_step E C G parse serialize K waits x y"
    and go: "\<not> ap_stop_requested (pr_app (cp_process x))" "\<not> r \<le>s st_last_applied_revision (ss_status (ap_store (pr_app (cp_process y))))"
    by (simp_all add: awaiting_step_def)
  from step show ?thesis
  proof cases
    case (Process_moves q)
    with owes_process_step [OF Process_moves(2) assms(2) go(1)] go(2) show ?thesis by simp
  next
    case Control_moves
    then show ?thesis
    proof cases
      case (Restart_moves nxt previous phase server phase' b)
      with owes_restart [OF Restart_moves(4) assms(2)] show ?thesis by simp
    qed (use assms(2) in simp_all)
  qed
qed

section \<open>Properties\<close>


abbreviation sample_controlled where
  "sample_controlled \<equiv> controlled_step sample_env sample_conn (ws_config_new 1000 0 0) (\<lambda>_. Inl ''syntax'') (\<lambda>_. ''text'')
     sample_config_env"

lemma sample_begins:
  "\<exists>d. begin_update sample_env sample_config_env Written (DObj []) True (daemon_of sample_served) = (Inr (DObj [], DObj []), d) \<and>
     dm_file d = Inr (DObj [])"
  by (simp add: begin_update_def eff_simps persisted_settings_def parse_json_file_def apply_selected_registry_settings_def
      write_persisted_settings_def write_json_file_def controlled_serving_def serving_def app_started_def sample_serving_def
      doc_lib_def Let_def)

lemma sample_begun:
  "sample_control sample_served (sample_served\<lparr> cp_pc := Restarting (DObj []) (Some (DObj [])) Announcing_restart \<rparr>)"
proof -
  from sample_begins obtain d where d:
    "begin_update sample_env sample_config_env Written (DObj []) True (daemon_of sample_served) = (Inr (DObj [], DObj []), d)"
    "dm_file d = Inr (DObj [])" by blast
  have "cp_pc sample_served = No_update" "pr_listener (cp_process sample_served)"
    by (simp_all add: controlled_serving_def serving_def)
  from Update_begins [OF this d(1), of "\<lambda>_. ''text''"] d(2) show ?thesis by (simp add: controlled_serving_def)
qed

lemma sample_node_store: "node_store (ae_nmos sample_env) (\<lambda>rs. set (map re_id rs)) (ce_node sample_config_env)"
  using sample_start.node_store_axioms by simp

lemma sample_served_node: "node_good (ae_nmos sample_env) sample_serving" "nd_lifecycle_state sample_serving = Running"
  using sample_serving_good by (simp_all, simp add: sample_serving_def sample_node_def)




text \<open>A run in which the process stops while the request is between the stop and the start of the node.\<close>

definition overtaken :: "stop_pc \<Rightarrow> sync_pc \<Rightarrow> ws_pc \<Rightarrow> (doc, doc resource list) controlled \<Rightarrow> bool" where
  "overtaken st sync client x \<longleftrightarrow> (sample_controlled False)\<^sup>*\<^sup>* sample_served x \<and>
     cp_pc x = Restarting (DObj []) (Some (DObj [])) Resetting_registry \<and> cp_file x = Inr (DObj []) \<and>
     pr_stop (cp_process x) = st \<and> pr_started (cp_process x) \<and>
     ap_pc (pr_app (cp_process x)) = sync \<and> ap_stop_requested (pr_app (cp_process x)) \<and> \<not> ap_ws_connected (pr_app (cp_process x)) \<and>
     ap_node (pr_app (cp_process x)) = snd (node_stop sample_serving) \<and>
     wc_pc (pr_ws (cp_process x)) = client \<and> \<not> wc_client (pr_ws (cp_process x)) \<and> \<not> wc_connected (pr_ws (cp_process x)) \<and>
     (st \<noteq> Not_stopping \<longrightarrow> wc_stop_requested (pr_ws (cp_process x)))"

lemma overtaken_process:
  assumes "overtaken st sync client x" "sample_process (cp_process x) q"
  shows "(sample_controlled False)\<^sup>*\<^sup>* sample_served (x\<lparr> cp_process := q \<rparr>)"
  using assms by (auto simp: overtaken_def intro: rtranclp.rtrancl_into_rtrancl Process_moves)

lemma overtaken_control:
  assumes "(sample_controlled False)\<^sup>*\<^sup>* sample_served x" "sample_control x y"
  shows "(sample_controlled False)\<^sup>*\<^sup>* sample_served y"
  using assms by (auto intro: rtranclp.rtrancl_into_rtrancl Control_moves)

lemma publish_unconnected:
  "ap_sent b = ap_sent (pr_app p) \<Longrightarrow> publish serialize b p = p\<lparr> pr_app := b \<rparr>"
  by (cases p) (simp add: publish_def)

lemma http_stop_fields [simp]:
  "pr_app (http_stop p) = pr_app p" "pr_ws (http_stop p) = pr_ws p" "pr_started (http_stop p) = pr_started p"
  by (simp_all add: http_stop_def)

lemma overtaken_begins: "\<exists>x. overtaken Not_stopping Waiting Loop_head x"
proof -
  let ?x = "sample_served\<lparr> cp_pc := Restarting (DObj []) (Some (DObj [])) Announcing_restart \<rparr>"
  have run: "(sample_controlled False)\<^sup>*\<^sup>* sample_served ?x"
    by (rule overtaken_control [OF rtranclp.rtrancl_refl sample_begun])
  have "sample_control ?x (?x\<lparr> cp_process := publish (\<lambda>_. ''text'') (app_set_node_state sample_env ''restarting'' (pr_app (cp_process ?x)))
      (cp_process ?x), cp_pc := Restarting (DObj []) (Some (DObj [])) Stopping_runtime \<rparr>)" (is "sample_control ?x ?y")
    by (rule Restart_moves [where server = None]) (simp, simp, simp)
  note run = overtaken_control [OF run this]
  have "sample_control ?y (?y\<lparr> cp_process := publish (\<lambda>_. ''text'') ((pr_app (cp_process ?y))\<lparr> ap_node := snd (node_stop (ap_node (pr_app (cp_process ?y)))) \<rparr>)
      (cp_process ?y), cp_pc := Restarting (DObj []) (Some (DObj [])) Resetting_registry \<rparr>)" (is "sample_control ?y ?z")
    by (rule Restart_moves [where server = None]) (simp, simp, simp)
  note run = overtaken_control [OF run this]
  have "sample_process (cp_process ?z) (request_stop (cp_process ?z))" by (rule process_step.Stop_requested)
  then have "sample_controlled False ?z (?z\<lparr> cp_process := request_stop (cp_process ?z) \<rparr>)" by (rule Process_moves) simp
  with run have "(sample_controlled False)\<^sup>*\<^sup>* sample_served (?z\<lparr> cp_process := request_stop (cp_process ?z) \<rparr>)"
    by (rule rtranclp.rtrancl_into_rtrancl)
  moreover have "ap_sent (app_set_node_state sample_env ''restarting'' (app_started sample_serving 0)) = []"
    by (simp add: set_node_state_unconnected app_started_def)
  ultimately show ?thesis
    by (intro exI [of _ "?z\<lparr> cp_process := request_stop (cp_process ?z) \<rparr>"])
      (simp add: overtaken_def controlled_serving_def serving_def request_stop_def publish_unconnected set_node_state_unconnected
        app_started_def ws_started_def)
qed

lemma overtaken_stops: "\<exists>x. overtaken Stopping_node Finished Ended x"
proof -
  from overtaken_begins obtain a where a: "overtaken Not_stopping Waiting Loop_head a" by blast
  have "sample_process (cp_process a) ((client_moves sample_env (\<lambda>_. ''text'') (ws_stop None (pr_ws (cp_process a))) [] (cp_process a))
      \<lparr> pr_stop := Joining_client \<rparr>)"
    by (rule process_step.Stop_begins [where closing = None]) (use a in \<open>simp_all add: overtaken_def ws_stop_def close_active_client_def\<close>)
  from overtaken_process [OF a this] a have "\<exists>x. overtaken Joining_client Waiting Loop_head x"
    by (intro exI) (auto simp: overtaken_def ws_stop_def close_active_client_def client_moves_def publish_unconnected)
  then obtain b where b: "overtaken Joining_client Waiting Loop_head b" by blast
  have "sample_process (cp_process b) (client_moves sample_env (\<lambda>_. ''text'') ((pr_ws (cp_process b))\<lparr> wc_pc := Ended \<rparr>) [] (cp_process b))"
    by (rule process_step.Client_moves) (use b in \<open>simp_all add: overtaken_def texts_def ws_step.End_loop\<close>)
  from overtaken_process [OF b this] b have "\<exists>x. overtaken Joining_client Waiting Ended x"
    by (intro exI) (auto simp: overtaken_def client_moves_def publish_unconnected)
  then obtain c where c: "overtaken Joining_client Waiting Ended c" by blast
  have "sample_process (cp_process c) ((cp_process c)\<lparr> pr_stop := Joining_sync \<rparr>)"
    by (rule process_step.Client_joined) (use c in \<open>simp_all add: overtaken_def\<close>)
  from overtaken_process [OF c this] c have "\<exists>x. overtaken Joining_sync Waiting Ended x"
    by (intro exI) (auto simp: overtaken_def)
  then obtain d where d: "overtaken Joining_sync Waiting Ended d" by blast
  let ?b = "(pr_app (cp_process d))\<lparr> ap_pc := Finished \<rparr>"
  have "app_step sample_env (pr_app (cp_process d)) ?b" by (rule app_step.Leave) (use d in \<open>simp_all add: overtaken_def\<close>)
  then have "sample_process (cp_process d) (publish (\<lambda>_. ''text'') ?b (cp_process d))"
    by (rule process_step.Sync_moves) (use d in \<open>simp add: overtaken_def\<close>)
  from overtaken_process [OF d this] d have "\<exists>x. overtaken Joining_sync Finished Ended x"
    by (intro exI) (auto simp: overtaken_def publish_unconnected)
  then obtain e where e: "overtaken Joining_sync Finished Ended e" by blast
  have "sample_process (cp_process e) ((cp_process e)\<lparr> pr_stop := Closing_listener \<rparr>)"
    by (rule process_step.Sync_joined) (use e in \<open>simp_all add: overtaken_def\<close>)
  from overtaken_process [OF e this] e have "\<exists>x. overtaken Closing_listener Finished Ended x"
    by (intro exI) (auto simp: overtaken_def)
  then obtain f where f: "overtaken Closing_listener Finished Ended f" by blast
  have "sample_process (cp_process f) ((http_stop (cp_process f))\<lparr> pr_stop := Stopping_node \<rparr>)"
    by (rule process_step.Listener_closed) (use f in \<open>simp add: overtaken_def\<close>)
  from overtaken_process [OF f this] f show ?thesis
    by (intro exI) (auto simp: overtaken_def)
qed

lemma sample_starts_again:
  "fst (node_start sample_os doc_lib sample_lib sample_node_lib sample_transportfile (Inr (DObj [])) (Inr (DObj [])) None
     (snd (node_stop sample_serving)))"
  by code_simp


text \<open>
  The theorem before needs the listener to wait: if closing it returns while a request is being handled, the process can stop between
  the stop and the start of a restart; the request then starts the node again, and when everything
  has stopped the node runs and is reported as running.
\<close>
theorem update_outlives_stop:
  "\<exists>x. (sample_controlled False)\<^sup>*\<^sup>* sample_served x \<and> pr_stop (cp_process x) = All_stopped \<and>
     nd_lifecycle_state (ap_node (pr_app (cp_process x))) = Running \<and> node_status (pr_app (cp_process x)) = ''running''"
proof -
  let ?n = "snd (node_stop sample_serving)"
  from overtaken_stops obtain a where a: "overtaken Stopping_node Finished Ended a" by blast
  define b where "b = a\<lparr> cp_process := stop_node sample_env (\<lambda>_. ''text'') (cp_process a) \<rparr>"
  have "sample_process (cp_process a) (stop_node sample_env (\<lambda>_. ''text'') (cp_process a))"
    by (rule process_step.Node_stopped) (use a in \<open>simp add: overtaken_def\<close>)
  from overtaken_process [OF a this] have run: "(sample_controlled False)\<^sup>*\<^sup>* sample_served b" by (simp add: b_def)
  from a have b: "cp_pc b = Restarting (DObj []) (Some (DObj [])) Resetting_registry" "cp_file b = Inr (DObj [])"
    "pr_stop (cp_process b) = All_stopped" "ap_node (pr_app (cp_process b)) = ?n"
    by (simp_all add: b_def overtaken_def stop_node_result stop_idle)
  from request_moves [OF b(1), of sample_env sample_config_env "\<lambda>_. ''text''" 4 None] obtain c where
    c: "(request_step sample_env sample_config_env (\<lambda>_. ''text''))\<^sup>*\<^sup>* b c"
      "daemon_of c = (daemon_of b)\<lparr> dm_app := snd ((phases sample_env sample_config_env None (cp_file b) ^^ 4)
         (Resetting_registry, pr_app (cp_process b))) \<rparr>" by blast
  from c(1) have "(sample_controlled False)\<^sup>*\<^sup>* sample_served c \<and> pr_stop (cp_process c) = All_stopped"
  proof induction
    case base
    from run b(3) show ?case by simp
  next
    case (step u v)
    from step(2) have go: "sample_control u v" by (simp add: request_step_def)
    then have "pr_stop (cp_process v) = pr_stop (cp_process u)" by cases simp_all
    with step.IH overtaken_control [OF _ go] show ?case by auto
  qed
  moreover obtain ok n where n: "node_start sample_os doc_lib sample_lib sample_node_lib sample_transportfile (Inr (DObj []))
      (Inr (DObj [])) None ?n = (ok, n)" by fastforce
  with sample_starts_again have "ok" by simp
  with node_store.start_effect [OF sample_start.node_store_axioms sample_serving_good n] have "nd_lifecycle_state n = Running" by simp
  moreover have "pr_app (cp_process c) = snd ((phases sample_env sample_config_env None (Inr (DObj [])) ^^ 4)
      (Resetting_registry, pr_app (cp_process b)))" using arg_cong [OF c(2), of dm_app] by (simp add: b(2))
  then have "ap_node (pr_app (cp_process c)) = n" "node_status (pr_app (cp_process c)) = ''running''"
    using n \<open>ok\<close> by (simp_all add: eval_nat_numeral on_store_def b(4))
  ultimately show ?thesis by (intro exI [of _ c]) simp
qed


text \<open>
  C30. A change notification survives restarts of the node: from its handling until a synchronisation with its revision or a later
  one has been applied, or a stop is requested, such a synchronisation is pending or under way, whatever
  the requests of the control interface and the threads of the process do.
\<close>
theorem notification_survives_updates:
  assumes "pr_app (cp_process x) = handle_snapshot_changed m s"
    and "(awaiting_step E C G parse serialize K waits (cm_revision m))\<^sup>*\<^sup>* x y"
  shows "owes (cm_revision m) (pr_app (cp_process y))"
  using assms(2)
proof induction
  case base
  from changed_owes assms(1) show ?case by simp
next
  case (step y z)
  from owes_awaiting [OF step(2) step.IH] show ?case .
qed

theorem notification_survives_updates_witness:
  "\<exists>y. sample_control (sample_served\<lparr> cp_process := (cp_process sample_served)
        \<lparr> pr_app := handle_snapshot_changed \<lparr> cm_revision = 5, cm_reason = [] \<rparr> (app_started sample_serving 0) \<rparr>,
      cp_pc := Restarting (DObj []) None Stopping_runtime \<rparr>) y \<and>
     nd_lifecycle_state (ap_node (pr_app (cp_process y))) = Stopped \<and> owes 5 (pr_app (cp_process y))"
proof -
  let ?m = "\<lparr> cm_revision = 5, cm_reason = [] \<rparr>"
  let ?a = "handle_snapshot_changed ?m (app_started sample_serving 0)"
  let ?x = "sample_served\<lparr> cp_process := (cp_process sample_served)\<lparr> pr_app := ?a \<rparr>, cp_pc := Restarting (DObj []) None Stopping_runtime \<rparr>"
  let ?b = "?a\<lparr> ap_node := snd (node_stop (ap_node ?a)) \<rparr>"
  let ?y = "?x\<lparr> cp_process := publish (\<lambda>_. ''text'') ?b (cp_process ?x), cp_pc := Restarting (DObj []) None Resetting_registry \<rparr>"
  have step: "sample_control ?x ?y" by (rule Restart_moves [where server = None]) (simp, simp, simp)
  have go: "\<not> ap_stop_requested (pr_app (cp_process ?x))" by (simp add: app_started_def)
  have "\<not> 5 \<le>s st_last_applied_revision (ss_status (ap_store (pr_app (cp_process ?y))))"
    by (simp add: app_started_def state_store_initial_def store_defs signed_le)
  with Control_moves [OF step, of sample_conn "ws_config_new 1000 0 0" "\<lambda>_. Inl ''syntax''" True] go
  have await: "awaiting_step sample_env sample_conn (ws_config_new 1000 0 0) (\<lambda>_. Inl ''syntax'') (\<lambda>_. ''text'') sample_config_env True
      (cm_revision ?m) ?x ?y" by (simp only: awaiting_step_def snapshot_changed_message.select_convs simp_thms)
  have "pr_app (cp_process ?x) = ?a" by simp
  from notification_survives_updates [OF this r_into_rtranclp [of "awaiting_step sample_env sample_conn (ws_config_new 1000 0 0)
      (\<lambda>_. Inl ''syntax'') (\<lambda>_. ''text'') sample_config_env True (cm_revision ?m)", OF await]]
  have "owes 5 (pr_app (cp_process ?y))" by simp
  with step show ?thesis by (intro exI [of _ ?y]) simp
qed

text \<open>
  C35. What leaves the process are texts of messages \<open>App\<close> has sent, each at most once and in the order in which they were
  sent, whatever is lost in between, restarts of the node included.
\<close>
theorem messages_in_order:
  assumes "node_store (ae_nmos E) ids (ce_node K)" "iteration_order (ae_order E)" "node_good (ae_nmos E) n"
    and "nd_lifecycle_state n = Running"
    and "(controlled_step E C G parse serialize K True)\<^sup>*\<^sup>* (controlled_serving n now listening file) x"
  shows "subseq (filter (\<lambda>m. qm_type m = Text_message) (wc_wire (pr_ws (cp_process x))))
    (map (text_of serialize) (ap_sent (pr_app (cp_process x))))"
  by (rule good_in_order [OF controlled_goodD(1) [OF controlled_reaches [OF assms]]])

lemma sample_controlled_sends:
  "\<exists>x. (sample_controlled True)\<^sup>*\<^sup>* (controlled_serving sample_receiving 0 True (Inl ''no file'')) x \<and>
     length (wc_wire (pr_ws (cp_process x))) = 1 \<and>
     ap_sent (pr_app (cp_process x)) = [stream_message doc_lib (NR sample_activated)]"
proof -
  let ?x = "controlled_serving sample_receiving 0 True (Inl ''no file'')"
  from sample_sends obtain p where p: "sample_process\<^sup>*\<^sup>* (serving sample_receiving 0 True) p"
    "ap_sent (pr_app p) = [stream_message doc_lib (NR sample_activated)]"
    "wc_wire (pr_ws p) = [text_of (\<lambda>_. ''text'') (stream_message doc_lib (NR sample_activated))]" by blast
  have "sample_process\<^sup>*\<^sup>* (cp_process ?x) p" "cp_pc ?x = No_update" using p(1) by (simp_all add: controlled_serving_def)
  from process_steps [OF this] p(2,3) show ?thesis
    by (intro exI [of _ "?x\<lparr> cp_process := p \<rparr>"]) (simp del: stream_message.simps)
qed

lemma sample_receiving_node: "node_good (ae_nmos sample_env) sample_receiving" "nd_lifecycle_state sample_receiving = Running"
  using sample_receiving_good by (simp_all, simp add: sample_receiving_def sample_node_def)

theorem messages_in_order_witness:
  "\<exists>x. (sample_controlled True)\<^sup>*\<^sup>* (controlled_serving sample_receiving 0 True (Inl ''no file'')) x \<and>
     length (wc_wire (pr_ws (cp_process x))) = 1 \<and>
     subseq (filter (\<lambda>m. qm_type m = Text_message) (wc_wire (pr_ws (cp_process x))))
       (map (text_of (\<lambda>_. ''text'')) (ap_sent (pr_app (cp_process x))))"
proof -
  from sample_controlled_sends obtain x where
    x: "(sample_controlled True)\<^sup>*\<^sup>* (controlled_serving sample_receiving 0 True (Inl ''no file'')) x"
      "length (wc_wire (pr_ws (cp_process x))) = 1" by blast
  from messages_in_order [OF sample_node_store sample_order sample_receiving_node x(1)] x show ?thesis by blast
qed



end
