(* ===== verification/Spec2Isabelle.thy ===== *)
theory Spec2Isabelle
  imports Video_Format State_Store Reconcile_Engine App_Sync Ws_Client Node_Lifecycle Config_Json Config_Update
    Node_Transport Node_Connection App_Run Node_Threads
    Node_Implementation Control_Steps App_Control
begin

text \<open>
  \<^bold>\<open>Verification development of the NMOS sync daemon.\<close>

  \<^bold>\<open>The program.\<close> The daemon (\<open>src/daemon\<close>) keeps an NMOS node (\<open>src/node.cpp\<close>, on top of the library
  nmos-cpp) in step with a backend. The backend announces changes over a WebSocket; the daemon then fetches
  a snapshot of all senders and receivers over HTTP, compares it with the last one and adds, updates
  and removes streams of the node. Streams that are activated over the NMOS connection API are reported back
  over the WebSocket. When the connection to the backend is lost the streams are meant to be drained. A
  small HTTP interface shows the status and edits the settings of the node, which is restarted for it.

  \<^bold>\<open>Parts and theories,\<close> from the bottom up; each imports the ones it calls.
  \<^item> \<open>Prelude\<close>: exceptions as \<open>exc + 'a\<close>, the state effect \<open>('s, 'a) eff\<close> that keeps the state it leaves when
    it throws, indexed loops, and the generic lemmas.
  \<^item> \<open>Json_Lib\<close>: the JSON library as the record \<open>J\<close> and the locale \<open>json_api\<close>.
  \<^item> \<open>Video_Format\<close>: \<open>daemon/video_format.{h,cpp}\<close>, the table of formats and its look-ups.
  \<^item> \<open>Dto_Types\<close>, \<open>Dto_Json\<close>: \<open>node.h\<close>, \<open>daemon/dto.{h,cpp}\<close>, the stream and snapshot types, the
    \<open>equivalent\<close> overloads, every reader and writer of JSON and the messages.
  \<^item> \<open>State_Store\<close>: \<open>daemon/state_store.{h,cpp}\<close>.
  \<^item> \<open>Node_Helpers\<close>, \<open>Nmos_Lib\<close>, \<open>Node_Resources\<close>, \<open>Node_Streams\<close>: the helpers of \<open>node.cpp\<close>, the library
    nmos-cpp as the record \<open>L\<close> and the locale \<open>resource_store\<close>, the construction of NMOS resources (with
    \<open>node_implementation.cpp\<close>), and the operations of \<open>Node::Impl\<close> on streams with the look-ups in its caches; \<open>node\<close> is the record of its
    members.
  \<^item> \<open>Reconcile\<close>: \<open>reconcile_list\<close> of \<open>daemon/reconcile_engine.cpp\<close> against the contract \<open>stream_store\<close>;
    \<open>Node_Contract\<close>: the node meets it for all six kinds of streams; \<open>Reconcile_Engine\<close>:
    \<open>daemon/node_runtime.cpp\<close>, \<open>apply_snapshot\<close>, \<open>drain_all\<close> and their abstract specification.
  \<^item> \<open>App_Sync\<close>: \<open>daemon/snapshot_client.cpp\<close> and the synchronisation in \<open>daemon/app.cpp\<close>, as the step relation
    \<open>app_step\<close> of its threads.
  \<^item> \<open>Ws_Client\<close>: \<open>daemon/ws_client.{h,cpp}\<close> as the step relation \<open>ws_step\<close> of its workers.
  \<^item> \<open>Node_Lifecycle\<close>: start and stop of the node; \<open>Config_Json\<close>: \<open>daemon/config.cpp\<close> and the edits of
    settings documents; \<open>Config_Update\<close>: \<open>update_node_config\<close>, \<open>restart_node_runtime\<close>, the settings file and
    \<open>daemon/http_debug_server.cpp\<close>.
  \<^item> \<open>Node_Transport\<close>, \<open>Node_Connection\<close>: the handlers the node registers with the library, the resolver of
    automatic parameters, the setter of transport files and the activation of connections; the way of their
    events through \<open>NodeRuntime\<close> to \<open>App\<close>, and the daemon with these events, \<open>daemon_step\<close>.
  \<^item> \<open>Node_Threads\<close>: the threads behind \<open>Node::Impl::start\<close> and \<open>stop\<close>, \<open>threads_step\<close>: any number of callers and the
    worker, interleaved at their critical sections.
  \<^item> \<open>App_Run\<close>: \<open>App::run\<close>, \<open>request_stop\<close>, \<open>stop\<close>, \<open>daemon/main.cpp\<close>, and the process in which \<open>App\<close> and its
    WebSocket client run together, \<open>process_step\<close>.
  \<^item> \<open>Control_Steps\<close>, \<open>App_Control\<close>: a request of the control interface statement by statement, \<open>control_step\<close>, and
    \<open>controlled_step\<close>, which interleaves it with the process.
  \<^item> \<open>Node_Implementation\<close>: the table of handlers given to the library, the parser of transport files, and the
    other helpers of \<open>node_implementation.{h,cpp}\<close>.

  \<^bold>\<open>How the code is read.\<close> A struct is a record with the members of the struct, an enumeration a datatype, an
  \<open>int\<close> a 32-bit and an \<open>int64_t\<close> a 64-bit word compared as signed; a \<open>double\<close> is an exact rational,
  rounding is not modelled. A function that may throw returns \<open>exc + 'a\<close>,
  one that also edits its object is an effect. A member function that holds a mutex for its whole body is one
  step; threads interleave where they hold none. Hash maps that are iterated take the order of their keys as
  the parameter \<open>ord\<close>. Logging and notifications leave no trace.
\<close>

text \<open>
  \<^bold>\<open>What is shown,\<close> by groups of lemmas; each property of the theories carries an identifier.
  \<^item> Data: every format of the table is found by its names; \<open>equivalent\<close> sees every member except the
    identity the node assigns; what is written as JSON is read back, except that a written snapshot is refused by
    the reader of snapshots; the effective PTP values are in range.
  \<^item> The node: its operations keep the invariant \<open>node_good\<close> of the caches and do to the table of streams
    what the contract says, on every path, exceptions included (\<open>Node_Contract\<close>).
  \<^item> Reconciliation refines an abstract specification: the node seen as a table by kind and id takes exactly the
    changed entries of the new snapshot; a failure leaves every entry old or new; a retry heals it; a
    drain removes exactly the last snapshot (\<open>Reconcile_Engine\<close>).
  \<^item> Synchronisation, for every interleaving: a change notification is never lost, a pending request can
    always be served, the node is in step with the last snapshot while synchronisations succeed, and what
    success, failure, disconnect and reconnect do (\<open>App_Sync\<close>).
  \<^item> The composed process refines the daemon and its client; messages leave it in order and typed; a loss of the
    connection never reaches \<open>App\<close> before a stop; starting, stopping and what is left of a stopped process
    (\<open>App_Run\<close>). A stop ends: the rank \<open>join_rank\<close> is at most 13 and falls with each step of a joined thread.
  \<^item> Calls of start and stop made one after the other return (at most nine steps, \<open>threads_rank\<close>) with the answer that
    fits the state; two callers can bring the node into a state in which a stop waits for ever; the
    pointer to the log outlives the log (\<open>Node_Threads\<close>).
  \<^item> Activations edit and report exactly the stream of the activated resource, the report is sent, and a
    later synchronisation keeps the edit; automatic parameters and transport files (\<open>Node_Connection\<close>,
    \<open>Node_Transport\<close>).
  \<^item> Restarts and configuration: what a restart keeps and forgets, every outcome of a configuration update with its
    rollback, merging of settings documents, and a configuration under which nothing is ever synchronised.
  \<^item> Requests of the control interface among the threads: alone their statements compute the function of
    \<open>Config_Update\<close>; in every interleaving the status of the node is truthful when no request is under way, a request
    ends within sixteen statements (\<open>request_rank\<close>), a change notification survives it, messages stay in order and
    typed, and a stop ends and is final if closing the listener waits for the request; without that there is
    a run in which the stopped process has a running node, \<open>update_outlives_stop\<close> (\<open>Control_Steps\<close>,
    \<open>App_Control\<close>).

  \<^bold>\<open>Interfaces.\<close> \<open>json_api\<close>, \<open>json_tree\<close>, \<open>resource_store\<close>, \<open>node_store\<close> and \<open>auto_library\<close> state what the code relies on
  of cpprest and nmos-cpp; their predicates are hypotheses of the theorems and hold for the concrete libraries
  \<open>doc_lib\<close>, \<open>sample_lib\<close>, \<open>sample_node_lib\<close> and \<open>sample_conn\<close>, on which the witnesses run. \<open>stream_store\<close> and \<open>edited_cache\<close>
  are interfaces inside the program; both are discharged for the six kinds of streams on the node of the model.

  \<^bold>\<open>Parameters.\<close> \<open>J\<close> the JSON library, \<open>L\<close>, \<open>N\<close> and \<open>C\<close> the parts of nmos-cpp, \<open>T\<close> the transport file setter
  (given by \<open>node_transportfile_setter\<close>), \<open>O'\<close> the operating system, \<open>ord\<close> the iteration order, \<open>u\<close> the uninitialised port of
  a stream without a redundant leg, the HTTP response, the outcome of each file access, server start and
  listener. They are arguments of the definitions, so the theorems hold for all of them.

  \<^bold>\<open>Fuel and termination.\<close> All definitions are total. Only \<open>merge_objects\<close> has fuel, the size of the patch and one more;
  nested objects are smaller than the object they are in (\<open>json_tree\<close>), so it does not run out. The loops
  of the threads are steps of relations and need none.

  \<^bold>\<open>Not modelled.\<close> Of \<open>node.cpp\<close>: the library's server, which runs the handlers; logging streams; \<open>get_interlace_mode\<close>, which is not
  called and compares with constants of the library; \<open>update_subscription_for_pair\<close> and the code after it, which is not called or
  commented out; the methods of \<open>Node\<close> that only forward to \<open>Impl\<close>. \<open>node_implementation.h\<close>: accessors of settings
  fields with their defaults, which belong to the library's macros. \<open>src/main.cpp\<close> is empty. In \<open>Node_Lifecycle\<close> a
  start or stop of the node is one function, the schedule of \<open>Node_Threads\<close> with one caller; \<open>stop\<close> is not called on
  the worker thread itself. A statement of a
  request of the control interface is one step in \<open>Control_Steps\<close>, the whole request one in \<open>Config_Update\<close>; the end of a
  synchronisation, from the fetched snapshot on, is one step; the wake-up of a waiting thread is not lost.
\<close>

end
